(* ===== verification/Amber_Prelude.thy ===== *)
theory Amber_Prelude
  imports Main "HOL-Library.Word"
begin

unbundle bit_operations_syntax

text \<open>
  Shared vocabulary of the development: the widths of the machine integers, the error codes of
  \<^verbatim>\<open>src/src/utils/define.h\<close>, the theorem collections, and generic facts on lists (the first
  index and the last index at which a predicate holds), on words and on options that several
  components use.
\<close>

section \<open>Machine types and error codes\<close>

type_synonym u8 = "8 word"
type_synonym u16 = "16 word"
type_synonym u32 = "32 word"
type_synonym u64 = "64 word"

text \<open>Return codes are C ints; zero is success.\<close>

abbreviation (input) MC_ERR_NOERROR :: int where "MC_ERR_NOERROR \<equiv> 0x00"
abbreviation (input) MC_ERR_INVALID_PARAMETER_VALUE :: int where "MC_ERR_INVALID_PARAMETER_VALUE \<equiv> 0x05"
abbreviation (input) MC_ERR_INTERNAL_ERROR :: int where "MC_ERR_INTERNAL_ERROR \<equiv> 0x06"
abbreviation (input) MC_ERR_FILE_READ_ERROR :: int where "MC_ERR_FILE_READ_ERROR \<equiv> 0x07"
abbreviation (input) MC_ERR_DBOPEN_ERROR :: int where "MC_ERR_DBOPEN_ERROR \<equiv> 0x0A"
abbreviation (input) MC_ERR_CORRUPTED :: int where "MC_ERR_CORRUPTED \<equiv> 0x0B"
abbreviation (input) MC_ERR_NOT_ALLOWED :: int where "MC_ERR_NOT_ALLOWED \<equiv> 0x0C"
abbreviation (input) MC_ERR_WRONG_SCRIPT :: int where "MC_ERR_WRONG_SCRIPT \<equiv> 0x0D"
abbreviation (input) MC_ERR_NOT_FOUND :: int where "MC_ERR_NOT_FOUND \<equiv> 0x0F"
abbreviation (input) MC_ERR_ERROR_IN_SCRIPT :: int where "MC_ERR_ERROR_IN_SCRIPT \<equiv> 0x11"

text \<open>
  Collections: \<open>buf_simps\<close> evaluates buffer operations on their row lists, \<open>store_simps\<close> reads
  of the key-value store after writes, \<open>frame_simps\<close> the fields an operation leaves alone, and
  \<open>wf_intros\<close> preservation of the well-formedness invariants.
\<close>

named_theorems buf_simps
named_theorems store_simps
named_theorems frame_simps
named_theorems wf_intros

section \<open>C integer conversions\<close>

text \<open>The value of a C \<open>int\<close> after an operation that wraps at 32 bits.\<close>

definition to_i32 :: "int \<Rightarrow> int" where
  "to_i32 x = sint (word_of_int x :: u32)"

lemma to_i32_id: "- (2 ^ 31) \<le> x \<Longrightarrow> x < 2 ^ 31 \<Longrightarrow> to_i32 x = x"
  by (simp add: to_i32_def sint_sbintrunc' signed_take_bit_int_eq_self)

lemma unat_word_of_int_nonneg:
  "0 \<le> x \<Longrightarrow> x < 2 ^ LENGTH('a::len) \<Longrightarrow> unat (word_of_int x :: 'a word) = nat x"
  by (simp add: unat_eq_nat_uint uint_word_of_int)

section \<open>Byte order\<close>

text \<open>
  Four bytes read as a little-endian number, as the code reads a \<open>uint32_t\<close> out of memory, and
  the same bytes in the other order.
\<close>

definition bswap32 :: "u32 \<Rightarrow> u32" where
  "bswap32 w = push_bit 24 (take_bit 8 w) OR push_bit 16 (take_bit 8 (drop_bit 8 w))
     OR push_bit 8 (take_bit 8 (drop_bit 16 w)) OR take_bit 8 (drop_bit 24 w)"

lemma bit_bswap32:
  "bit (bswap32 w) n \<longleftrightarrow>
     n < 32 \<and> bit w (if n < 8 then 24 + n else if n < 16 then 8 + n else if n < 24 then n - 8 else n - 24)"
proof (cases "n < 32")
  case True
  then show ?thesis by (auto simp: bswap32_def bit_simps)
next
  case False
  then show ?thesis by (simp add: impossible_bit)
qed

lemma bswap32_bswap32 [simp]: "bswap32 (bswap32 w) = w"
proof (rule bit_word_eqI)
  fix n :: nat
  assume "n < LENGTH(32)"
  then consider "n < 8" | "8 \<le> n \<and> n < 16" | "16 \<le> n \<and> n < 24" | "24 \<le> n \<and> n < 32"
    by fastforce
  then show "bit (bswap32 (bswap32 w)) n = bit w n" by cases (auto simp: bit_bswap32)
qed

lemma bswap32_inj [simp]: "bswap32 a = bswap32 b \<longleftrightarrow> a = b"
  using bswap32_bswap32 by metis

section \<open>The first index at which a predicate holds\<close>

fun find_idx :: "('a \<Rightarrow> bool) \<Rightarrow> 'a list \<Rightarrow> nat option" where
  "find_idx p [] = None"
| "find_idx p (x # xs) = (if p x then Some 0 else map_option Suc (find_idx p xs))"

lemma find_idx_None: "find_idx p xs = None \<longleftrightarrow> (\<forall>x\<in>set xs. \<not> p x)"
  by (induction xs) auto

lemma find_idx_Some:
  "find_idx p xs = Some i \<longleftrightarrow> i < length xs \<and> p (xs ! i) \<and> (\<forall>j<i. \<not> p (xs ! j))"
proof (induction xs arbitrary: i)
  case Nil
  then show ?case by simp
next
  case (Cons x xs)
  show ?case
  proof (cases "p x")
    case True
    then show ?thesis by (auto simp: nth_Cons split: nat.splits)
  next
    case False
    then show ?thesis
      by (cases i) (auto simp: Cons.IH nth_Cons less_Suc_eq_0_disj split: nat.splits)
  qed
qed

lemma find_idx_append:
  "find_idx p (xs @ ys) =
     (case find_idx p xs of Some i \<Rightarrow> Some i
      | None \<Rightarrow> map_option (\<lambda>i. i + length xs) (find_idx p ys))"
  by (induction xs) (auto split: option.splits simp: option.map_comp comp_def option.map_ident)

lemma find_idx_unique:
  assumes "i < length xs" and "p (xs ! i)" and "\<And>j. j < length xs \<Longrightarrow> p (xs ! j) \<Longrightarrow> j = i"
  shows "find_idx p xs = Some i"
proof -
  have "\<not> p (xs ! j)" if "j < i" for j
    using that assms(1) assms(3) [of j] by auto
  with assms(1,2) show ?thesis by (simp add: find_idx_Some)
qed

section \<open>The last index below a bound at which a predicate holds\<close>

text \<open>
  Index 0 is never counted: row 0 of the permission ledger is its header, and the code uses the
  row number 0 for ``no row''.
\<close>

primrec last_idx :: "('a \<Rightarrow> bool) \<Rightarrow> 'a list \<Rightarrow> nat \<Rightarrow> nat" where
  "last_idx p xs 0 = 0"
| "last_idx p xs (Suc n) = (if 0 < n \<and> p (xs ! n) then n else last_idx p xs n)"

lemma last_idx_less: "0 < n \<Longrightarrow> last_idx p xs n < n"
  by (induction n) (auto simp: less_Suc_eq)

lemma last_idx_le: "last_idx p xs n \<le> n"
  by (induction n) auto

lemma last_idx_holds: "0 < last_idx p xs n \<Longrightarrow> p (xs ! last_idx p xs n)"
  by (induction n) auto

lemma last_idx_max: "j < n \<Longrightarrow> 0 < j \<Longrightarrow> p (xs ! j) \<Longrightarrow> j \<le> last_idx p xs n"
  by (induction n) (auto simp: less_Suc_eq)

lemma last_idx_none: "last_idx p xs n = 0 \<longleftrightarrow> (\<forall>j<n. 0 < j \<longrightarrow> \<not> p (xs ! j))"
proof
  assume "last_idx p xs n = 0"
  then show "\<forall>j<n. 0 < j \<longrightarrow> \<not> p (xs ! j)" using last_idx_max by fastforce
next
  assume "\<forall>j<n. 0 < j \<longrightarrow> \<not> p (xs ! j)"
  then show "last_idx p xs n = 0" by (induction n) auto
qed

lemma last_idx_eqI:
  assumes "0 < j" and "j < n" and "p (xs ! j)" and "\<And>i. j < i \<Longrightarrow> i < n \<Longrightarrow> \<not> p (xs ! i)"
  shows "last_idx p xs n = j"
proof -
  have "j \<le> last_idx p xs n" using assms(1-3) by (simp add: last_idx_max)
  moreover have "\<not> j < last_idx p xs n"
    using assms(2,4) last_idx_less [of n p xs] last_idx_holds [of p xs n] by fastforce
  ultimately show ?thesis by simp
qed

lemma last_idx_cong: "(\<And>i. i < n \<Longrightarrow> xs ! i = ys ! i) \<Longrightarrow> last_idx p xs n = last_idx p ys n"
  by (induction n) auto

lemma last_idx_append [simp]: "n \<le> length xs \<Longrightarrow> last_idx p (xs @ ys) n = last_idx p xs n"
  by (rule last_idx_cong) (simp add: nth_append)

lemma last_idx_take [simp]: "n \<le> m \<Longrightarrow> last_idx p (take m xs) n = last_idx p xs n"
  by (rule last_idx_cong) simp

lemma last_idx_mono: "m \<le> n \<Longrightarrow> last_idx p xs m \<le> last_idx p xs n"
  by (induction n) (auto simp: le_Suc_eq intro: le_trans [OF last_idx_le] less_imp_le)

section \<open>Options and results\<close>

lemma map_upd_cases: "(m(k \<mapsto> v)) j = (if j = k then Some v else m j)"
  by simp

end
