(* ===== verification/Buffer.thy ===== *)
theory Buffer
  imports Amber_Prelude
begin

text \<open>
  The growable row buffer \<^verbatim>\<open>mc_Buffer\<close> of \<^verbatim>\<open>src/src/utils/utility.cpp\<close> and the index
  \<^verbatim>\<open>mc_MapStringIndex\<close> of \<^verbatim>\<open>src/src/utils/tools.cpp\<close> it uses in map mode. The memory behind
  the buffer is a function from row numbers to rows, so that reading past \<open>m_Count\<close> returns what
  the memory holds (stale rows survive \<open>Clear\<close> and a shrinking \<open>SetCount\<close>). The key of a row, its
  first \<open>m_KeySize\<close> bytes in the code, is the argument \<open>kf\<close>. Allocation is assumed to succeed.
  The locale \<open>keyed_rows\<close> states what the other components rely on; \<open>mcb\<close> interprets it on the
  buffer.
\<close>

section \<open>The index\<close>

type_synonym 'k string_index = "'k \<rightharpoonup> nat"

text \<open>\<^verbatim>\<open>std::map::insert\<close> keeps an existing entry.\<close>

definition index_Add :: "'k string_index \<Rightarrow> 'k \<Rightarrow> nat \<Rightarrow> 'k string_index" where
  "index_Add m k v = (case m k of None \<Rightarrow> m(k \<mapsto> v) | Some _ \<Rightarrow> m)"

definition index_Get :: "'k string_index \<Rightarrow> 'k \<Rightarrow> nat option" where
  "index_Get m k = m k"

section \<open>The buffer and its operations\<close>

record ('k, 'r) mc_Buffer =
  m_Data :: "nat \<Rightarrow> 'r"
  m_Count :: nat
  m_Index :: "'k string_index option"

definition buf_Initialize :: "(nat \<Rightarrow> 'r) \<Rightarrow> bool \<Rightarrow> ('k, 'r) mc_Buffer" where
  "buf_Initialize mem map_mode =
     \<lparr>m_Data = mem, m_Count = 0, m_Index = (if map_mode then Some Map.empty else None)\<rparr>"

definition buf_Clear :: "('k, 'r) mc_Buffer \<Rightarrow> ('k, 'r) mc_Buffer" where
  "buf_Clear b = b\<lparr>m_Count := 0, m_Index := map_option (\<lambda>_. Map.empty) (m_Index b)\<rparr>"

definition buf_Add :: "('r \<Rightarrow> 'k) \<Rightarrow> ('k, 'r) mc_Buffer \<Rightarrow> 'r \<Rightarrow> ('k, 'r) mc_Buffer" where
  "buf_Add kf b r =
     b\<lparr>m_Data := (m_Data b)(m_Count b := r),
       m_Index := map_option (\<lambda>m. index_Add m (kf r) (m_Count b)) (m_Index b),
       m_Count := Suc (m_Count b)\<rparr>"

definition buf_GetRow :: "('k, 'r) mc_Buffer \<Rightarrow> nat \<Rightarrow> 'r" where
  "buf_GetRow b i = m_Data b i"

definition buf_PutRow ::
    "('r \<Rightarrow> 'k) \<Rightarrow> ('k, 'r) mc_Buffer \<Rightarrow> nat \<Rightarrow> 'r \<Rightarrow> int \<times> ('k, 'r) mc_Buffer" where
  "buf_PutRow kf b i r =
     (if m_Count b \<le> i then (MC_ERR_INTERNAL_ERROR, b)
      else (MC_ERR_NOERROR,
            b\<lparr>m_Data := (m_Data b)(i := r),
              m_Index := map_option (\<lambda>m. index_Add m (kf r) i) (m_Index b)\<rparr>))"

text \<open>The linear search of the default mode, from row \<open>i\<close> on.\<close>

function buf_seek_from ::
    "('r \<Rightarrow> 'k) \<Rightarrow> ('k, 'r) mc_Buffer \<Rightarrow> 'k \<Rightarrow> nat \<Rightarrow> nat option" where
  "buf_seek_from kf b k i =
     (if i < m_Count b then (if kf (m_Data b i) = k then Some i else buf_seek_from kf b k (Suc i))
      else None)"
  by pat_completeness auto
termination
  by (relation "measure (\<lambda>(kf, b, k, i). m_Count b - i)") auto

declare buf_seek_from.simps [simp del]

definition buf_Seek :: "('r \<Rightarrow> 'k) \<Rightarrow> ('k, 'r) mc_Buffer \<Rightarrow> 'k \<Rightarrow> nat option" where
  "buf_Seek kf b k =
     (case m_Index b of
        Some m \<Rightarrow>
          (case index_Get m k of
             Some i \<Rightarrow> (if kf (buf_GetRow b i) = k then Some i else None)
           | None \<Rightarrow> None)
      | None \<Rightarrow> buf_seek_from kf b k 0)"

definition buf_GetCount :: "('k, 'r) mc_Buffer \<Rightarrow> nat" where
  "buf_GetCount b = m_Count b"

text \<open>Shrinking in map mode empties the buffer and adds the first rows again, from its own memory.\<close>

definition buf_SetCount :: "('r \<Rightarrow> 'k) \<Rightarrow> ('k, 'r) mc_Buffer \<Rightarrow> nat \<Rightarrow> ('k, 'r) mc_Buffer" where
  "buf_SetCount kf b n =
     (let b' = (if n < m_Count b then
                  (case m_Index b of
                     Some _ \<Rightarrow>
                       foldl (\<lambda>c i. buf_Add kf c (buf_GetRow c i))
                         (b\<lparr>m_Index := Some Map.empty, m_Count := 0\<rparr>) [0..<n]
                   | None \<Rightarrow> b\<lparr>m_Count := n\<rparr>)
                else b)
      in b'\<lparr>m_Count := n\<rparr>)"

definition buf_CopyFrom ::
    "('r \<Rightarrow> 'k) \<Rightarrow> ('k, 'r) mc_Buffer \<Rightarrow> ('k, 'r) mc_Buffer \<Rightarrow> ('k, 'r) mc_Buffer" where
  "buf_CopyFrom kf b src =
     foldl (\<lambda>c i. buf_Add kf c (buf_GetRow src i)) (buf_Clear b) [0..<buf_GetCount src]"

text \<open>A write through the pointer that \<open>GetRow\<close> returns.\<close>

definition buf_write_row :: "('k, 'r) mc_Buffer \<Rightarrow> nat \<Rightarrow> 'r \<Rightarrow> ('k, 'r) mc_Buffer" where
  "buf_write_row b i r = b\<lparr>m_Data := (m_Data b)(i := r)\<rparr>"

section \<open>Abstraction: the list of rows\<close>

definition buf_rows :: "('k, 'r) mc_Buffer \<Rightarrow> 'r list" where
  "buf_rows b = map (m_Data b) [0..<m_Count b]"

text \<open>The index, where there is one, gives the first row of every key.\<close>

definition buf_ok :: "('r \<Rightarrow> 'k) \<Rightarrow> ('k, 'r) mc_Buffer \<Rightarrow> bool" where
  "buf_ok kf b \<longleftrightarrow>
     (\<forall>m. m_Index b = Some m \<longrightarrow> (\<forall>k. m k = find_idx (\<lambda>r. kf r = k) (buf_rows b)))"

lemma length_buf_rows [simp]: "length (buf_rows b) = m_Count b"
  by (simp add: buf_rows_def)

lemma buf_rows_nth: "i < m_Count b \<Longrightarrow> buf_rows b ! i = m_Data b i"
  by (simp add: buf_rows_def)

lemma buf_GetRow_nth: "i < m_Count b \<Longrightarrow> buf_GetRow b i = buf_rows b ! i"
  by (simp add: buf_GetRow_def buf_rows_nth)

lemma buf_GetCount_rows [buf_simps]: "buf_GetCount b = length (buf_rows b)"
  by (simp add: buf_GetCount_def)

lemma buf_rows_Initialize [buf_simps]: "buf_rows (buf_Initialize mem md) = []"
  by (simp add: buf_rows_def buf_Initialize_def)

lemma buf_ok_Initialize [simp]: "buf_ok kf (buf_Initialize mem md)"
  by (simp add: buf_ok_def buf_rows_def buf_Initialize_def)

lemma buf_rows_write: "buf_rows (buf_write_row b i r) = (buf_rows b)[i := r]"
  by (rule nth_equalityI) (auto simp: buf_write_row_def buf_rows_def nth_list_update)

lemma buf_rows_Clear [simp, buf_simps]: "buf_rows (buf_Clear b) = []"
  by (simp add: buf_rows_def buf_Clear_def)

lemma buf_ok_Clear [simp]: "buf_ok kf (buf_Clear b)"
  by (auto simp: buf_ok_def buf_rows_def buf_Clear_def)

lemma buf_rows_Add [buf_simps]: "buf_rows (buf_Add kf b r) = buf_rows b @ [r]"
  by (simp add: buf_rows_def buf_Add_def)

lemma buf_ok_Add [simp]:
  assumes "buf_ok kf b"
  shows "buf_ok kf (buf_Add kf b r)"
proof (cases "m_Index b")
  case None
  then show ?thesis by (simp add: buf_ok_def buf_Add_def)
next
  case (Some m)
  with assms have m: "m k = find_idx (\<lambda>r. kf r = k) (buf_rows b)" for k by (simp add: buf_ok_def)
  have "m_Index (buf_Add kf b r) = Some (index_Add m (kf r) (m_Count b))"
    by (simp add: buf_Add_def Some)
  then show ?thesis
    by (auto simp: buf_ok_def buf_rows_Add find_idx_append index_Add_def m split: option.splits)
qed

lemma buf_seek_from_spec:
  "i \<le> m_Count b \<Longrightarrow>
   buf_seek_from kf b k i =
     map_option (\<lambda>j. j + i) (find_idx (\<lambda>r. kf r = k) (drop i (buf_rows b)))"
proof (induction kf b k i rule: buf_seek_from.induct)
  case (1 kf b k i)
  show ?case
  proof (cases "i < m_Count b")
    case True
    then have "drop i (buf_rows b) = m_Data b i # drop (Suc i) (buf_rows b)"
      by (metis Cons_nth_drop_Suc length_buf_rows buf_rows_nth)
    with True "1.IH" show ?thesis
      by (subst buf_seek_from.simps) (auto simp: option.map_comp comp_def)
  next
    case False
    with "1.prems" show ?thesis by (subst buf_seek_from.simps) simp
  qed
qed

text \<open>
  Both modes compute the same search: the map index is an optimisation of the scan.
\<close>

lemma buf_Seek_find:
  assumes "buf_ok kf b"
  shows "buf_Seek kf b k = find_idx (\<lambda>r. kf r = k) (buf_rows b)"
proof (cases "m_Index b")
  case None
  then show ?thesis
    by (simp add: buf_Seek_def buf_seek_from_spec option.map_ident)
next
  case (Some m)
  with assms have m: "m k = find_idx (\<lambda>r. kf r = k) (buf_rows b)" by (simp add: buf_ok_def)
  show ?thesis
  proof (cases "m k")
    case None
    with Some m show ?thesis by (simp add: buf_Seek_def index_Get_def)
  next
    case (Some i)
    with m have "kf (buf_rows b ! i) = k" and "i < m_Count b"
      by (auto simp: find_idx_Some dest: sym)
    with Some m \<open>m_Index b = Some m\<close> show ?thesis
      by (simp add: buf_Seek_def index_Get_def buf_GetRow_nth)
  qed
qed

lemma readd_rows:
  fixes kf :: "'r \<Rightarrow> 'k" and b :: "('k, 'r) mc_Buffer"
  assumes first_in_def: "first_in = (\<lambda>n q. find_idx (\<lambda>r. kf r = q) (map (m_Data b) [0..<n]))"
    and c0: "c0 = b\<lparr>m_Index := Some Map.empty, m_Count := 0\<rparr>"
  shows "foldl (\<lambda>c i. buf_Add kf c (buf_GetRow c i)) c0 [0..<n] =
     b\<lparr>m_Count := n, m_Index := Some (first_in n)\<rparr>"
proof (induction n)
  case 0
  then show ?case by (simp add: c0 first_in_def fun_eq_iff)
next
  case (Suc n)
  have "foldl (\<lambda>c i. buf_Add kf c (buf_GetRow c i)) c0 [0..<Suc n] =
      buf_Add kf (b\<lparr>m_Count := n, m_Index := Some (first_in n)\<rparr>) (m_Data b n)"
    by (simp add: Suc) (simp add: buf_GetRow_def)
  then show ?case
    by (simp add: buf_Add_def index_Add_def first_in_def fun_eq_iff find_idx_append
        split: option.splits)
qed

lemma buf_SetCount_shrink:
  assumes "n \<le> m_Count b" and "buf_ok kf b"
  shows "buf_rows (buf_SetCount kf b n) = take n (buf_rows b)"
    and "buf_ok kf (buf_SetCount kf b n)"
proof -
  have tk: "take n (buf_rows b) = map (m_Data b) [0..<n]"
    using assms(1) by (simp add: buf_rows_def take_map)
  have "buf_rows (buf_SetCount kf b n) = take n (buf_rows b) \<and> buf_ok kf (buf_SetCount kf b n)"
  proof (cases "n < m_Count b \<and> m_Index b \<noteq> None")
    case True
    then obtain m where m: "m_Index b = Some m" by auto
    have "buf_SetCount kf b n = b\<lparr>m_Count := n,
        m_Index := Some (\<lambda>q. find_idx (\<lambda>r. kf r = q) (map (m_Data b) [0..<n]))\<rparr>"
      using True m by (simp add: buf_SetCount_def readd_rows [OF refl refl])
    then show ?thesis by (simp only: tk) (simp add: buf_rows_def buf_ok_def)
  next
    case False
    then have "buf_SetCount kf b n = b\<lparr>m_Count := n\<rparr>" and "n = m_Count b \<or> m_Index b = None"
      using assms(1) by (auto simp: buf_SetCount_def)
    then show ?thesis using assms(2) by (simp only: tk) (auto simp: buf_rows_def buf_ok_def)
  qed
  then show "buf_rows (buf_SetCount kf b n) = take n (buf_rows b)"
    and "buf_ok kf (buf_SetCount kf b n)" by simp_all
qed

lemma buf_rows_PutRow:
  "i < m_Count b \<Longrightarrow> buf_rows (snd (buf_PutRow kf b i r)) = (buf_rows b)[i := r]"
  by (rule nth_equalityI) (auto simp: buf_PutRow_def buf_rows_nth nth_list_update buf_rows_def)

lemma find_idx_list_update_same:
  "i < length xs \<Longrightarrow> kf (xs ! i) = kf r \<Longrightarrow>
   find_idx (\<lambda>x. kf x = k) (xs[i := r]) = find_idx (\<lambda>x. kf x = k) xs"
  by (induction xs arbitrary: i) (auto split: nat.splits)

text \<open>A row replaced by one of the same key keeps the index right.\<close>

lemma buf_ok_PutRow:
  assumes "buf_ok kf b" and "i < m_Count b" and "kf (buf_rows b ! i) = kf r"
  shows "buf_ok kf (snd (buf_PutRow kf b i r))"
proof -
  have "find_idx (\<lambda>x. kf x = kf r) (buf_rows b) \<noteq> None"
    using assms(2,3) nth_mem [of i "buf_rows b"] by (auto simp: find_idx_None)
  then show ?thesis
    using assms
    by (auto simp: buf_ok_def buf_rows_PutRow find_idx_list_update_same)
      (auto simp: buf_PutRow_def index_Add_def split: if_splits option.splits)
qed

section \<open>The interface the permission component relies on\<close>

locale keyed_rows =
  fixes rows :: "'b \<Rightarrow> 'r list"
    and kf :: "'r \<Rightarrow> 'k"
    and clr :: "'b \<Rightarrow> 'b"
    and add :: "'b \<Rightarrow> 'r \<Rightarrow> 'b"
    and seek :: "'b \<Rightarrow> 'k \<Rightarrow> nat option"
    and cut :: "'b \<Rightarrow> nat \<Rightarrow> 'b"
    and ok :: "'b \<Rightarrow> bool"
  assumes rows_clr: "rows (clr b) = []"
    and rows_add: "rows (add b r) = rows b @ [r]"
    and rows_cut: "ok b \<Longrightarrow> n \<le> length (rows b) \<Longrightarrow> rows (cut b n) = take n (rows b)"
    and seek_rows: "ok b \<Longrightarrow> seek b k = find_idx (\<lambda>r. kf r = k) (rows b)"
    and ok_clr: "ok (clr b)"
    and ok_add: "ok b \<Longrightarrow> ok (add b r)"
    and ok_cut: "ok b \<Longrightarrow> n \<le> length (rows b) \<Longrightarrow> ok (cut b n)"
begin

text \<open>Adding rows and cutting back to a remembered size restores the rows: a checkpoint.\<close>

lemma rows_addl: "rows (foldl add b rs) = rows b @ rs"
  by (induction rs arbitrary: b) (simp_all add: rows_add)

lemma ok_addl: "ok b \<Longrightarrow> ok (foldl add b rs)"
  by (induction rs arbitrary: b) (simp_all add: ok_add)

lemma cut_addl:
  assumes "ok b"
  shows "rows (cut (foldl add b rs) (length (rows b))) = rows b"
  using assms by (simp add: rows_cut ok_addl rows_addl)

lemma seek_nth:
  assumes "ok b" and "seek b k = Some i"
  shows "i < length (rows b)" and "kf (rows b ! i) = k"
  using assms by (auto simp: seek_rows find_idx_Some)

lemma seek_None_iff: "ok b \<Longrightarrow> seek b k = None \<longleftrightarrow> k \<notin> kf ` set (rows b)"
  by (auto simp: seek_rows find_idx_None)

text \<open>Copying the rows of one buffer into a cleared one copies the buffer's contents.\<close>

lemma copy_rows: "rows (foldl add (clr b) (rows c)) = rows c" and "ok (foldl add (clr b) (rows c))"
  by (simp_all add: rows_addl rows_clr ok_addl ok_clr)

end

interpretation mcb: keyed_rows buf_rows kf buf_Clear "buf_Add kf" "buf_Seek kf" "buf_SetCount kf"
    "buf_ok kf" for kf :: "'r \<Rightarrow> 'k"
  by unfold_locales
    (simp_all add: buf_rows_Clear buf_rows_Add buf_SetCount_shrink buf_Seek_find)

end
