(* ===== verification/Kv_Store.thy ===== *)
theory Kv_Store
  imports Amber_Prelude
begin

text \<open>
  The ordered key-value store behind \<^verbatim>\<open>cs_Database\<close>: what the wrapper relies on of leveldb, as a
  list of rows in increasing key order. Writes inside a transaction are collected in a batch of
  \<open>Put\<close> and \<open>Del\<close> operations and applied together. The locale \<open>kv_store\<close> is the contract, with
  the effect of a whole batch proved once; \<open>kv\<close> interprets it on the sorted list.
\<close>

section \<open>Batches\<close>

datatype ('k, 'v) db_op = Put 'k 'v | Del 'k

primrec op_key :: "('k, 'v) db_op \<Rightarrow> 'k" where
  "op_key (Put k v) = k"
| "op_key (Del k) = k"

primrec op_val :: "('k, 'v) db_op \<Rightarrow> 'v option" where
  "op_val (Put k v) = Some v"
| "op_val (Del k) = None"

text \<open>The value of one key after a batch: the last operation on it, if there is one.\<close>

fun batch_val :: "('k, 'v) db_op list \<Rightarrow> 'k \<Rightarrow> 'v option \<Rightarrow> 'v option" where
  "batch_val [] k v = v"
| "batch_val (x # xs) k v = batch_val xs k (if op_key x = k then op_val x else v)"

lemma batch_val_append: "batch_val (xs @ ys) k v = batch_val ys k (batch_val xs k v)"
  by (induction xs arbitrary: v) auto

lemma batch_val_other: "k \<notin> op_key ` set xs \<Longrightarrow> batch_val xs k v = v"
  by (induction xs arbitrary: v) auto

lemma batch_val_last:
  "op_key x = k \<Longrightarrow> k \<notin> op_key ` set ys \<Longrightarrow> batch_val (xs @ x # ys) k v = op_val x"
  by (simp add: batch_val_append batch_val_other)

lemma batch_val_touched:
  "k \<in> op_key ` set xs \<Longrightarrow> batch_val xs k v = batch_val xs k w"
  by (induction xs arbitrary: v w) auto

section \<open>The sorted list of rows\<close>

fun store_put :: "'k::linorder \<Rightarrow> 'v \<Rightarrow> ('k \<times> 'v) list \<Rightarrow> ('k \<times> 'v) list" where
  "store_put k v [] = [(k, v)]"
| "store_put k v ((j, w) # rows) =
     (if k < j then (k, v) # (j, w) # rows
      else if k = j then (k, v) # rows
      else (j, w) # store_put k v rows)"

definition store_get :: "('k \<times> 'v) list \<Rightarrow> 'k \<Rightarrow> 'v option" where
  "store_get rows k = map_of rows k"

definition store_del :: "'k \<Rightarrow> ('k \<times> 'v) list \<Rightarrow> ('k \<times> 'v) list" where
  "store_del k rows = filter (\<lambda>(j, w). j \<noteq> k) rows"

text \<open>The rows an iterator positioned on \<open>k\<close> moves through: those with a greater key, in order.\<close>

definition store_after :: "'k::linorder \<Rightarrow> ('k \<times> 'v) list \<Rightarrow> ('k \<times> 'v) list" where
  "store_after k rows = filter (\<lambda>(j, w). k < j) rows"

definition store_ok :: "('k::linorder \<times> 'v) list \<Rightarrow> bool" where
  "store_ok rows \<longleftrightarrow> sorted_wrt (\<lambda>a b. fst a < fst b) rows"

fun store_apply :: "('k::linorder, 'v) db_op \<Rightarrow> ('k \<times> 'v) list \<Rightarrow> ('k \<times> 'v) list" where
  "store_apply (Put k v) rows = store_put k v rows"
| "store_apply (Del k) rows = store_del k rows"

definition store_batch :: "('k::linorder, 'v) db_op list \<Rightarrow> ('k \<times> 'v) list \<Rightarrow> ('k \<times> 'v) list" where
  "store_batch ops rows = fold store_apply ops rows"

lemma fst_set_store_put: "fst ` set (store_put k v rows) = insert k (fst ` set rows)"
  by (induction k v rows rule: store_put.induct) auto

lemma set_store_put: "set (store_put k v rows) \<subseteq> insert (k, v) (set rows)"
  by (induction k v rows rule: store_put.induct) auto

lemma store_ok_put: "store_ok rows \<Longrightarrow> store_ok (store_put k v rows)"
proof (induction k v rows rule: store_put.induct)
  case (1 k v)
  then show ?case by (simp add: store_ok_def)
next
  case (2 k v j w rows)
  have below: "\<forall>x\<in>set rows. j < fst x" using "2.prems" by (auto simp: store_ok_def)
  show ?case
  proof (cases "k < j \<or> k = j")
    case True
    with "2.prems" below show ?thesis by (fastforce simp: store_ok_def)
  next
    case False
    then have "j < k" by (meson linorder_less_linear)
    moreover have "store_ok (store_put k v rows)" using "2" False by (simp add: store_ok_def)
    ultimately show ?thesis using below set_store_put [of k v rows]
      by (auto simp: store_ok_def)
  qed
qed

lemma store_get_put: "store_get (store_put k v rows) j = (if j = k then Some v else store_get rows j)"
  by (induction k v rows rule: store_put.induct) (auto simp: store_get_def)

lemma store_get_del: "store_get (store_del k rows) j = (if j = k then None else store_get rows j)"
  by (induction rows) (auto simp: store_get_def store_del_def)

lemma store_ok_del: "store_ok rows \<Longrightarrow> store_ok (store_del k rows)"
  by (simp add: store_ok_def store_del_def sorted_wrt_filter)

lemma store_get_mem:
  assumes "store_ok rows"
  shows "store_get rows k = Some v \<longleftrightarrow> (k, v) \<in> set rows"
proof -
  have "distinct (map fst rows)"
    using assms by (induction rows) (auto simp: store_ok_def)
  then show ?thesis by (auto simp: store_get_def)
qed

lemma store_after_mem:
  "store_ok rows \<Longrightarrow> (j, w) \<in> set (store_after k rows) \<longleftrightarrow> store_get rows j = Some w \<and> k < j"
  by (auto simp: store_after_def store_get_mem)

lemma store_ok_after: "store_ok rows \<Longrightarrow> store_ok (store_after k rows)"
  by (simp add: store_ok_def store_after_def sorted_wrt_filter)

section \<open>The contract of an ordered store\<close>

locale kv_store =
  fixes get :: "'s \<Rightarrow> 'k::linorder \<Rightarrow> 'v option"
    and apply_op :: "('k, 'v) db_op \<Rightarrow> 's \<Rightarrow> 's"
    and after :: "'k \<Rightarrow> 's \<Rightarrow> ('k \<times> 'v) list"
    and ok :: "'s \<Rightarrow> bool"
  assumes get_apply: "ok s \<Longrightarrow> get (apply_op x s) k = (if op_key x = k then op_val x else get s k)"
    and ok_apply: "ok s \<Longrightarrow> ok (apply_op x s)"
    and after_mem: "ok s \<Longrightarrow> (j, w) \<in> set (after k s) \<longleftrightarrow> get s j = Some w \<and> k < j"
    and after_sorted: "ok s \<Longrightarrow> sorted_wrt (\<lambda>a b. fst a < fst b) (after k s)"
begin

lemma ok_fold: "ok s \<Longrightarrow> ok (fold apply_op xs s)"
  by (induction xs arbitrary: s) (simp_all add: ok_apply)

text \<open>A batch leaves every key with the value its last operation wrote.\<close>

lemma get_fold: "ok s \<Longrightarrow> get (fold apply_op xs s) k = batch_val xs k (get s k)"
  by (induction xs arbitrary: s) (simp_all add: get_apply ok_apply)

lemma after_distinct:
  assumes "ok s"
  shows "distinct (map fst (after k s))"
proof -
  have "sorted_wrt (\<lambda>a b. fst a < fst b) xs \<Longrightarrow> distinct (map fst xs)" for xs :: "('k \<times> 'v) list"
    by (induction xs) auto
  from this [OF after_sorted [OF assms]] show ?thesis .
qed

lemma after_keys: "ok s \<Longrightarrow> fst ` set (after k s) = {j. k < j \<and> get s j \<noteq> None}"
  by (auto simp: image_iff Bex_def after_mem)

end

interpretation kv: kv_store store_get store_apply store_after
    "store_ok :: ('k::linorder \<times> 'v) list \<Rightarrow> bool"
proof
  fix s :: "('k \<times> 'v) list" and x :: "('k, 'v) db_op" and j k :: 'k and w :: 'v
  assume ok: "store_ok s"
  show "store_get (store_apply x s) k = (if op_key x = k then op_val x else store_get s k)"
    by (cases x) (auto simp: store_get_put store_get_del)
  show "store_ok (store_apply x s)"
    using ok by (cases x) (auto simp: store_ok_put store_ok_del)
  show "(j, w) \<in> set (store_after k s) \<longleftrightarrow> store_get s j = Some w \<and> k < j"
    using ok by (rule store_after_mem)
  show "sorted_wrt (\<lambda>a b. fst a < fst b) (store_after k s)"
    using store_ok_after [OF ok] by (simp add: store_ok_def)
qed

lemma store_ok_batch [simp]: "store_ok s \<Longrightarrow> store_ok (store_batch xs s)"
  by (simp add: store_batch_def kv.ok_fold)

lemma store_get_batch [store_simps]:
  "store_ok s \<Longrightarrow> store_get (store_batch xs s) k = batch_val xs k (store_get s k)"
  by (simp add: store_batch_def kv.get_fold)

end
