(* ===== verification/Database.thy ===== *)
theory Database
  imports Kv_Store
begin

text \<open>
  The database wrapper \<^verbatim>\<open>cs_Database\<close> (\<^verbatim>\<open>mc_Database\<close>) of \<^verbatim>\<open>src/src/utils/dbwrapper.cpp\<close> on the
  leveldb branch, for any keys and values, and those of the permission database
  (\<^verbatim>\<open>src/src/permissions/permission.h\<close>). Transactional writes go to the write batch and are seen
  by reads only after \<open>Commit\<close>. The errors leveldb can return are flags of the state, one per kind
  of call: a flag that is set makes every such call fail. Read-buffer growth, the iterator object
  and the write counters of the log message are left out.
\<close>

section \<open>The wrapper\<close>

record ('k, 'v) mc_Database =
  db_Open :: bool
  db_Store :: "('k \<times> 'v) list"
  db_Batch :: "('k, 'v) db_op list"
  db_GetErr :: bool
  db_PutErr :: bool
  db_CommitErr :: bool

definition db_Write :: "('k::linorder, 'v) mc_Database \<Rightarrow> 'k \<Rightarrow> 'v \<Rightarrow> bool \<Rightarrow> int \<times> ('k, 'v) mc_Database" where
  "db_Write db k v transactional =
     (if \<not> db_Open db then (MC_ERR_DBOPEN_ERROR, db)
      else if transactional then (MC_ERR_NOERROR, db\<lparr>db_Batch := db_Batch db @ [Put k v]\<rparr>)
      else if db_PutErr db then (MC_ERR_INTERNAL_ERROR, db)
      else (MC_ERR_NOERROR, db\<lparr>db_Store := store_put k v (db_Store db)\<rparr>))"

definition db_Delete :: "('k::linorder, 'v) mc_Database \<Rightarrow> 'k \<Rightarrow> bool \<Rightarrow> int \<times> ('k, 'v) mc_Database" where
  "db_Delete db k transactional =
     (if \<not> db_Open db then (MC_ERR_INTERNAL_ERROR, db)
      else if transactional then (MC_ERR_NOERROR, db\<lparr>db_Batch := db_Batch db @ [Del k]\<rparr>)
      else if db_PutErr db then (MC_ERR_INTERNAL_ERROR, db)
      else (MC_ERR_NOERROR, db\<lparr>db_Store := store_del k (db_Store db)\<rparr>))"

text \<open>A failed batch write still clears the batch.\<close>

definition db_Commit :: "('k::linorder, 'v) mc_Database \<Rightarrow> bool \<Rightarrow> int \<times> ('k, 'v) mc_Database" where
  "db_Commit db transactional =
     (if \<not> db_Open db then (MC_ERR_DBOPEN_ERROR, db)
      else if \<not> transactional then (MC_ERR_NOERROR, db)
      else if db_CommitErr db then (MC_ERR_INTERNAL_ERROR, db\<lparr>db_Batch := []\<rparr>)
      else (MC_ERR_NOERROR,
            db\<lparr>db_Store := store_batch (db_Batch db) (db_Store db), db_Batch := []\<rparr>))"

text \<open>\<open>Read\<close> without and with \<^verbatim>\<open>MC_OPT_DB_DATABASE_SEEK_ON_READ\<close>: the value, if any, and the error.\<close>

definition db_Read :: "('k::linorder, 'v) mc_Database \<Rightarrow> 'k \<Rightarrow> 'v option \<times> int" where
  "db_Read db k =
     (if \<not> db_Open db then (None, MC_ERR_DBOPEN_ERROR)
      else if db_GetErr db then (None, MC_ERR_INTERNAL_ERROR)
      else (store_get (db_Store db) k, MC_ERR_NOERROR))"

definition db_Seek :: "('k::linorder, 'v) mc_Database \<Rightarrow> 'k \<Rightarrow> 'v option \<times> int" where
  "db_Seek db k =
     (if \<not> db_Open db then (None, MC_ERR_DBOPEN_ERROR)
      else (store_get (db_Store db) k, MC_ERR_NOERROR))"

text \<open>The rows successive \<open>MoveNext\<close> calls return after a seek that found \<open>k\<close>.\<close>

definition db_MoveNext_rows :: "('k::linorder, 'v) mc_Database \<Rightarrow> 'k \<Rightarrow> ('k \<times> 'v) list" where
  "db_MoveNext_rows db k = store_after k (db_Store db)"

section \<open>Facts about the wrapper\<close>

text \<open>A database in which no call fails.\<close>

definition db_healthy :: "('k, 'v) mc_Database \<Rightarrow> bool" where
  "db_healthy db \<longleftrightarrow> db_Open db \<and> \<not> db_GetErr db \<and> \<not> db_PutErr db \<and> \<not> db_CommitErr db"

definition db_get :: "('k, 'v) mc_Database \<Rightarrow> 'k \<Rightarrow> 'v option" where
  "db_get db k = store_get (db_Store db) k"

lemma db_Read_healthy: "db_healthy db \<Longrightarrow> db_Read db k = (db_get db k, MC_ERR_NOERROR)"
  by (simp add: db_healthy_def db_Read_def db_get_def)

lemma db_Write_batch:
  "db_healthy db \<Longrightarrow> db_Write db k v True = (MC_ERR_NOERROR, db\<lparr>db_Batch := db_Batch db @ [Put k v]\<rparr>)"
  by (simp add: db_healthy_def db_Write_def)

lemma db_Delete_batch:
  "db_healthy db \<Longrightarrow> db_Delete db k True = (MC_ERR_NOERROR, db\<lparr>db_Batch := db_Batch db @ [Del k]\<rparr>)"
  by (simp add: db_healthy_def db_Delete_def)

lemma db_Commit_batch:
  "db_healthy db \<Longrightarrow> db_Commit db True =
     (MC_ERR_NOERROR, db\<lparr>db_Store := store_batch (db_Batch db) (db_Store db), db_Batch := []\<rparr>)"
  by (simp add: db_healthy_def db_Commit_def)

lemma db_healthy_update [simp]:
  "db_healthy (db\<lparr>db_Store := st\<rparr>) = db_healthy db"
  "db_healthy (db\<lparr>db_Batch := b\<rparr>) = db_healthy db"
  by (simp_all add: db_healthy_def)

section \<open>Keys\<close>

type_synonym entity = "256 word"
type_synonym address = "160 word"

text \<open>
  A key is 56 bytes: the 32-byte entity, the 20-byte address and the 4-byte type. An entity or an
  address is its bytes read in order, the first byte most significant, so that \<^verbatim>\<open>memcmp\<close> on it is
  the order of the words; the type is a little-endian \<^verbatim>\<open>uint32_t\<close>, which \<^verbatim>\<open>memcmp\<close> compares from
  its low byte.
\<close>

datatype db_key = DbKey (dk_Entity: entity) (dk_Address: address) (dk_Type: u32)

definition key_rank :: "db_key \<Rightarrow> nat \<times> nat \<times> nat" where
  "key_rank k = (unat (dk_Entity k), unat (dk_Address k), unat (bswap32 (dk_Type k)))"

lemma key_rank_inj [simp]: "key_rank a = key_rank b \<longleftrightarrow> a = b"
  by (cases a; cases b) (auto simp: key_rank_def word_unat_eq_iff [symmetric])

fun rank_less :: "nat \<times> nat \<times> nat \<Rightarrow> nat \<times> nat \<times> nat \<Rightarrow> bool" where
  "rank_less (a, b, c) (a', b', c') \<longleftrightarrow> a < a' \<or> a = a' \<and> (b < b' \<or> b = b' \<and> c < c')"

lemma rank_less_irrefl: "\<not> rank_less r r"
  by (cases r) auto

lemma rank_less_trans: "rank_less r s \<Longrightarrow> rank_less s t \<Longrightarrow> rank_less r t"
  by (cases r; cases s; cases t) auto

lemma rank_less_total: "rank_less r s \<or> r = s \<or> rank_less s r"
  by (cases r; cases s) auto

instantiation db_key :: linorder
begin

definition less_db_key :: "db_key \<Rightarrow> db_key \<Rightarrow> bool" where
  "less_db_key a b \<longleftrightarrow> rank_less (key_rank a) (key_rank b)"

definition less_eq_db_key :: "db_key \<Rightarrow> db_key \<Rightarrow> bool" where
  "less_eq_db_key a b \<longleftrightarrow> a = b \<or> rank_less (key_rank a) (key_rank b)"

instance
proof
  fix x y z :: db_key
  show "x < y \<longleftrightarrow> x \<le> y \<and> \<not> y \<le> x"
    by (auto simp: less_db_key_def less_eq_db_key_def rank_less_irrefl dest: rank_less_trans)
  show "x \<le> x" by (simp add: less_eq_db_key_def)
  show "x \<le> y \<Longrightarrow> y \<le> z \<Longrightarrow> x \<le> z"
    by (auto simp: less_eq_db_key_def dest: rank_less_trans)
  show "x \<le> y \<Longrightarrow> y \<le> x \<Longrightarrow> x = y"
    by (auto simp: less_eq_db_key_def rank_less_irrefl dest: rank_less_trans)
  show "x \<le> y \<or> y \<le> x"
    using rank_less_total [of "key_rank x" "key_rank y"] by (auto simp: less_eq_db_key_def)
qed

end

section \<open>Values\<close>

text \<open>
  The 24-byte value of a row is read through three structs: a permission row, the miner of a block
  (\<^verbatim>\<open>mc_BlockMinerDBRow\<close>) and up to six transaction offsets with admin and miner grants
  (\<^verbatim>\<open>mc_AdminMinerGrantDBRow\<close>).
\<close>

record perm_val =
  v_BlockFrom :: u32
  v_BlockTo :: u32
  v_LedgerRow :: nat
  v_Flags :: u32

datatype db_val = PermVal perm_val | MinerVal address u32 | GrantsVal "u32 list"

definition zero_val :: perm_val where
  "zero_val = \<lparr>v_BlockFrom = 0, v_BlockTo = 0, v_LedgerRow = 0, v_Flags = 0\<rparr>"

text \<open>
  The struct a reader uses is fixed by the key's type and entity, so a permission reader meets a
  \<open>PermVal\<close> (\<open>db_typed\<close> below); the other branches are never taken.
\<close>

primrec perm_view :: "db_val \<Rightarrow> perm_val" where
  "perm_view (PermVal v) = v"
| "perm_view (MinerVal a n) = zero_val"
| "perm_view (GrantsVal xs) = zero_val"

text \<open>The database of permissions.\<close>

type_synonym perm_db = "(db_key, db_val) mc_Database"

end
