(* ===== verification/Features.thy ===== *)
theory Features
  imports Amber_Prelude
begin

text \<open>
  The network parameters the permission and transaction code reads, and the protocol feature
  switches \<^verbatim>\<open>mc_Features\<close> of \<^verbatim>\<open>src/src/chainparams/params.cpp\<close>. The parameter file itself is
  not modelled: \<open>np_Int64\<close> is \<^verbatim>\<open>GetInt64Param\<close> as a function of the parameter's name, and the
  \<open>MCP_ANYONE_CAN_...\<close> globals are booleans. The switches return 0 or 1 in the code.
\<close>

section \<open>Network parameters\<close>

record net_params =
  np_IsProtocolMultichain :: bool
  np_ProtocolVersion :: int
  np_Int64 :: "string \<Rightarrow> int"
  np_ANYONE_CAN_ADMIN :: bool
  np_ANYONE_CAN_MINE :: bool
  np_ANYONE_CAN_CONNECT :: bool
  np_ANYONE_CAN_SEND :: bool
  np_ANYONE_CAN_RECEIVE :: bool
  np_ANYONE_CAN_CREATE :: bool
  np_ANYONE_CAN_ACTIVATE :: bool
  np_ANYONE_CAN_RECEIVE_EMPTY :: bool

abbreviation (input) MC_PRM_DECIMAL_GRANULARITY :: int where
  "MC_PRM_DECIMAL_GRANULARITY \<equiv> 1000000"

section \<open>Feature switches\<close>

definition MinProtocolVersion :: int where
  "MinProtocolVersion = 10004"

definition LastVersionNotSendingProtocolVersionInHandShake :: int where
  "LastVersionNotSendingProtocolVersionInHandShake = 10002"

definition ActivatePermission :: "net_params \<Rightarrow> bool" where
  "ActivatePermission np =
     (let protocol = np_ProtocolVersion np
      in if protocol \<noteq> 0 then (if 10003 \<le> protocol then True else False) else False)"

definition VerifySizeOfOpDropElements :: "net_params \<Rightarrow> bool" where
  "VerifySizeOfOpDropElements np =
     (if \<not> np_IsProtocolMultichain np then True
      else let protocol = np_ProtocolVersion np
           in if protocol \<noteq> 0 then (if 10003 \<le> protocol then True else False) else False)"

definition PerEntityPermissions :: "net_params \<Rightarrow> bool" where
  "PerEntityPermissions np =
     (if \<not> np_IsProtocolMultichain np then False
      else let protocol = np_ProtocolVersion np
           in if protocol \<noteq> 0 then (if 10004 \<le> protocol then True else False) else False)"

definition FollowOnIssues :: "net_params \<Rightarrow> bool" where
  "FollowOnIssues np =
     (if \<not> np_IsProtocolMultichain np then False
      else let protocol = np_ProtocolVersion np
           in if protocol \<noteq> 0 then (if 10004 \<le> protocol then True else False) else False)"

definition SpecialParamsInDetailsScript :: "net_params \<Rightarrow> bool" where
  "SpecialParamsInDetailsScript np =
     (let protocol = np_ProtocolVersion np
      in if protocol \<noteq> 0 then (if 10004 \<le> protocol then True else False) else False)"

definition FixedGrantsInTheSameTx :: "net_params \<Rightarrow> bool" where
  "FixedGrantsInTheSameTx np =
     (let protocol = np_ProtocolVersion np
      in if protocol \<noteq> 0 then (if 10004 \<le> protocol then True else False) else False)"

definition UnconfirmedMinersCannotMine :: "net_params \<Rightarrow> bool" where
  "UnconfirmedMinersCannotMine np =
     (let protocol = np_ProtocolVersion np
      in if protocol \<noteq> 0 then (if 10004 \<le> protocol then True else False) else False)"

definition Streams :: "net_params \<Rightarrow> bool" where
  "Streams np =
     (if \<not> np_IsProtocolMultichain np then False
      else let protocol = np_ProtocolVersion np
           in if protocol \<noteq> 0 then (if 10006 \<le> protocol then True else False) else False)"

definition OpDropDetailsScripts :: "net_params \<Rightarrow> bool" where
  "OpDropDetailsScripts np =
     (if \<not> np_IsProtocolMultichain np then False
      else let protocol = np_ProtocolVersion np
           in if protocol \<noteq> 0 then (if 10007 \<le> protocol then True else False) else False)"

definition ShortTxIDInTx :: "net_params \<Rightarrow> bool" where
  "ShortTxIDInTx np =
     (if \<not> np_IsProtocolMultichain np then False
      else let protocol = np_ProtocolVersion np
           in if protocol \<noteq> 0 then (if 10007 \<le> protocol then True else False) else False)"

definition CachedInputScript :: "net_params \<Rightarrow> bool" where
  "CachedInputScript np =
     (if \<not> np_IsProtocolMultichain np then False
      else let protocol = np_ProtocolVersion np
           in if protocol \<noteq> 0 then (if 10007 \<le> protocol then True else False) else False)"

definition FixedIn10007 :: "net_params \<Rightarrow> bool" where
  "FixedIn10007 np =
     (if \<not> np_IsProtocolMultichain np then False
      else let protocol = np_ProtocolVersion np
           in if protocol \<noteq> 0 then (if 10007 \<le> protocol then True else False) else False)"

definition Upgrades :: "net_params \<Rightarrow> bool" where
  "Upgrades np =
     (if \<not> np_IsProtocolMultichain np then False
      else let protocol = np_ProtocolVersion np
           in if protocol \<noteq> 0 then (if 10008 \<le> protocol then True else False) else False)"

definition FixedIn10008 :: "net_params \<Rightarrow> bool" where
  "FixedIn10008 np =
     (if \<not> np_IsProtocolMultichain np then False
      else let protocol = np_ProtocolVersion np
           in if protocol \<noteq> 0 then (if 10008 \<le> protocol then True else False) else False)"

definition FixedDestinationExtraction :: "net_params \<Rightarrow> bool" where
  "FixedDestinationExtraction np =
     (if \<not> np_IsProtocolMultichain np then True
      else let protocol = np_ProtocolVersion np
           in if protocol \<noteq> 0 then (if 10009 \<le> protocol then True else False) else False)"

definition FixedIn1000920001 :: "net_params \<Rightarrow> bool" where
  "FixedIn1000920001 np =
     (if \<not> np_IsProtocolMultichain np then True
      else let protocol = np_ProtocolVersion np
           in if protocol \<noteq> 0 then (if 10009 \<le> protocol then True else False) else False)"

definition AnyoneCanReceiveEmpty :: "net_params \<Rightarrow> bool" where
  "AnyoneCanReceiveEmpty np =
     (if \<not> np_IsProtocolMultichain np then False
      else let protocol = np_ProtocolVersion np
           in if protocol \<noteq> 0
              then (if 10007 \<le> protocol then (if np_ANYONE_CAN_RECEIVE_EMPTY np then True else False)
                    else False)
              else False)"

definition FixedIn1001020003 :: "net_params \<Rightarrow> bool" where
  "FixedIn1001020003 np =
     (if \<not> np_IsProtocolMultichain np then True
      else let protocol = np_ProtocolVersion np
           in if protocol \<noteq> 0
              then (if protocol < 20000 then (if 10010 \<le> protocol then True else False)
                    else (if 20003 \<le> protocol then True else False))
              else False)"

section \<open>How the switches are ordered\<close>

lemmas feature_defs =
  ActivatePermission_def VerifySizeOfOpDropElements_def PerEntityPermissions_def
  FollowOnIssues_def SpecialParamsInDetailsScript_def FixedGrantsInTheSameTx_def
  UnconfirmedMinersCannotMine_def Streams_def OpDropDetailsScripts_def ShortTxIDInTx_def
  CachedInputScript_def FixedIn10007_def Upgrades_def FixedIn10008_def
  FixedDestinationExtraction_def FixedIn1000920001_def AnyoneCanReceiveEmpty_def
  FixedIn1001020003_def

lemma Upgrades_Streams: "Upgrades np \<Longrightarrow> Streams np"
  by (simp add: feature_defs Let_def split: if_splits)

end
