(* ===== verification/Perm_State.thy ===== *)
theory Perm_State
  imports Buffer Database Features
begin

text \<open>
  The data of the permission component, \<^verbatim>\<open>src/src/permissions/permission.h\<close> and \<^verbatim>\<open>.cpp\<close>: the
  permission type constants, the ledger row and the file that holds the rows, the state
  \<^verbatim>\<open>mc_Permissions\<close>, and the central read \<open>GetPermission\<close>, which combines the database, the
  ledger (while a fork is being verified) and the memory pool. Row numbers are natural numbers (64-bit
  counters of 128-byte rows never wrap); block heights and counts are C ints; the 32-bit fields are
  words. Locks and log messages are left out, and so is the ledger's file descriptor: what the code
  observes of opening the file is whether it succeeds, \<open>lg_CanOpen\<close>.
\<close>

section \<open>Constants\<close>

abbreviation (input) MC_PTP_CONNECT :: u32 where "MC_PTP_CONNECT \<equiv> 0x00000001"
abbreviation (input) MC_PTP_SEND :: u32 where "MC_PTP_SEND \<equiv> 0x00000002"
abbreviation (input) MC_PTP_RECEIVE :: u32 where "MC_PTP_RECEIVE \<equiv> 0x00000004"
abbreviation (input) MC_PTP_WRITE :: u32 where "MC_PTP_WRITE \<equiv> 0x00000008"
abbreviation (input) MC_PTP_ISSUE :: u32 where "MC_PTP_ISSUE \<equiv> 0x00000010"
abbreviation (input) MC_PTP_CREATE :: u32 where "MC_PTP_CREATE \<equiv> 0x00000020"
abbreviation (input) MC_PTP_MINE :: u32 where "MC_PTP_MINE \<equiv> 0x00000100"
abbreviation (input) MC_PTP_ADMIN :: u32 where "MC_PTP_ADMIN \<equiv> 0x00001000"
abbreviation (input) MC_PTP_ACTIVATE :: u32 where "MC_PTP_ACTIVATE \<equiv> 0x00002000"
abbreviation (input) MC_PTP_UPGRADE :: u32 where "MC_PTP_UPGRADE \<equiv> 0x00010000"
abbreviation (input) MC_PTP_BLOCK_MINER :: u32 where "MC_PTP_BLOCK_MINER \<equiv> 0x01000000"
abbreviation (input) MC_PTP_BLOCK_INDEX :: u32 where "MC_PTP_BLOCK_INDEX \<equiv> 0x02000000"
abbreviation (input) MC_PTP_GLOBAL_ALL :: u32 where "MC_PTP_GLOBAL_ALL \<equiv> 0x00003137"

abbreviation (input) MC_PFL_ENTITY_GENESIS :: u32 where "MC_PFL_ENTITY_GENESIS \<equiv> 0x00000002"
abbreviation (input) MC_PFL_HAVE_PENDING :: u32 where "MC_PFL_HAVE_PENDING \<equiv> 0x01000000"

abbreviation (input) MC_PFB_NONE :: u32 where "MC_PFB_NONE \<equiv> 0x00000000"
abbreviation (input) MC_PFB_MINED_BEFORE :: u32 where "MC_PFB_MINED_BEFORE \<equiv> 0x00000001"
abbreviation (input) MC_PFB_GOVERNANCE_CHANGE :: u32 where "MC_PFB_GOVERNANCE_CHANGE \<equiv> 0x00000002"

section \<open>Entities\<close>

text \<open>
  An entity argument is a pointer that may be NULL. The special entities have their code in the
  first byte, the most significant one here.
\<close>

type_synonym lp_entity = "entity option"

definition null_entity :: entity where "null_entity = 0"
definition upgrade_entity :: entity where "upgrade_entity = push_bit 248 1"
definition adminminerlist_entity :: entity where "adminminerlist_entity = push_bit 248 2"

definition mc_IsNullEntity :: "lp_entity \<Rightarrow> bool" where
  "mc_IsNullEntity lp = (case lp of None \<Rightarrow> True | Some e \<Rightarrow> e = null_entity)"

definition mc_IsUpgradeEntity :: "lp_entity \<Rightarrow> bool" where
  "mc_IsUpgradeEntity lp = (case lp of None \<Rightarrow> False | Some e \<Rightarrow> e = upgrade_entity)"

lemma special_entities_distinct:
  "upgrade_entity \<noteq> null_entity" "adminminerlist_entity \<noteq> null_entity"
  "adminminerlist_entity \<noteq> upgrade_entity"
  by (simp_all add: upgrade_entity_def null_entity_def adminminerlist_entity_def)

text \<open>\<open>InBlockRange\<close>: is a range of block heights in force for the block after \<open>block\<close>?\<close>

definition InBlockRange :: "u32 \<Rightarrow> u32 \<Rightarrow> u32 \<Rightarrow> bool" where
  "InBlockRange from to block = (if from \<le> block + 1 then (if block + 1 < to then True else False) else False)"

section \<open>Ledger rows\<close>

record ledger_row =
  l_Entity :: entity
  l_Address :: address
  l_Type :: u32
  l_PrevRow :: nat
  l_BlockFrom :: u32
  l_BlockTo :: u32
  l_Consensus :: u32
  l_Flags :: u32
  l_Admin :: address
  l_GrantFrom :: u32
  l_GrantTo :: u32
  l_Timestamp :: u32
  l_Offset :: u32
  l_BlockReceived :: u32
  l_ThisRow :: nat

definition zero_row :: ledger_row where
  "zero_row = \<lparr>l_Entity = 0, l_Address = 0, l_Type = 0, l_PrevRow = 0, l_BlockFrom = 0, l_BlockTo = 0,
     l_Consensus = 0, l_Flags = 0, l_Admin = 0, l_GrantFrom = 0, l_GrantTo = 0, l_Timestamp = 0,
     l_Offset = 0, l_BlockReceived = 0, l_ThisRow = 0\<rparr>"

definition row_key :: "ledger_row \<Rightarrow> db_key" where
  "row_key r = DbKey (l_Entity r) (l_Address r) (l_Type r)"

text \<open>The memory pool's key has the previous row number too.\<close>

definition mem_key :: "ledger_row \<Rightarrow> db_key \<times> nat" where
  "mem_key r = (row_key r, l_PrevRow r)"

subsection \<open>The block row over the same 128 bytes\<close>

text \<open>
  \<^verbatim>\<open>mc_BlockLedgerRow\<close> overlays the ledger row: the admin and miner counts lie over \<open>Consensus\<close>
  and \<open>Flags\<close>, the block flags over \<open>Offset\<close>, and the 32-byte commit hash over \<open>Admin\<close>,
  \<open>GrantFrom\<close>, \<open>GrantTo\<close> and \<open>Timestamp\<close>, whose last three are little-endian.
\<close>

type_synonym hash256 = "256 word"

definition bl_AdminCount :: "ledger_row \<Rightarrow> u32" where "bl_AdminCount r = l_Consensus r"
definition bl_MinerCount :: "ledger_row \<Rightarrow> u32" where "bl_MinerCount r = l_Flags r"
definition bl_BlockFlags :: "ledger_row \<Rightarrow> u32" where "bl_BlockFlags r = l_Offset r"

definition bl_CommitHash :: "ledger_row \<Rightarrow> hash256" where
  "bl_CommitHash r = push_bit 96 (ucast (l_Admin r)) OR push_bit 64 (ucast (bswap32 (l_GrantFrom r)))
     OR push_bit 32 (ucast (bswap32 (l_GrantTo r))) OR ucast (bswap32 (l_Timestamp r))"

definition set_CommitHash :: "hash256 \<Rightarrow> ledger_row \<Rightarrow> ledger_row" where
  "set_CommitHash h r = r\<lparr>l_Admin := ucast (drop_bit 96 h), l_GrantFrom := bswap32 (ucast (drop_bit 64 h)),
     l_GrantTo := bswap32 (ucast (drop_bit 32 h)), l_Timestamp := bswap32 (ucast h)\<rparr>"

lemma bl_CommitHash_set [simp]: "bl_CommitHash (set_CommitHash h r) = h"
proof (rule bit_word_eqI)
  fix n :: nat
  assume n: "n < LENGTH(256)"
  then consider "n < 32" | "32 \<le> n" "n < 64" | "64 \<le> n" "n < 96" | "96 \<le> n" by linarith
  then show "bit (bl_CommitHash (set_CommitHash h r)) n = bit h n"
    using n by cases (auto simp: bl_CommitHash_def set_CommitHash_def bit_simps)
qed

section \<open>The ledger file\<close>

record mc_PermissionLedger =
  lg_CanOpen :: bool
  lg_Rows :: "ledger_row list"
  lg_Pos :: nat

text \<open>
  \<open>GetRow\<close> reads into the caller's row: the row is left alone when the file is not open, and
  zeroed when the read fails past the end. Only a write that follows a write depends on the file
  position, and no read stands between such writes, so reads leave \<open>lg_Pos\<close> alone.
\<close>

definition ledger_GetRow :: "mc_PermissionLedger \<Rightarrow> nat \<Rightarrow> ledger_row \<Rightarrow> int \<times> ledger_row" where
  "ledger_GetRow lg i old =
     (if \<not> lg_CanOpen lg then (MC_ERR_INTERNAL_ERROR, old)
      else if i < length (lg_Rows lg) then (MC_ERR_NOERROR, lg_Rows lg ! i)
      else (MC_ERR_FILE_READ_ERROR, zero_row))"

text \<open>A write past the end leaves a hole of zeros.\<close>

definition write_at :: "ledger_row list \<Rightarrow> nat \<Rightarrow> ledger_row \<Rightarrow> ledger_row list" where
  "write_at rs i r =
     (if i < length rs then rs[i := r] else rs @ replicate (i - length rs) zero_row @ [r])"

definition ledger_WriteRow :: "mc_PermissionLedger \<Rightarrow> ledger_row \<Rightarrow> int \<times> mc_PermissionLedger" where
  "ledger_WriteRow lg r =
     (if \<not> lg_CanOpen lg then (MC_ERR_INTERNAL_ERROR, lg)
      else (MC_ERR_NOERROR,
            lg\<lparr>lg_Rows := write_at (lg_Rows lg) (lg_Pos lg) r, lg_Pos := Suc (lg_Pos lg)\<rparr>))"

definition ledger_SetRow :: "mc_PermissionLedger \<Rightarrow> nat \<Rightarrow> ledger_row \<Rightarrow> int \<times> mc_PermissionLedger" where
  "ledger_SetRow lg i r =
     (if \<not> lg_CanOpen lg then (MC_ERR_INTERNAL_ERROR, lg) else ledger_WriteRow (lg\<lparr>lg_Pos := i\<rparr>) r)"

definition ledger_GetSize :: "mc_PermissionLedger \<Rightarrow> nat" where
  "ledger_GetSize lg = (if lg_CanOpen lg then length (lg_Rows lg) else 0)"

section \<open>The state of the component\<close>

record mempool_permission =
  mp_Entity :: entity
  mp_Address :: address
  mp_Type :: u32

type_synonym mem_pool = "(db_key \<times> nat, ledger_row) mc_Buffer"

record mc_Permissions =
  p_Database :: perm_db
  p_Ledger :: mc_PermissionLedger
  p_MemPool :: mem_pool
  p_Block :: int
  p_Row :: nat
  p_AdminCount :: int
  p_MinerCount :: int
  p_CheckPointRow :: nat
  p_CheckPointAdminCount :: int
  p_CheckPointMinerCount :: int
  p_CheckPointMemPoolSize :: nat
  p_CopiedBlock :: int
  p_ForkBlock :: int
  p_CopiedRow :: nat
  p_CopiedAdminCount :: int
  p_CopiedMinerCount :: int
  p_ClearedAdminCount :: int
  p_ClearedMinerCount :: int
  p_ClearedMinerCountForMinerVerification :: int
  p_TmpSavedAdminCount :: int
  p_TmpSavedMinerCount :: int
  p_CopiedMemPool :: mem_pool
  p_CheckForMempoolFlag :: bool
  p_MempoolPermissions :: "(mempool_permission, mempool_permission) mc_Buffer"
  p_MempoolPermissionsToReplay :: "(mempool_permission, mempool_permission) mc_Buffer"

text \<open>The height the next block has, as the \<^verbatim>\<open>uint32_t\<close> the code compares with.\<close>

definition next_block :: "mc_Permissions \<Rightarrow> u32" where
  "next_block s = word_of_int (p_Block s + 1)"

definition in_force :: "mc_Permissions \<Rightarrow> ledger_row \<Rightarrow> bool" where
  "in_force s r \<longleftrightarrow> l_BlockFrom r \<le> next_block s \<and> next_block s < l_BlockTo r"

section \<open>GetPermission\<close>

text \<open>
  Following \<open>PrevRow\<close> back through the ledger while a condition holds. The fuel is the number of
  ledger rows: a walk that has not stopped by then has met a row twice and never stops.
\<close>

fun walk_back ::
    "nat \<Rightarrow> mc_PermissionLedger \<Rightarrow> (ledger_row \<Rightarrow> bool) \<Rightarrow> ledger_row \<Rightarrow> ledger_row" where
  "walk_back 0 lg go r = r"
| "walk_back (Suc n) lg go r =
     (if 0 < l_PrevRow r \<and> go r then walk_back n lg go (snd (ledger_GetRow lg (l_PrevRow r) r))
      else r)"

definition ledger_walk :: "mc_PermissionLedger \<Rightarrow> (ledger_row \<Rightarrow> bool) \<Rightarrow> ledger_row \<Rightarrow> ledger_row" where
  "ledger_walk lg go r = walk_back (Suc (length (lg_Rows lg))) lg go r"

text \<open>
  Following the rows of one key forward through the memory pool: the pool is asked for the row whose
  previous row is the current one, until there is none.
\<close>

fun walk_mempool :: "nat \<Rightarrow> mem_pool \<Rightarrow> db_key \<Rightarrow> nat \<Rightarrow> ledger_row \<Rightarrow> ledger_row" where
  "walk_mempool 0 mp k prev row = row"
| "walk_mempool (Suc n) mp k prev row =
     (case buf_Seek mem_key mp (k, prev) of
        None \<Rightarrow> row
      | Some i \<Rightarrow> (let row' = buf_GetRow mp i in walk_mempool n mp k (l_ThisRow row') row'))"

definition fork_type :: "u32 \<Rightarrow> bool" where
  "fork_type t \<longleftrightarrow> t = MC_PTP_ADMIN \<or> t = MC_PTP_MINE \<or> t = MC_PTP_BLOCK_MINER"

text \<open>
  The database stage. \<open>None\<close> is an early \<open>return 0\<close>; otherwise the pair is the caller's row and the
  local row \<^verbatim>\<open>pldRow\<close>, whose \<open>PrevRow\<close> starts the search of the memory pool.
\<close>

definition GetPermission_stored ::
    "mc_Permissions \<Rightarrow> entity \<Rightarrow> address \<Rightarrow> u32 \<Rightarrow> ledger_row \<Rightarrow> (ledger_row \<times> ledger_row) option" where
  "GetPermission_stored s e a t base =
     (if \<not> db_Open (p_Database s) then None
      else case db_Read (p_Database s) (DbKey e a t) of (found, err) \<Rightarrow>
        if err \<noteq> MC_ERR_NOERROR then None
        else case found of
          None \<Rightarrow> Some (base, base)
        | Some val \<Rightarrow>
            (let v = perm_view val; lg = p_Ledger s;
                 pld = base\<lparr>l_BlockFrom := v_BlockFrom v, l_BlockTo := v_BlockTo v,
                            l_Flags := v_Flags v, l_ThisRow := v_LedgerRow v\<rparr>;
                 upgrade = mc_IsUpgradeEntity (Some e);
                 forked = 0 < p_CopiedRow s \<and> fork_type t
             in if (upgrade \<or> forked) \<and> \<not> lg_CanOpen lg then None
                else
                  (let pld1 = (if upgrade then snd (ledger_GetRow lg (l_ThisRow pld) pld) else pld);
                       fork = word_of_int (p_ForkBlock s);
                       pld2 = (if forked
                               then ledger_walk lg (\<lambda>r. fork < l_BlockReceived r)
                                      (snd (ledger_GetRow lg (v_LedgerRow v) pld1))
                               else pld1)
                   in if forked \<and> fork < l_BlockReceived pld2 then Some (base, pld2)
                      else Some (base\<lparr>l_BlockFrom := l_BlockFrom pld2, l_BlockTo := l_BlockTo pld2,
                                      l_ThisRow := l_ThisRow pld2, l_Flags := l_Flags pld2,
                                      l_BlockReceived := l_BlockReceived pld2\<rparr>,
                                 pld2\<lparr>l_PrevRow := l_ThisRow pld2\<rparr>))))"

definition base_row :: "entity \<Rightarrow> address \<Rightarrow> u32 \<Rightarrow> ledger_row" where
  "base_row e a t = zero_row\<lparr>l_Entity := e, l_Address := a, l_Type := t\<rparr>"

definition GetPermissionRow ::
    "mc_Permissions \<Rightarrow> entity \<Rightarrow> address \<Rightarrow> u32 \<Rightarrow> bool \<Rightarrow> u32 \<times> ledger_row" where
  "GetPermissionRow s e a t checkmempool =
     (case GetPermission_stored s e a t (base_row e a t) of
        None \<Rightarrow> (0, base_row e a t)
      | Some (row, pld) \<Rightarrow>
          (let row' = (if checkmempool
                       then walk_mempool (Suc (m_Count (p_MemPool s))) (p_MemPool s)
                              (row_key pld) (l_PrevRow pld) row
                       else row)
           in (if l_BlockFrom row' \<le> next_block s
               then (if next_block s < l_BlockTo row' then t else 0) else 0, row')))"

text \<open>The overloads: NULL stands for the null entity.\<close>

definition lp_deref :: "lp_entity \<Rightarrow> entity" where
  "lp_deref lp = (case lp of None \<Rightarrow> null_entity | Some e \<Rightarrow> e)"

definition GetPermission5 ::
    "mc_Permissions \<Rightarrow> lp_entity \<Rightarrow> address \<Rightarrow> u32 \<Rightarrow> bool \<Rightarrow> u32 \<times> ledger_row" where
  "GetPermission5 s lp a t checkmempool = GetPermissionRow s (lp_deref lp) a t checkmempool"

definition GetPermission3 :: "mc_Permissions \<Rightarrow> address \<Rightarrow> u32 \<Rightarrow> u32 \<times> ledger_row" where
  "GetPermission3 s a t = GetPermission5 s None a t True"

definition GetPermission :: "mc_Permissions \<Rightarrow> lp_entity \<Rightarrow> address \<Rightarrow> u32 \<Rightarrow> u32" where
  "GetPermission s lp a t = fst (GetPermission5 s lp a t True)"

end
