(* ===== verification/Perm_Log.thy ===== *)
theory Perm_Log
  imports Perm_State
begin

text \<open>
  The abstract view of the permission state: one append-only log of rows, the ledger rows in use
  followed by the memory pool, in which every row knows its number and the number of the previous
  row of its key. The database is an index of the ledger part of the log. \<open>perm_wf\<close> is the
  invariant; under it \<open>GetPermission\<close> is a look-up of the last row of a key in the log
  (\<open>GetPermissionRow_log\<close>), and its two loops stop.
\<close>

section \<open>The log\<close>

definition klast :: "db_key \<Rightarrow> ledger_row list \<Rightarrow> nat \<Rightarrow> nat" where
  "klast k R n = last_idx (\<lambda>r. row_key r = k) R n"

definition ledger_used :: "mc_Permissions \<Rightarrow> nat" where
  "ledger_used s = p_Row s - m_Count (p_MemPool s)"

definition p_log :: "mc_Permissions \<Rightarrow> ledger_row list" where
  "p_log s = take (ledger_used s) (lg_Rows (p_Ledger s)) @ buf_rows (p_MemPool s)"

text \<open>
  The keys whose rows form a chain: not the header (type 0), not the block index rows, whose
  \<open>PrevRow\<close> points to the index row of the previous block, and not the bookkeeping keys that have
  no ledger rows.
\<close>

definition log_key :: "db_key \<Rightarrow> bool" where
  "log_key k \<longleftrightarrow> dk_Type k \<noteq> 0 \<and> dk_Type k \<noteq> MC_PTP_BLOCK_INDEX \<and> dk_Entity k \<noteq> adminminerlist_entity \<and>
     (dk_Type k = MC_PTP_BLOCK_MINER \<longrightarrow> dk_Entity k = null_entity)"

definition index_key :: "db_key \<Rightarrow> bool" where
  "index_key k \<longleftrightarrow> dk_Type k = MC_PTP_BLOCK_INDEX \<and> dk_Entity k = null_entity"

text \<open>One row of the log: its number, its key and its link.\<close>

definition wf_row :: "ledger_row list \<Rightarrow> nat \<Rightarrow> bool" where
  "wf_row R i \<longleftrightarrow> l_ThisRow (R ! i) = i \<and>
     (log_key (row_key (R ! i)) \<and> l_PrevRow (R ! i) = klast (row_key (R ! i)) R i \<or>
      index_key (row_key (R ! i)) \<and> l_PrevRow (R ! i) < i)"

definition wf_log :: "ledger_row list \<Rightarrow> bool" where
  "wf_log R \<longleftrightarrow> R \<noteq> [] \<and> (\<forall>i<length R. 0 < i \<longrightarrow> wf_row R i)"

definition row_val :: "ledger_row \<Rightarrow> perm_val" where
  "row_val r = \<lparr>v_BlockFrom = l_BlockFrom r, v_BlockTo = l_BlockTo r, v_LedgerRow = l_ThisRow r,
     v_Flags = l_Flags r\<rparr>"

text \<open>
  The entry of a miner's block row has meaningless flags: the row's field is overlaid with the miner
  count, which the ledger gets after the database.
\<close>

definition flagless :: "db_key \<Rightarrow> db_val option \<Rightarrow> db_val option" where
  "flagless k v = (if dk_Type k = MC_PTP_BLOCK_MINER
     then map_option (\<lambda>w. PermVal ((perm_view w)\<lparr>v_Flags := 0\<rparr>)) v else v)"

definition log_val :: "ledger_row list \<Rightarrow> nat \<Rightarrow> db_key \<Rightarrow> db_val option" where
  "log_val R n k = flagless k
     (let j = klast k R n in if j = 0 then None else Some (PermVal (row_val (R ! j))))"

definition db_mirrors :: "(db_key \<Rightarrow> db_val option) \<Rightarrow> ledger_row list \<Rightarrow> nat \<Rightarrow> bool" where
  "db_mirrors get R n \<longleftrightarrow> (\<forall>k. log_key k \<longrightarrow> flagless k (get k) = log_val R n k)"

lemma flagless_None [simp]: "flagless k v = None \<longleftrightarrow> v = None"
  by (simp add: flagless_def)

definition perm_wf :: "mc_Permissions \<Rightarrow> bool" where
  "perm_wf s \<longleftrightarrow>
     m_Count (p_MemPool s) < p_Row s \<and> ledger_used s \<le> length (lg_Rows (p_Ledger s)) \<and>
     buf_ok mem_key (p_MemPool s) \<and> store_ok (db_Store (p_Database s)) \<and>
     wf_log (p_log s) \<and> db_mirrors (db_get (p_Database s)) (p_log s) (ledger_used s)"

text \<open>A state in which no call to the database or the file fails.\<close>

definition perm_healthy :: "mc_Permissions \<Rightarrow> bool" where
  "perm_healthy s \<longleftrightarrow> db_healthy (p_Database s) \<and> lg_CanOpen (p_Ledger s)"

lemma klast_less: "0 < n \<Longrightarrow> klast k R n < n"
  by (simp add: klast_def last_idx_less)

lemma klast_le: "klast k R n \<le> n"
  by (simp add: klast_def last_idx_le)

lemma klast_key: "0 < klast k R n \<Longrightarrow> row_key (R ! klast k R n) = k"
  unfolding klast_def using last_idx_holds [of "\<lambda>r. row_key r = k" R n] by simp

lemma klast_max: "j < n \<Longrightarrow> 0 < j \<Longrightarrow> row_key (R ! j) = k \<Longrightarrow> j \<le> klast k R n"
  by (simp add: klast_def last_idx_max)

lemma klast_eqI:
  "0 < j \<Longrightarrow> j < n \<Longrightarrow> row_key (R ! j) = k \<Longrightarrow> (\<And>i. j < i \<Longrightarrow> i < n \<Longrightarrow> row_key (R ! i) \<noteq> k) \<Longrightarrow>
   klast k R n = j"
  unfolding klast_def by (rule last_idx_eqI) auto

lemma klast_Suc: "klast k R (Suc n) = (if 0 < n \<and> row_key (R ! n) = k then n else klast k R n)"
  by (simp add: klast_def)

lemma klast_0 [simp]: "klast k R 0 = 0"
  by (simp add: klast_def)

lemma klast_append [simp]: "n \<le> length R \<Longrightarrow> klast k (R @ S) n = klast k R n"
  by (simp add: klast_def)

lemma klast_take [simp]: "n \<le> m \<Longrightarrow> klast k (take m R) n = klast k R n"
  by (simp add: klast_def)

lemma klast_mono: "m \<le> n \<Longrightarrow> klast k R m \<le> klast k R n"
  by (simp add: klast_def last_idx_mono)

lemma klast_snoc:
  "R \<noteq> [] \<Longrightarrow> klast k (R @ [r]) (Suc (length R)) = (if row_key r = k then length R else klast k R (length R))"
  by (simp add: klast_Suc)

lemma length_p_log:
  "ledger_used s \<le> length (lg_Rows (p_Ledger s)) \<Longrightarrow>
   length (p_log s) = ledger_used s + m_Count (p_MemPool s)"
  by (simp add: p_log_def)

lemma perm_wf_length:
  assumes "perm_wf s"
  shows "length (p_log s) = p_Row s" and "ledger_used s + m_Count (p_MemPool s) = p_Row s"
    and "0 < ledger_used s" and "ledger_used s \<le> p_Row s"
  using assms by (auto simp: perm_wf_def length_p_log ledger_used_def)

lemma p_log_mem:
  "ledger_used s \<le> length (lg_Rows (p_Ledger s)) \<Longrightarrow> ledger_used s \<le> i \<Longrightarrow>
   i < ledger_used s + m_Count (p_MemPool s) \<Longrightarrow>
   p_log s ! i = buf_rows (p_MemPool s) ! (i - ledger_used s)"
  by (simp add: p_log_def nth_append)

lemma p_log_ledger:
  "i < ledger_used s \<Longrightarrow> ledger_used s \<le> length (lg_Rows (p_Ledger s)) \<Longrightarrow>
   p_log s ! i = lg_Rows (p_Ledger s) ! i"
  by (simp add: p_log_def nth_append)

lemma wf_logD: "wf_log R \<Longrightarrow> 0 < i \<Longrightarrow> i < length R \<Longrightarrow> wf_row R i"
  by (simp add: wf_log_def)

lemma wf_log_key:
  assumes "wf_log R" and "0 < i" and "i < length R" and "log_key (row_key (R ! i))"
  shows "l_ThisRow (R ! i) = i" and "l_PrevRow (R ! i) = klast (row_key (R ! i)) R i"
  using wf_logD [OF assms(1-3)] assms(4) by (auto simp: wf_row_def log_key_def index_key_def)

text \<open>Growing the log by one linked row keeps it well formed, and so does cutting it.\<close>

lemma wf_row_append:
  "i < length R \<Longrightarrow> wf_row (R @ S) i = wf_row R i"
  by (simp add: wf_row_def nth_append)

lemma wf_log_snoc [wf_intros]:
  assumes "wf_log R" and "l_ThisRow r = length R"
    and "log_key (row_key r) \<and> l_PrevRow r = klast (row_key r) R (length R) \<or>
         index_key (row_key r) \<and> l_PrevRow r < length R"
  shows "wf_log (R @ [r])"
proof -
  have "wf_row (R @ [r]) (length R)" using assms(2,3) by (simp add: wf_row_def nth_append)
  with assms(1) show ?thesis by (auto simp: wf_log_def less_Suc_eq wf_row_append)
qed

lemma wf_log_take [wf_intros]:
  assumes "wf_log R" and "0 < n"
  shows "wf_log (take n R)"
proof -
  have "wf_row (take n R) i = wf_row R i" if "i < n" "i < length R" for i
    using that by (simp add: wf_row_def)
  with assms show ?thesis by (auto simp: wf_log_def)
qed

section \<open>The walk through the memory pool\<close>

text \<open>
  The rows of the memory pool that follow row \<open>prev\<close> of key \<open>k\<close>: searching for the pair
  \<open>(k, prev)\<close> finds the next row of \<open>k\<close> after \<open>prev\<close>, and nothing when \<open>prev\<close> is the last one.
\<close>

lemma mem_key_next:
  assumes wf: "wf_log R" and k: "log_key k" and i: "0 < i" "i < length R"
  shows "mem_key (R ! i) = (k, prev) \<longleftrightarrow> row_key (R ! i) = k \<and> klast k R i = prev"
  using wf_log_key [OF wf i] k by (auto simp: mem_key_def)

lemma next_after:
  assumes "prev < j" and "0 < j" and "j < n" and "row_key (R ! j) = k"
  shows "\<exists>m. prev < m \<and> m \<le> j \<and> row_key (R ! m) = k \<and> (\<forall>i. prev < i \<longrightarrow> i < m \<longrightarrow> row_key (R ! i) \<noteq> k)"
proof -
  define m where "m = (LEAST i. prev < i \<and> row_key (R ! i) = k)"
  have "prev < m \<and> row_key (R ! m) = k" unfolding m_def by (rule LeastI [of _ j]) (use assms in simp)
  moreover have "m \<le> j" unfolding m_def by (rule Least_le) (use assms in simp)
  moreover have "\<forall>i. prev < i \<longrightarrow> i < m \<longrightarrow> row_key (R ! i) \<noteq> k"
    unfolding m_def using not_less_Least by blast
  ultimately show ?thesis by blast
qed

lemma walk_mempool_log:
  assumes wf: "wf_log R" and R: "R = take L rs @ buf_rows mp" "L \<le> length rs" "0 < L"
    and ok: "buf_ok mem_key mp" and k: "log_key k"
    and prev: "klast k R (max L (Suc prev)) = prev" "prev < length R"
    and fuel: "length R - max L (Suc prev) < n"
  shows "walk_mempool n mp k prev row =
     (if klast k R (length R) = prev then row else R ! klast k R (length R))"
  using prev fuel
proof (induction n arbitrary: prev row)
  case 0
  then show ?case by simp
next
  case (Suc n)
  have len: "length R = L + m_Count mp" using R by simp
  have at: "buf_rows mp ! (i - L) = R ! i" if "L \<le> i" for i
    using that R by (simp add: nth_append)
  have seek: "buf_Seek mem_key mp (k, prev) = find_idx (\<lambda>r. mem_key r = (k, prev)) (buf_rows mp)"
    using ok by (rule mcb.seek_rows)
  show ?case
  proof (cases "klast k R (length R) = prev")
    case True
    have "mem_key r \<noteq> (k, prev)" if "r \<in> set (buf_rows mp)" for r
    proof
      assume mk: "mem_key r = (k, prev)"
      from that have "\<exists>q<m_Count mp. buf_rows mp ! q = r" by (simp add: in_set_conv_nth)
      then obtain q where q: "q < m_Count mp" "r = buf_rows mp ! q" by auto
      then have r: "r = R ! (L + q)" using at [of "L + q"] by simp
      have i: "0 < L + q" "L + q < length R" using q R(3) len by auto
      from mem_key_next [OF wf k i, of prev] mk r
      have "row_key (R ! (L + q)) = k" "klast k R (L + q) = prev" by simp_all
      with klast_max [where k = k and R = R, OF i(2,1)] True klast_less [OF i(1), of k R] show False by simp
    qed
    with seek have "buf_Seek mem_key mp (k, prev) = None" by (simp add: find_idx_None)
    with True show ?thesis by simp
  next
    case False
    define j where "j = klast k R (length R)"
    have j: "prev < j" "0 < j" "j < length R" "row_key (R ! j) = k"
    proof -
      have "prev \<le> j"
      proof (cases "max L (Suc prev) \<le> length R")
        case True
        then show ?thesis using Suc.prems(1) klast_mono [of "max L (Suc prev)" "length R" k R] j_def by simp
      next
        case False
        then show ?thesis using len Suc.prems(2) by simp
      qed
      with False j_def show "prev < j" by simp
      then show "0 < j" by simp
      show "j < length R" unfolding j_def by (rule klast_less) (use len R in simp)
      show "row_key (R ! j) = k" using klast_key [of k R "length R"] \<open>0 < j\<close> by (simp add: j_def)
    qed
    from next_after [OF this] obtain m where m: "prev < m" "m \<le> j" "row_key (R ! m) = k"
      and none: "\<And>i. prev < i \<Longrightarrow> i < m \<Longrightarrow> row_key (R ! i) \<noteq> k" by blast
    have "L \<le> m"
    proof (rule ccontr)
      assume "\<not> L \<le> m"
      then have "m \<le> klast k R (max L (Suc prev))" using m by (intro klast_max) auto
      with Suc.prems(1) m(1) show False by simp
    qed
    have mlen: "m < length R" using m(2) j(3) by simp
    have km: "klast k R m = prev"
    proof (cases "prev = 0")
      case True
      have "klast k R m = 0"
      proof (rule ccontr)
        assume "klast k R m \<noteq> 0"
        then have "0 < klast k R m" by simp
        with klast_key [of k R m] klast_less [of m k R] none [of "klast k R m"] True m(1) show False by simp
      qed
      with True show ?thesis by simp
    next
      case False
      have "row_key (R ! prev) = k"
        using Suc.prems(1) False klast_key [of k R "max L (Suc prev)"] by simp
      with False m(1) none show ?thesis by (intro klast_eqI) auto
    qed
    have "find_idx (\<lambda>r. mem_key r = (k, prev)) (buf_rows mp) = Some (m - L)"
    proof (rule find_idx_unique)
      show "m - L < length (buf_rows mp)" using mlen len \<open>L \<le> m\<close> by simp
      show "mem_key (buf_rows mp ! (m - L)) = (k, prev)"
        using mem_key_next [OF wf k _ mlen] m km at [OF \<open>L \<le> m\<close>] by simp
    next
      fix q assume q: "q < length (buf_rows mp)" "mem_key (buf_rows mp ! q) = (k, prev)"
      have i: "0 < L + q" "L + q < length R" using q R(3) len by auto
      have "R ! (L + q) = buf_rows mp ! q" using at [of "L + q"] by simp
      with mem_key_next [OF wf k i, of prev] q have lq: "row_key (R ! (L + q)) = k" "klast k R (L + q) = prev"
        by simp_all
      have "prev < L + q" using lq(2) klast_less [OF i(1), of k R] by simp
      have "\<not> L + q < m" using none [OF \<open>prev < L + q\<close>] lq(1) by blast
      moreover have "\<not> m < L + q"
      proof
        assume "m < L + q"
        from klast_max [OF this _ m(3)] m(1) lq(2) show False by simp
      qed
      ultimately show "q = m - L" by simp
    qed
    with seek have found: "buf_Seek mem_key mp (k, prev) = Some (m - L)" by simp
    have row: "buf_GetRow mp (m - L) = R ! m"
      using at [OF \<open>L \<le> m\<close>] mlen len \<open>L \<le> m\<close> by (simp add: buf_GetRow_nth)
    have num: "l_ThisRow (R ! m) = m" using wf_log_key(1) [OF wf _ mlen] m k by simp
    have max: "max L (Suc m) = Suc m" using \<open>L \<le> m\<close> by simp
    have step: "walk_mempool n mp k m (R ! m) =
        (if klast k R (length R) = m then R ! m else R ! klast k R (length R))"
    proof (rule Suc.IH)
      show "klast k R (max L (Suc m)) = m" using m by (simp add: max klast_Suc)
      show "m < length R" by (rule mlen)
      show "length R - max L (Suc m) < n" using Suc.prems(3) max m(1) \<open>L \<le> m\<close> mlen by simp
    qed
    with found row num False show ?thesis by (simp add: Let_def)
  qed
qed

section \<open>GetPermission looks a key up in the log\<close>

text \<open>What the last row of a key, among the first \<open>n\<close> rows, says.\<close>

definition log_from :: "ledger_row list \<Rightarrow> nat \<Rightarrow> db_key \<Rightarrow> u32" where
  "log_from R n k = (let j = klast k R n in if j = 0 then 0 else l_BlockFrom (R ! j))"

definition log_to :: "ledger_row list \<Rightarrow> nat \<Rightarrow> db_key \<Rightarrow> u32" where
  "log_to R n k = (let j = klast k R n in if j = 0 then 0 else l_BlockTo (R ! j))"

definition log_flags :: "ledger_row list \<Rightarrow> nat \<Rightarrow> db_key \<Rightarrow> u32" where
  "log_flags R n k = (let j = klast k R n in if j = 0 then 0 else l_Flags (R ! j))"

definition log_allowed :: "mc_Permissions \<Rightarrow> nat \<Rightarrow> db_key \<Rightarrow> bool" where
  "log_allowed s n k \<longleftrightarrow> log_from (p_log s) n k \<le> next_block s \<and> next_block s < log_to (p_log s) n k"

lemmas log_row_defs = log_from_def log_to_def log_flags_def Let_def

text \<open>A row that shows what the log says about a key.\<close>

definition shows_log :: "ledger_row list \<Rightarrow> nat \<Rightarrow> db_key \<Rightarrow> ledger_row \<Rightarrow> bool" where
  "shows_log R n k r \<longleftrightarrow> row_key r = k \<and> l_ThisRow r = klast k R n \<and> l_BlockFrom r = log_from R n k \<and>
     l_BlockTo r = log_to R n k \<and> (dk_Type k \<noteq> MC_PTP_BLOCK_MINER \<longrightarrow> l_Flags r = log_flags R n k)"

lemma shows_log_row:
  "wf_log R \<Longrightarrow> log_key k \<Longrightarrow> n \<le> length R \<Longrightarrow> klast k R n \<noteq> 0 \<Longrightarrow> shows_log R n k (R ! klast k R n)"
  using klast_key [of k R n] klast_less [of n k R] wf_log_key(1) [of R "klast k R n"]
  by (cases "n = 0") (auto simp: shows_log_def log_row_defs)

lemma row_key_base [simp]: "row_key (base_row e a t) = DbKey e a t"
  by (simp add: row_key_def base_row_def)

lemma base_row_fields [simp]:
  "l_PrevRow (base_row e a t) = 0" "l_ThisRow (base_row e a t) = 0" "l_BlockFrom (base_row e a t) = 0"
  "l_BlockTo (base_row e a t) = 0" "l_Flags (base_row e a t) = 0" "l_Entity (base_row e a t) = e"
  "l_Address (base_row e a t) = a" "l_Type (base_row e a t) = t"
  by (simp_all add: base_row_def zero_row_def)

lemma GetPermission_stored_log:
  assumes wf: "perm_wf s" and hl: "perm_healthy s" and nc: "p_CopiedRow s = 0"
    and k: "k = DbKey e a t" "log_key k"
  shows "\<exists>row pld. GetPermission_stored s e a t (base_row e a t) = Some (row, pld) \<and>
     shows_log (p_log s) (ledger_used s) k row \<and> row_key pld = k \<and>
     l_PrevRow pld = klast k (p_log s) (ledger_used s)"
proof -
  let ?R = "p_log s" and ?L = "ledger_used s"
  define j where "j = klast k ?R ?L"
  have get: "db_Read (p_Database s) (DbKey e a t) = (db_get (p_Database s) k, MC_ERR_NOERROR)"
    and mir: "flagless k (db_get (p_Database s) k) = log_val ?R ?L k"
    using wf hl k by (simp_all add: perm_wf_def perm_healthy_def db_mirrors_def db_Read_healthy)
  have op: "db_Open (p_Database s)" "lg_CanOpen (p_Ledger s)"
    using hl by (simp_all add: perm_healthy_def db_healthy_def)
  show ?thesis
  proof (cases "j = 0")
    case True
    then have "log_val ?R ?L k = None" by (simp add: log_val_def j_def)
    with mir have "db_get (p_Database s) k = None" by (metis flagless_None)
    with get op True k show ?thesis
      by (simp add: GetPermission_stored_def shows_log_def log_row_defs j_def)
  next
    case False
    have L: "0 < ?L" "?L \<le> length ?R" "?L \<le> length (lg_Rows (p_Ledger s))"
      using perm_wf_length [OF wf] wf by (simp_all add: perm_wf_def)
    have j: "j < ?L" "row_key (?R ! j) = k" "l_ThisRow (?R ! j) = j" "?R ! j = lg_Rows (p_Ledger s) ! j"
      using False klast_less [OF L(1), of k ?R] klast_key [of k ?R ?L] wf L k
        wf_log_key(1) [of ?R j] p_log_ledger [of j s]
      by (simp_all add: j_def perm_wf_def)
    have "flagless k (db_get (p_Database s) k) = flagless k (Some (PermVal (row_val (?R ! j))))"
      using mir False by (simp add: log_val_def j_def Let_def)
    then obtain v where v: "db_get (p_Database s) k = Some v" "v_BlockFrom (perm_view v) = l_BlockFrom (?R ! j)"
      "v_BlockTo (perm_view v) = l_BlockTo (?R ! j)" "v_LedgerRow (perm_view v) = j"
      "dk_Type k \<noteq> MC_PTP_BLOCK_MINER \<longrightarrow> v_Flags (perm_view v) = l_Flags (?R ! j)"
      using j(3) by (cases "dk_Type k = MC_PTP_BLOCK_MINER"; cases "db_get (p_Database s) k")
        (auto simp: flagless_def row_val_def, metis perm_val.select_convs perm_val.update_convs(4) perm_val.surjective)
    have rd: "db_Read (p_Database s) (DbKey e a t) = (Some v, MC_ERR_NOERROR)"
      using get v by simp
    have gr: "ledger_GetRow (p_Ledger s) j old = (MC_ERR_NOERROR, ?R ! j)" for old
      using op j L(3) by (simp add: ledger_GetRow_def)
    have kf: "l_Entity (?R ! j) = e" "l_Address (?R ! j) = a" "l_Type (?R ! j) = t"
      using j(2) k by (simp_all add: row_key_def)
    have kl: "klast (DbKey e a t) ?R ?L = j" using k(1) by (simp add: j_def)
    show ?thesis
      using op rd nc j kf k False gr v
      by (simp add: GetPermission_stored_def shows_log_def log_row_defs kl row_key_def Let_def)
  qed
qed

theorem GetPermissionRow_log:
  assumes wf: "perm_wf s" and hl: "perm_healthy s" and nc: "p_CopiedRow s = 0"
    and k: "k = DbKey e a t" "log_key k"
    and n: "n = (if checkmempool then p_Row s else ledger_used s)"
  shows "shows_log (p_log s) n k (snd (GetPermissionRow s e a t checkmempool))"
    and "fst (GetPermissionRow s e a t checkmempool) = (if log_allowed s n k then t else 0)"
proof -
  let ?R = "p_log s" and ?L = "ledger_used s" and ?mp = "p_MemPool s"
  obtain row pld where st: "GetPermission_stored s e a t (base_row e a t) = Some (row, pld)"
    and row: "shows_log ?R ?L k row" and pld: "row_key pld = k" "l_PrevRow pld = klast k ?R ?L"
    using GetPermission_stored_log [OF wf hl nc k] by blast
  have len: "length ?R = p_Row s" "?L + m_Count ?mp = p_Row s" "0 < ?L"
    using perm_wf_length [OF wf] by simp_all
  have wfR: "wf_log ?R" using wf by (simp add: perm_wf_def)
  define prev where "prev = klast k ?R ?L"
  have lt: "prev < ?L" unfolding prev_def by (rule klast_less) (rule len)
  define row' where "row' = (if checkmempool
      then walk_mempool (Suc (m_Count ?mp)) ?mp (row_key pld) (l_PrevRow pld) row else row)"
  have "shows_log ?R n k row'"
  proof (cases checkmempool)
    case True
    have "walk_mempool (Suc (m_Count ?mp)) ?mp k prev row =
        (if klast k ?R (length ?R) = prev then row else ?R ! klast k ?R (length ?R))"
    proof (rule walk_mempool_log [OF wfR, of ?L "lg_Rows (p_Ledger s)"])
      show "?R = take ?L (lg_Rows (p_Ledger s)) @ buf_rows ?mp" by (simp add: p_log_def)
      have "max ?L (Suc prev) = ?L" using lt by simp
      then show "klast k ?R (max ?L (Suc prev)) = prev" by (simp add: prev_def)
    qed (use wf len lt k in \<open>auto simp: perm_wf_def\<close>)
    with True pld len(1) row n show ?thesis
      using shows_log_row [OF wfR k(2), of "p_Row s"] klast_mono [of ?L "p_Row s" k ?R] len(2)
      by (auto simp: row'_def prev_def shows_log_def log_row_defs)
  next
    case False
    with row n show ?thesis by (simp add: row'_def)
  qed
  moreover have "GetPermissionRow s e a t checkmempool =
      (if l_BlockFrom row' \<le> next_block s then (if next_block s < l_BlockTo row' then t else 0) else 0, row')"
    using st by (simp add: GetPermissionRow_def row'_def Let_def)
  ultimately show "shows_log ?R n k (snd (GetPermissionRow s e a t checkmempool))"
    and "fst (GetPermissionRow s e a t checkmempool) = (if log_allowed s n k then t else 0)"
    by (auto simp: log_allowed_def shows_log_def)
qed

end
