(* ===== verification/Perm_Check.thy ===== *)
theory Perm_Check
  imports Perm_State "HOL-Library.Signed_Division"
begin

text \<open>
  The permission checks \<open>CanConnect\<close> ... \<open>CanActivate\<close>, the approval check for upgrades, the parsing
  of permission names, mining diversity and the number of admins a change needs
  (\<^verbatim>\<open>src/src/permissions/permission.cpp\<close>). A check that has to remember what it granted while the
  memory pool is replayed copies the entity, so a NULL entity there is a crash, the result \<open>None\<close>.
\<close>

section \<open>Permission names\<close>

abbreviation (input) MC_ENT_TYPE_NONE :: u32 where "MC_ENT_TYPE_NONE \<equiv> 0x00"
abbreviation (input) MC_ENT_TYPE_ASSET :: u32 where "MC_ENT_TYPE_ASSET \<equiv> 0x01"
abbreviation (input) MC_ENT_TYPE_STREAM :: u32 where "MC_ENT_TYPE_STREAM \<equiv> 0x02"
abbreviation (input) MC_ENT_TYPE_STREAM_MAX :: u32 where "MC_ENT_TYPE_STREAM_MAX \<equiv> 0x0F"

definition GetPossiblePermissionTypes :: "net_params \<Rightarrow> u32 \<Rightarrow> u32" where
  "GetPossiblePermissionTypes np entity_type =
     (if entity_type = MC_ENT_TYPE_ASSET then MC_PTP_ISSUE OR MC_PTP_ADMIN
      else if entity_type = MC_ENT_TYPE_STREAM then MC_PTP_WRITE OR MC_PTP_ACTIVATE OR MC_PTP_ADMIN
      else if entity_type = MC_ENT_TYPE_NONE then
        (if \<not> Streams np then MC_PTP_GLOBAL_ALL - MC_PTP_CREATE else MC_PTP_GLOBAL_ALL)
      else if FixedIn10007 np then
        (if entity_type \<le> MC_ENT_TYPE_STREAM_MAX then MC_PTP_WRITE OR MC_PTP_ACTIVATE OR MC_PTP_ADMIN
         else 0)
      else 0)"

text \<open>\<open>mc_MemcmpCheckSize(start, name, ptr - start) == 0\<close>: the token is exactly the name.\<close>

definition mc_MemcmpCheckSize :: "string \<Rightarrow> string \<Rightarrow> bool" where
  "mc_MemcmpCheckSize token name = (if length name \<noteq> length token then True else token \<noteq> name)"

definition token_type :: "net_params \<Rightarrow> u32 \<Rightarrow> string \<Rightarrow> u32" where
  "token_type np full_type tok =
     (let p0 = (if \<not> mc_MemcmpCheckSize tok ''all'' \<or> \<not> mc_MemcmpCheckSize tok ''*'' then full_type else 0);
          p1 = (if \<not> mc_MemcmpCheckSize tok ''connect'' then MC_PTP_CONNECT else p0);
          p2 = (if \<not> mc_MemcmpCheckSize tok ''send'' then MC_PTP_SEND else p1);
          p3 = (if \<not> mc_MemcmpCheckSize tok ''receive'' then MC_PTP_RECEIVE else p2);
          p4 = (if \<not> mc_MemcmpCheckSize tok ''issue'' then MC_PTP_ISSUE else p3);
          p5 = (if \<not> mc_MemcmpCheckSize tok ''mine'' then MC_PTP_MINE else p4);
          p6 = (if \<not> mc_MemcmpCheckSize tok ''admin'' then MC_PTP_ADMIN else p5);
          p7 = (if \<not> mc_MemcmpCheckSize tok ''activate'' then MC_PTP_ACTIVATE else p6);
          p8 = (if Streams np \<and> \<not> mc_MemcmpCheckSize tok ''create'' then MC_PTP_CREATE else p7);
          p9 = (if Streams np \<and> \<not> mc_MemcmpCheckSize tok ''write'' then MC_PTP_WRITE else p8)
      in p9)"

text \<open>
  The loop over the characters and the closing NUL: \<open>tok\<close> is the text from \<open>start\<close> to \<open>ptr\<close>.
  \<open>None\<close> is the early \<open>return 0\<close> on an unknown name. A separator met when the token is empty does
  not move \<open>start\<close>, so the token after it begins with the separator.
\<close>

fun scan_types :: "net_params \<Rightarrow> u32 \<Rightarrow> string \<Rightarrow> string \<Rightarrow> u32 \<Rightarrow> u32 option" where
  "scan_types np full_type tok [] result =
     (if tok \<noteq> [] then
        (let perm_type = token_type np full_type tok
         in if perm_type = 0 then None else Some (result OR perm_type))
      else Some result)"
| "scan_types np full_type tok (c # cs) result =
     (if c = CHR '','' then
        (if tok \<noteq> [] then
           (let perm_type = token_type np full_type tok
            in if perm_type = 0 then None else scan_types np full_type [] cs (result OR perm_type))
         else scan_types np full_type (tok @ [c]) cs result)
      else scan_types np full_type (tok @ [c]) cs result)"

definition GetPermissionType :: "net_params \<Rightarrow> string \<Rightarrow> u32 \<Rightarrow> u32" where
  "GetPermissionType np str entity_type =
     (let full_type = GetPossiblePermissionTypes np entity_type
      in case scan_types np full_type [] str 0 of
           None \<Rightarrow> 0
         | Some result \<Rightarrow> (if result AND (NOT full_type) \<noteq> 0 then 0 else result))"

section \<open>Setup period and mining diversity\<close>

definition IsSetupPeriod :: "net_params \<Rightarrow> mc_Permissions \<Rightarrow> bool" where
  "IsSetupPeriod np s = (if p_Block s + 1 < np_Int64 np ''setupfirstblocks'' then True else False)"

text \<open>
  The quotient \<^verbatim>\<open>(int)((n*m-1)/MC_PRM_DECIMAL_GRANULARITY)\<close> in C \<open>int\<close> arithmetic, the overflow
  taken as the wrap-around of the target machines.
\<close>

definition decimal_share :: "int \<Rightarrow> int \<Rightarrow> int" where
  "decimal_share n m = to_i32 (to_i32 (n * m) - 1) sdiv MC_PRM_DECIMAL_GRANULARITY"

definition GetActiveMinerCount :: "net_params \<Rightarrow> mc_Permissions \<Rightarrow> int" where
  "GetActiveMinerCount np s =
     (let miner_count = p_MinerCount s;
          count1 = (if \<not> IsSetupPeriod np s then
            (let diversity = to_i32 (np_Int64 np ''miningdiversity'');
                 d1 = (if 0 < diversity then decimal_share miner_count diversity else diversity);
                 d2 = d1 + 1;
                 c1 = miner_count - (d2 - 1);
                 c2 = (if c1 < 1 then 1 else c1)
             in if p_MinerCount s < c2 then p_MinerCount s else c2)
            else miner_count)
      in if p_MinerCount s \<le> 0 then 1 else count1)"

definition diversity_window :: "net_params \<Rightarrow> int \<Rightarrow> int" where
  "diversity_window np miner_count =
     (let diversity = to_i32 (np_Int64 np ''miningdiversity'');
          d1 = (if 0 < diversity then decimal_share miner_count diversity else diversity);
          d2 = d1 + 1;
          d3 = (if d2 < 1 then 1 else d2)
      in if miner_count < d3 then miner_count else d3)"

definition IsBarredByDiversity :: "net_params \<Rightarrow> u32 \<Rightarrow> u32 \<Rightarrow> int \<Rightarrow> bool" where
  "IsBarredByDiversity np block last_mined miner_count =
     (if miner_count \<noteq> 0 then
        (if np_Int64 np ''setupfirstblocks'' \<le> uint block then
           (if sint (block - last_mined) \<le> diversity_window np miner_count - 1 then True else False)
         else False)
      else False)"

section \<open>The checks\<close>

definition Record_MempoolPermission ::
    "mc_Permissions \<Rightarrow> lp_entity \<Rightarrow> address \<Rightarrow> u32 \<Rightarrow> mc_Permissions option" where
  "Record_MempoolPermission s lp a t =
     (if p_CheckForMempoolFlag s then
        (case lp of
           None \<Rightarrow> None
         | Some e \<Rightarrow> Some (s\<lparr>p_MempoolPermissions :=
             buf_Add id (p_MempoolPermissions s) \<lparr>mp_Entity = e, mp_Address = a, mp_Type = t\<rparr>\<rparr>))
      else Some s)"

definition CanConnect :: "net_params \<Rightarrow> mc_Permissions \<Rightarrow> lp_entity \<Rightarrow> address \<Rightarrow> u32" where
  "CanConnect np s lp a =
     (if \<not> np_IsProtocolMultichain np then MC_PTP_CONNECT
      else if mc_IsNullEntity lp \<and> np_ANYONE_CAN_CONNECT np then MC_PTP_CONNECT
      else GetPermission s lp a MC_PTP_CONNECT)"

definition CanSend ::
    "net_params \<Rightarrow> mc_Permissions \<Rightarrow> lp_entity \<Rightarrow> address \<Rightarrow> (u32 \<times> mc_Permissions) option" where
  "CanSend np s lp a =
     (if \<not> np_IsProtocolMultichain np then Some (MC_PTP_SEND, s)
      else if mc_IsNullEntity lp \<and> np_ANYONE_CAN_SEND np then Some (MC_PTP_SEND, s)
      else
        (let r0 = GetPermission s lp a MC_PTP_SEND;
             r1 = (if r0 = 0 \<and> Streams np then r0 OR GetPermission s lp a MC_PTP_ISSUE else r0);
             r2 = (if r1 = 0 \<and> Streams np then r1 OR GetPermission s lp a MC_PTP_CREATE else r1);
             r3 = (if r2 = 0 then r2 OR GetPermission s lp a MC_PTP_ADMIN else r2);
             r4 = (if r3 = 0 then r3 OR GetPermission s lp a MC_PTP_ACTIVATE else r3);
             result = (if r4 \<noteq> 0 then MC_PTP_SEND else r4)
         in if result \<noteq> 0
            then map_option (\<lambda>s'. (result, s')) (Record_MempoolPermission s lp a MC_PTP_SEND)
            else Some (result, s)))"

definition CanReceive ::
    "net_params \<Rightarrow> mc_Permissions \<Rightarrow> lp_entity \<Rightarrow> address \<Rightarrow> (u32 \<times> mc_Permissions) option" where
  "CanReceive np s lp a =
     (if \<not> np_IsProtocolMultichain np then Some (MC_PTP_RECEIVE, s)
      else if mc_IsNullEntity lp \<and> np_ANYONE_CAN_RECEIVE np then Some (MC_PTP_RECEIVE, s)
      else
        (let r0 = GetPermission s lp a MC_PTP_RECEIVE;
             r1 = (if r0 = 0 then r0 OR GetPermission s lp a MC_PTP_ADMIN else r0);
             r2 = (if r1 = 0 then r1 OR GetPermission s lp a MC_PTP_ACTIVATE else r1);
             result = (if r2 \<noteq> 0 then MC_PTP_RECEIVE else r2)
         in if result \<noteq> 0
            then map_option (\<lambda>s'. (result, s')) (Record_MempoolPermission s lp a MC_PTP_RECEIVE)
            else Some (result, s)))"

definition CanWrite ::
    "net_params \<Rightarrow> mc_Permissions \<Rightarrow> lp_entity \<Rightarrow> address \<Rightarrow> (u32 \<times> mc_Permissions) option" where
  "CanWrite np s lp a =
     (if \<not> np_IsProtocolMultichain np then Some (0, s)
      else
        (let r0 = GetPermission s lp a MC_PTP_WRITE;
             result = (if r0 \<noteq> 0 then MC_PTP_WRITE else r0)
         in if result \<noteq> 0
            then map_option (\<lambda>s'. (result, s')) (Record_MempoolPermission s lp a MC_PTP_WRITE)
            else Some (result, s)))"

definition CanCreate :: "net_params \<Rightarrow> mc_Permissions \<Rightarrow> lp_entity \<Rightarrow> address \<Rightarrow> u32" where
  "CanCreate np s lp a =
     (if mc_IsNullEntity lp \<and>
         (if FixedIn1001020003 np then np_ANYONE_CAN_CREATE np else np_ANYONE_CAN_RECEIVE np)
      then MC_PTP_CREATE
      else
        (let r0 = GetPermission s lp a MC_PTP_CREATE
         in if r0 \<noteq> 0 then MC_PTP_CREATE else r0))"

definition CanIssue :: "net_params \<Rightarrow> mc_Permissions \<Rightarrow> lp_entity \<Rightarrow> address \<Rightarrow> u32" where
  "CanIssue np s lp a =
     (if mc_IsNullEntity lp \<and> np_Int64 np ''anyonecanissue'' \<noteq> 0 then MC_PTP_ISSUE
      else GetPermission s lp a MC_PTP_ISSUE)"

text \<open>Mining is decided without the memory pool, and the diversity rule is for the chain only.\<close>

definition CanMine :: "net_params \<Rightarrow> mc_Permissions \<Rightarrow> lp_entity \<Rightarrow> address \<Rightarrow> u32" where
  "CanMine np s lp a =
     (if \<not> np_IsProtocolMultichain np then MC_PTP_MINE
      else if mc_IsNullEntity lp \<and> np_ANYONE_CAN_MINE np then MC_PTP_MINE
      else
        (let miner_count = p_ClearedMinerCount s;
             result = fst (GetPermission5 s lp a MC_PTP_MINE False)
         in if result \<noteq> 0 \<and> mc_IsNullEntity lp then
              (let last_mined = l_BlockFrom (snd (GetPermission5 s lp a MC_PTP_BLOCK_MINER False))
               in if last_mined \<noteq> 0 \<and> IsBarredByDiversity np (next_block s) last_mined miner_count then 0
                  else result)
            else result))"

definition CanAdmin :: "net_params \<Rightarrow> mc_Permissions \<Rightarrow> lp_entity \<Rightarrow> address \<Rightarrow> u32" where
  "CanAdmin np s lp a =
     (if (if Streams np then p_Block s = -1 else p_AdminCount s = 0) then MC_PTP_ADMIN
      else if mc_IsNullEntity lp \<and> np_ANYONE_CAN_ADMIN np then MC_PTP_ADMIN
      else GetPermission s lp a MC_PTP_ADMIN)"

definition CanActivate :: "net_params \<Rightarrow> mc_Permissions \<Rightarrow> lp_entity \<Rightarrow> address \<Rightarrow> u32" where
  "CanActivate np s lp a =
     (if mc_IsNullEntity lp \<and> np_ANYONE_CAN_ACTIVATE np then MC_PTP_ACTIVATE
      else
        (let r0 = GetPermission s lp a MC_PTP_ACTIVATE;
             r1 = (if r0 = 0 then CanAdmin np s lp a else r0)
         in if r1 \<noteq> 0 then MC_PTP_ACTIVATE else r1))"

definition GetAllPermissions ::
    "net_params \<Rightarrow> mc_Permissions \<Rightarrow> lp_entity \<Rightarrow> address \<Rightarrow> u32 \<Rightarrow> (u32 \<times> mc_Permissions) option" where
  "GetAllPermissions np s lp a type =
     (let pure = (\<lambda>bit f rs. map_option (\<lambda>(r, s). if type AND bit \<noteq> 0 then (r OR f s, s) else (r, s)) rs);
          eff = (\<lambda>bit f rs. Option.bind rs (\<lambda>(r, s).
             if type AND bit \<noteq> 0 then map_option (\<lambda>(x, s'). (r OR x, s')) (f s) else Some (r, s)));
          r1 = pure MC_PTP_CONNECT (\<lambda>s. CanConnect np s lp a) (Some (0, s));
          r2 = eff MC_PTP_SEND (\<lambda>s. CanSend np s lp a) r1;
          r3 = eff MC_PTP_RECEIVE (\<lambda>s. CanReceive np s lp a) r2;
          r4 = eff MC_PTP_WRITE (\<lambda>s. CanWrite np s lp a) r3;
          r5 = pure MC_PTP_CREATE (\<lambda>s. CanCreate np s lp a) r4;
          r6 = pure MC_PTP_ISSUE (\<lambda>s. CanIssue np s lp a) r5;
          r7 = pure MC_PTP_ADMIN (\<lambda>s. CanAdmin np s lp a) r6;
          r8 = pure MC_PTP_MINE (\<lambda>s. CanMine np s lp a) r7
      in pure MC_PTP_ACTIVATE (\<lambda>s. CanActivate np s lp a) r8)"

section \<open>Replaying the permissions the memory pool relied on\<close>

definition MempoolPermissionsCopy :: "mc_Permissions \<Rightarrow> mc_Permissions" where
  "MempoolPermissionsCopy s =
     (let replay = buf_Clear (p_MempoolPermissionsToReplay s); mp = p_MempoolPermissions s
      in if buf_GetCount mp \<noteq> 0 then
           (let sized = buf_SetCount id replay (buf_GetCount mp);
                copied = sized\<lparr>m_Data := (\<lambda>i. if i < buf_GetCount mp then m_Data mp i else m_Data sized i)\<rparr>
            in s\<lparr>p_MempoolPermissionsToReplay := copied, p_MempoolPermissions := buf_Clear mp\<rparr>)
         else s\<lparr>p_MempoolPermissionsToReplay := replay\<rparr>)"

text \<open>One row: \<open>Some (False, _)\<close> when the permission is gone.\<close>

definition replay_row ::
    "net_params \<Rightarrow> mc_Permissions \<Rightarrow> mempool_permission \<Rightarrow> (bool \<times> mc_Permissions) option" where
  "replay_row np s row =
     (let lp = Some (mp_Entity row); a = mp_Address row
      in if mp_Type row = MC_PTP_SEND then map_option (\<lambda>(r, s'). (r \<noteq> 0, s')) (CanSend np s lp a)
         else if mp_Type row = MC_PTP_RECEIVE then map_option (\<lambda>(r, s'). (r \<noteq> 0, s')) (CanReceive np s lp a)
         else if mp_Type row = MC_PTP_WRITE then map_option (\<lambda>(r, s'). (r \<noteq> 0, s')) (CanWrite np s lp a)
         else Some (True, s))"

fun replay_rows ::
    "net_params \<Rightarrow> mc_Permissions \<Rightarrow> mempool_permission list \<Rightarrow> (bool \<times> mc_Permissions) option" where
  "replay_rows np s [] = Some (True, s)"
| "replay_rows np s (row # rows) =
     (case replay_row np s row of
        None \<Rightarrow> None
      | Some (ok, s') \<Rightarrow> (if ok then replay_rows np s' rows else Some (False, s')))"

definition MempoolPermissionsCheck ::
    "net_params \<Rightarrow> mc_Permissions \<Rightarrow> nat \<Rightarrow> nat \<Rightarrow> (int \<times> mc_Permissions) option" where
  "MempoolPermissionsCheck np s from to =
     (let rows = map (buf_GetRow (p_MempoolPermissionsToReplay s)) [from..<to]
      in case replay_rows np s rows of
           None \<Rightarrow> None
         | Some (ok, s') \<Rightarrow>
             (if \<not> ok then Some (0, s')
              else Some (1, s'\<lparr>p_MempoolPermissions :=
                     foldl (buf_Add id) (p_MempoolPermissions s') rows\<rparr>)))"

section \<open>Approvals and the consensus a change needs\<close>

text \<open>The 16 bytes of an upgrade identifier are the first bytes of the address.\<close>

type_synonym upgrade_id = "128 word"

definition upgrade_address :: "upgrade_id \<Rightarrow> address" where
  "upgrade_address u = push_bit 32 (ucast u)"

definition IsApprovedInternal :: "mc_Permissions \<Rightarrow> upgrade_id \<Rightarrow> bool \<Rightarrow> u32" where
  "IsApprovedInternal s u check_current_block =
     (case GetPermissionRow s upgrade_entity (upgrade_address u) MC_PTP_UPGRADE True of (result, row) \<Rightarrow>
        if \<not> check_current_block
        then (if l_BlockFrom row < l_BlockTo row then MC_PTP_UPGRADE else 0)
        else result)"

definition IsApproved :: "mc_Permissions \<Rightarrow> upgrade_id \<Rightarrow> bool \<Rightarrow> u32" where
  "IsApproved s u check_current_block = IsApprovedInternal s u check_current_block"

definition GetAdminCount :: "net_params \<Rightarrow> mc_Permissions \<Rightarrow> int" where
  "GetAdminCount np s =
     (if np_ANYONE_CAN_ADMIN np then (if FixedIn1000920001 np then 1 else p_AdminCount s)
      else p_AdminCount s)"

definition GetMinerCount :: "mc_Permissions \<Rightarrow> int" where
  "GetMinerCount s = p_MinerCount s"

text \<open>
  \<^verbatim>\<open>(int)((GetAdminCount()*(uint32_t)consensus-1)/MC_PRM_DECIMAL_GRANULARITY)+1\<close>: the product is a
  \<^verbatim>\<open>uint32_t\<close> and wraps.
\<close>

definition admins_for_share :: "int \<Rightarrow> int \<Rightarrow> int" where
  "admins_for_share admins consensus =
     sint ((word_of_int admins * word_of_int consensus - 1 :: u32) div
           word_of_int MC_PRM_DECIMAL_GRANULARITY) + 1"

definition consensus_param :: "net_params \<Rightarrow> u32 \<Rightarrow> int" where
  "consensus_param np type =
     (let c0 = 0;
          c1 = (if type = MC_PTP_ADMIN then to_i32 (np_Int64 np ''adminconsensusadmin'') else c0);
          c2 = (if type = MC_PTP_MINE then to_i32 (np_Int64 np ''adminconsensusmine'') else c1);
          c3 = (if type = MC_PTP_ACTIVATE then to_i32 (np_Int64 np ''adminconsensusactivate'') else c2);
          c4 = (if type = MC_PTP_ISSUE then to_i32 (np_Int64 np ''adminconsensusissue'') else c3)
      in if type = MC_PTP_CREATE then to_i32 (np_Int64 np ''adminconsensuscreate'') else c4)"

definition AdminConsensus :: "net_params \<Rightarrow> mc_Permissions \<Rightarrow> lp_entity \<Rightarrow> u32 \<Rightarrow> int" where
  "AdminConsensus np s lp type =
     (if GetAdminCount np s = 0 then 1
      else if mc_IsNullEntity lp \<and>
          type \<in> {MC_PTP_ADMIN, MC_PTP_MINE, MC_PTP_ACTIVATE, MC_PTP_ISSUE, MC_PTP_CREATE} then
        (if IsSetupPeriod np s then 1
         else
           (let consensus = consensus_param np type
            in if consensus = 0 then 1 else admins_for_share (GetAdminCount np s) consensus))
      else if mc_IsUpgradeEntity lp \<and> type = MC_PTP_UPGRADE then
        (if IsSetupPeriod np s then 1
         else
           (let consensus = to_i32 (np_Int64 np ''adminconsensusupgrade'')
            in if consensus = 0 then 1 else admins_for_share (GetAdminCount np s) consensus))
      else 1)"

definition IsActivateEnough :: "u32 \<Rightarrow> bool" where
  "IsActivateEnough type =
     (if type AND (MC_PTP_ADMIN OR MC_PTP_ISSUE OR MC_PTP_MINE OR MC_PTP_ACTIVATE OR MC_PTP_CREATE) \<noteq> 0
      then False else True)"

end
