(* ===== verification/Perm_Consensus.thy ===== *)
theory Perm_Consensus
  imports Perm_Log Perm_Check
begin

text \<open>
  \<open>VerifyConsensus\<close> and \<open>RequiredForConsensus\<close> (\<^verbatim>\<open>src/src/permissions/permission.cpp\<close>): a grant of a
  permission that several admins have to agree on takes effect when enough of them have written the
  same grant since the last one that took effect. The code walks back through the rows of the key and
  keeps, in a temporary pool keyed by admin, the newest row of every admin. The walk is shown to be a
  vote count over the list of pending rows (\<open>pending_rows\<close>).
\<close>

section \<open>The code\<close>

type_synonym tmp_pool = "(db_key, ledger_row) mc_Buffer"

definition empty_pool :: tmp_pool where
  "empty_pool = buf_Initialize (\<lambda>_. zero_row) True"

definition same_grant :: "ledger_row \<Rightarrow> ledger_row \<Rightarrow> bool" where
  "same_grant new r \<longleftrightarrow> l_GrantFrom r = l_GrantFrom new \<and> l_GrantTo r = l_GrantTo new"

text \<open>
  The first half of the loop body, the temporary pool. \<open>counting\<close> is \<^verbatim>\<open>remaining == NULL\<close>; otherwise
  a row that has not been received yet, the one the caller asks about, is not counted.
\<close>

definition consensus_tally ::
    "bool \<Rightarrow> ledger_row \<Rightarrow> ledger_row \<Rightarrow> tmp_pool \<Rightarrow> int \<Rightarrow> tmp_pool \<times> int" where
  "consensus_tally counting newRow pld tmp required =
     (let counted = (\<lambda>req. if same_grant newRow pld \<and> (counting \<or> 0 < l_BlockReceived pld)
                           then req - 1 else req)
      in case buf_Seek row_key tmp (row_key pld) of
           Some found \<Rightarrow>
             (let old = buf_GetRow tmp found
              in if l_Timestamp old < l_Timestamp pld
                 then (snd (buf_PutRow row_key tmp found pld),
                       counted (if same_grant newRow old then required + 1 else required))
                 else (tmp, required))
         | None \<Rightarrow> (buf_Add row_key tmp pld, counted required))"

text \<open>The second half: the previous row, from the memory pool or from the ledger, where it is checked.\<close>

definition consensus_fetch ::
    "mc_Permissions \<Rightarrow> ledger_row \<Rightarrow> nat \<Rightarrow> ledger_row \<Rightarrow> int \<times> ledger_row" where
  "consensus_fetch s newRow prevRow pld =
     (let countLedgerRows = ledger_used s
      in if countLedgerRows \<le> prevRow
         then (MC_ERR_NOERROR, buf_GetRow (p_MemPool s) (prevRow - countLedgerRows))
         else if \<not> lg_CanOpen (p_Ledger s) then (MC_ERR_DBOPEN_ERROR, pld)
         else case ledger_GetRow (p_Ledger s) prevRow pld of (err, row) \<Rightarrow>
           if err \<noteq> MC_ERR_NOERROR then (MC_ERR_DBOPEN_ERROR, row)
           else if row_key row \<noteq> row_key newRow then (MC_ERR_DBOPEN_ERROR, row)
           else if prevRow \<noteq> l_ThisRow row then (MC_ERR_DBOPEN_ERROR, row)
           else (MC_ERR_NOERROR, row))"

definition consensus_revert :: "ledger_row \<Rightarrow> ledger_row \<Rightarrow> ledger_row" where
  "consensus_revert newRow lastRow =
     newRow\<lparr>l_Consensus := 0, l_BlockFrom := l_BlockFrom lastRow, l_BlockTo := l_BlockTo lastRow\<rparr>"

text \<open>
  The loop returns the error code, the new row and \<open>remaining\<close>. \<open>None\<close> is a loop still running when
  the fuel is gone.
\<close>

fun consensus_loop ::
    "nat \<Rightarrow> mc_Permissions \<Rightarrow> bool \<Rightarrow> ledger_row \<Rightarrow> ledger_row \<Rightarrow> ledger_row \<Rightarrow> tmp_pool \<Rightarrow> int \<Rightarrow>
     (int \<times> ledger_row \<times> int) option" where
  "consensus_loop 0 s counting newRow lastRow pld tmp required = None"
| "consensus_loop (Suc n) s counting newRow lastRow pld tmp required =
     (if required = 0 then Some (MC_ERR_NOERROR, newRow, 0)
      else
        (let pldA = pld\<lparr>l_Address := l_Admin pld\<rparr>
         in case consensus_tally counting newRow pldA tmp required of (tmp', required') \<Rightarrow>
           if required' = 0 then Some (MC_ERR_NOERROR, newRow, 0)
           else if l_PrevRow pldA = 0
             then Some (MC_ERR_NOERROR, consensus_revert newRow lastRow, required')
           else case consensus_fetch s newRow (l_PrevRow pldA) pldA of (err, row) \<Rightarrow>
             if err \<noteq> MC_ERR_NOERROR then Some (err, newRow, 0)
             else if 0 < l_Consensus row
               then Some (MC_ERR_NOERROR, consensus_revert newRow lastRow, required')
             else consensus_loop n s counting newRow lastRow row tmp' required'))"

definition VerifyConsensus ::
    "net_params \<Rightarrow> mc_Permissions \<Rightarrow> bool \<Rightarrow> ledger_row \<Rightarrow> ledger_row \<Rightarrow>
     (int \<times> ledger_row \<times> int) option" where
  "VerifyConsensus np s counting newRow lastRow =
     (let consensus = AdminConsensus np s (Some (l_Entity newRow)) (l_Type newRow);
          row = newRow\<lparr>l_Consensus := word_of_int consensus\<rparr>
      in if consensus \<le> 1 then Some (MC_ERR_NOERROR, row, 0)
         else consensus_loop (Suc (p_Row s)) s counting row lastRow row empty_pool consensus)"

text \<open>
  \<open>RequiredForConsensus\<close> asks how many admins are still needed for a grant nobody has written yet;
  \<open>now\<close> is \<^verbatim>\<open>mc_TimeNowAsUInt()\<close>.
\<close>

definition consensus_query_row ::
    "mc_Permissions \<Rightarrow> lp_entity \<Rightarrow> address \<Rightarrow> u32 \<Rightarrow> u32 \<Rightarrow> u32 \<Rightarrow> u32 \<Rightarrow> nat \<Rightarrow> ledger_row" where
  "consensus_query_row s lp a type from to now prev =
     zero_row\<lparr>l_Entity := lp_deref lp, l_Address := a, l_Type := type, l_PrevRow := prev,
       l_BlockFrom := from, l_BlockTo := to, l_BlockReceived := 0, l_GrantFrom := from, l_GrantTo := to,
       l_ThisRow := p_Row s, l_Timestamp := now, l_Flags := 0\<rparr>"

definition RequiredForConsensus ::
    "net_params \<Rightarrow> mc_Permissions \<Rightarrow> lp_entity \<Rightarrow> address \<Rightarrow> u32 \<Rightarrow> u32 \<Rightarrow> u32 \<Rightarrow> u32 \<Rightarrow> int option" where
  "RequiredForConsensus np s lp a type from to now =
     (if \<not> mc_IsNullEntity lp then Some 1
      else
        (let pldLast = snd (GetPermission5 s lp a type True)
         in if type \<in> {MC_PTP_ADMIN, MC_PTP_MINE, MC_PTP_CONNECT, MC_PTP_RECEIVE, MC_PTP_SEND,
                MC_PTP_ISSUE, MC_PTP_CREATE, MC_PTP_ACTIVATE, MC_PTP_WRITE} then
              (if l_ThisRow pldLast \<noteq> 0 then
                 (if l_BlockFrom pldLast = from \<and> l_BlockTo pldLast = to then Some 0
                  else case VerifyConsensus np s False
                         (consensus_query_row s lp a type from to now (l_ThisRow pldLast)) pldLast of
                     None \<Rightarrow> None
                   | Some (err, row, remaining) \<Rightarrow>
                       (if err \<noteq> MC_ERR_NOERROR then Some (-2) else Some remaining))
               else Some (AdminConsensus np s lp type))
            else Some (-1)))"

section \<open>The rows of a key, newest first\<close>

primrec key_rows :: "ledger_row list \<Rightarrow> db_key \<Rightarrow> nat \<Rightarrow> ledger_row list" where
  "key_rows R k 0 = []"
| "key_rows R k (Suc n) =
     (if 0 < n \<and> row_key (R ! n) = k then R ! n # key_rows R k n else key_rows R k n)"

lemma key_rows_klast:
  "key_rows R k n = (if klast k R n = 0 then [] else R ! klast k R n # key_rows R k (klast k R n))"
  by (induction n) (auto simp: klast_Suc)

text \<open>The grants written since the last one that took effect.\<close>

definition pending_rows :: "ledger_row list \<Rightarrow> db_key \<Rightarrow> nat \<Rightarrow> ledger_row list" where
  "pending_rows R k n = takeWhile (\<lambda>r. l_Consensus r = 0) (key_rows R k n)"

lemma pending_rows_klast:
  "pending_rows R k n =
     (let j = klast k R n in
      if j = 0 \<or> 0 < l_Consensus (R ! j) then [] else R ! j # pending_rows R k j)"
proof (cases "klast k R n = 0")
  case True
  then have "key_rows R k n = []" by (subst key_rows_klast) simp
  with True show ?thesis by (simp add: pending_rows_def)
next
  case False
  then have "key_rows R k n = R ! klast k R n # key_rows R k (klast k R n)"
    by (subst key_rows_klast) simp
  with False show ?thesis by (simp add: pending_rows_def Let_def word_neq_0_conv)
qed

lemma key_rows_set: "set (key_rows R k n) = {R ! i |i. 0 < i \<and> i < n \<and> row_key (R ! i) = k}"
  by (induction n) (auto simp: less_Suc_eq)

lemma pending_rows_set: "set (pending_rows R k n) \<subseteq> {R ! i |i. 0 < i \<and> i < n \<and> row_key (R ! i) = k}"
proof
  fix r
  assume "r \<in> set (pending_rows R k n)"
  then have "r \<in> set (key_rows R k n)" unfolding pending_rows_def by (blast dest: set_takeWhileD)
  then show "r \<in> {R ! i |i. 0 < i \<and> i < n \<and> row_key (R ! i) = k}" by (simp only: key_rows_set)
qed

section \<open>Votes\<close>

text \<open>
  Every admin has one vote, its newest row by timestamp; of two rows with the same timestamp the one
  seen first, the later one in the log, stays.
\<close>

definition cast_vote ::
    "(address \<Rightarrow> ledger_row option) \<Rightarrow> ledger_row \<Rightarrow> (address \<Rightarrow> ledger_row option)" where
  "cast_vote v r =
     (case v (l_Admin r) of
        None \<Rightarrow> v(l_Admin r \<mapsto> r)
      | Some old \<Rightarrow> (if l_Timestamp old < l_Timestamp r then v(l_Admin r \<mapsto> r) else v))"

definition votes :: "ledger_row list \<Rightarrow> address \<Rightarrow> ledger_row option" where
  "votes rs = foldl cast_vote Map.empty rs"

definition in_favour :: "ledger_row \<Rightarrow> (address \<Rightarrow> ledger_row option) \<Rightarrow> address set" where
  "in_favour new v = {a. \<exists>r. v a = Some r \<and> same_grant new r}"

definition support :: "ledger_row \<Rightarrow> ledger_row list \<Rightarrow> nat" where
  "support new rs = card (in_favour new (votes rs))"

lemma votes_Nil [simp]: "votes [] = Map.empty"
  by (simp add: votes_def)

lemma votes_snoc: "votes (rs @ [r]) = cast_vote (votes rs) r"
  by (simp add: votes_def)

lemma support_Nil [simp]: "support new [] = 0"
  by (simp add: support_def in_favour_def)

lemma votes_SomeD: "votes rs a = Some r \<Longrightarrow> r \<in> set rs \<and> l_Admin r = a"
proof (induction rs arbitrary: r rule: rev_induct)
  case (snoc x xs)
  then show ?case
    by (auto simp: votes_snoc cast_vote_def split: option.splits if_splits)
qed simp

lemma in_favour_votes: "in_favour new (votes rs) \<subseteq> l_Admin ` {r \<in> set rs. same_grant new r}"
  by (auto simp: in_favour_def dest!: votes_SomeD)

lemma finite_in_favour [simp]: "finite (in_favour new (votes rs))"
  by (rule finite_subset [OF in_favour_votes]) simp

lemma in_favour_upd:
  "in_favour new (v(a \<mapsto> r)) =
     (if same_grant new r then insert a (in_favour new v) else in_favour new v - {a})"
  by (auto simp: in_favour_def)

lemma card_in_favour_upd:
  assumes "finite (in_favour new v)"
  shows "int (card (in_favour new (v(a \<mapsto> r)))) =
     int (card (in_favour new v)) - of_bool (a \<in> in_favour new v) + of_bool (same_grant new r)"
  using assms card_Suc_Diff1 [of "in_favour new v" a]
  by (auto simp: in_favour_upd card_insert_if)

text \<open>Adding a row to the votes changes the support by at most one.\<close>

lemma support_snoc:
  "int (support new (rs @ [r])) =
     (case votes rs (l_Admin r) of
        None \<Rightarrow> int (support new rs) + of_bool (same_grant new r)
      | Some old \<Rightarrow>
          (if l_Timestamp old < l_Timestamp r
           then int (support new rs) - of_bool (same_grant new old) + of_bool (same_grant new r)
           else int (support new rs)))"
proof (cases "votes rs (l_Admin r)")
  case None
  then have "l_Admin r \<notin> in_favour new (votes rs)" by (simp add: in_favour_def)
  with None show ?thesis
    by (simp add: support_def votes_snoc cast_vote_def card_in_favour_upd del: fun_upd_apply)
next
  case (Some old)
  then have "l_Admin r \<in> in_favour new (votes rs) \<longleftrightarrow> same_grant new old" by (simp add: in_favour_def)
  with Some show ?thesis
    by (simp add: support_def votes_snoc cast_vote_def card_in_favour_upd del: fun_upd_apply)
qed

section \<open>The temporary pool holds the votes\<close>

definition pool_map :: "tmp_pool \<Rightarrow> db_key \<Rightarrow> ledger_row option" where
  "pool_map tmp k = map_option (\<lambda>i. buf_rows tmp ! i) (buf_Seek row_key tmp k)"

definition admin_row :: "ledger_row \<Rightarrow> ledger_row" where
  "admin_row r = r\<lparr>l_Address := l_Admin r\<rparr>"

definition pool_holds :: "db_key \<Rightarrow> tmp_pool \<Rightarrow> (address \<Rightarrow> ledger_row option) \<Rightarrow> bool" where
  "pool_holds k tmp v \<longleftrightarrow> buf_ok row_key tmp \<and>
     (\<forall>a. pool_map tmp (DbKey (dk_Entity k) a (dk_Type k)) = map_option admin_row (v a))"

lemma nth_find_idx: "map_option (\<lambda>i. xs ! i) (find_idx p xs) = List.find p xs"
  by (induction xs) (auto simp: option.map_comp comp_def)

lemma find_append: "List.find p (xs @ ys) = (case List.find p xs of None \<Rightarrow> List.find p ys | Some x \<Rightarrow> Some x)"
  by (induction xs) auto

lemma pool_map_find: "buf_ok row_key tmp \<Longrightarrow> pool_map tmp k = List.find (\<lambda>r. row_key r = k) (buf_rows tmp)"
  by (simp add: pool_map_def buf_Seek_find nth_find_idx)

lemma pool_map_Add:
  "buf_ok row_key tmp \<Longrightarrow> pool_map tmp (row_key r) = None \<Longrightarrow>
   pool_map (buf_Add row_key tmp r) = (pool_map tmp)(row_key r \<mapsto> r)"
  by (auto simp: fun_eq_iff pool_map_find buf_rows_Add find_append split: option.splits)

lemma find_list_update:
  "find_idx (\<lambda>x. row_key x = row_key r) xs = Some i \<Longrightarrow>
   List.find (\<lambda>x. row_key x = k) (xs[i := r]) =
     (if k = row_key r then Some r else List.find (\<lambda>x. row_key x = k) xs)"
  by (induction xs arbitrary: i) (auto split: if_splits)

lemma pool_map_PutRow:
  assumes ok: "buf_ok row_key tmp" and found: "buf_Seek row_key tmp (row_key r) = Some i"
  shows "pool_map (snd (buf_PutRow row_key tmp i r)) = (pool_map tmp)(row_key r \<mapsto> r)"
    and "buf_ok row_key (snd (buf_PutRow row_key tmp i r))"
proof -
  have i: "i < m_Count tmp" "row_key (buf_rows tmp ! i) = row_key r"
    using mcb.seek_nth [OF ok found] by simp_all
  show ok': "buf_ok row_key (snd (buf_PutRow row_key tmp i r))"
    by (rule buf_ok_PutRow [OF ok i])
  show "pool_map (snd (buf_PutRow row_key tmp i r)) = (pool_map tmp)(row_key r \<mapsto> r)"
    using ok ok' found i
    by (simp add: fun_eq_iff pool_map_find buf_rows_PutRow buf_Seek_find find_list_update)
qed

lemma pool_holds_upd:
  assumes "pool_holds k tmp v" and "l_Entity r = dk_Entity k" and "l_Type r = dk_Type k"
    and "pool_map tmp' = (pool_map tmp)(row_key (admin_row r) \<mapsto> admin_row r)" and "buf_ok row_key tmp'"
  shows "pool_holds k tmp' (v(l_Admin r \<mapsto> r))"
  using assms by (auto simp: pool_holds_def row_key_def admin_row_def)

lemma pool_holds_empty: "pool_holds k empty_pool Map.empty"
  by (simp add: pool_holds_def empty_pool_def pool_map_find buf_simps)

text \<open>One round of the loop casts one vote, and \<open>required\<close> stays the number of votes still missing.\<close>

lemma consensus_tally_votes:
  assumes pool: "pool_holds k tmp (votes rs)" and r: "row_key r = k"
    and same: "same_grant new = same_grant new'"
  shows "\<exists>tmp'. consensus_tally True new (admin_row r) tmp (c - int (support new' rs)) =
       (tmp', c - int (support new' (rs @ [r]))) \<and> pool_holds k tmp' (votes (rs @ [r]))"
proof -
  have key: "row_key (admin_row r) = DbKey (dk_Entity k) (l_Admin r) (dk_Type k)"
    and ent: "l_Entity r = dk_Entity k" "l_Type r = dk_Type k"
    and sg: "same_grant new (admin_row r) = same_grant new' r" "l_Timestamp (admin_row r) = l_Timestamp r"
    using r same by (auto simp: row_key_def admin_row_def same_grant_def)
  have ok: "buf_ok row_key tmp" and pm: "pool_map tmp (row_key (admin_row r)) = map_option admin_row (votes rs (l_Admin r))"
    using pool by (simp_all add: pool_holds_def key)
  show ?thesis
  proof (cases "votes rs (l_Admin r)")
    case None
    with pm have "buf_Seek row_key tmp (row_key (admin_row r)) = None" by (simp add: pool_map_def)
    moreover have "pool_holds k (buf_Add row_key tmp (admin_row r)) ((votes rs)(l_Admin r \<mapsto> r))"
      by (rule pool_holds_upd [OF pool ent pool_map_Add]) (use ok pm None in simp_all)
    ultimately show ?thesis using None
      by (simp add: consensus_tally_def support_snoc sg votes_snoc cast_vote_def)
  next
    case (Some old)
    with pm obtain i where i: "buf_Seek row_key tmp (row_key (admin_row r)) = Some i"
      "buf_rows tmp ! i = admin_row old" by (auto simp: pool_map_def)
    have "i < m_Count tmp" using mcb.seek_nth(1) [OF ok i(1)] by simp
    then have get: "buf_GetRow tmp i = admin_row old" using i(2) by (simp add: buf_GetRow_nth)
    have old: "same_grant new (admin_row old) = same_grant new' old" "l_Timestamp (admin_row old) = l_Timestamp old"
      using same by (simp_all add: admin_row_def) (simp add: same_grant_def)
    have "pool_holds k (snd (buf_PutRow row_key tmp i (admin_row r))) ((votes rs)(l_Admin r \<mapsto> r))"
      using pool_holds_upd [OF pool ent] pool_map_PutRow [OF ok i(1)] by blast
    with Some i(1) get old sg show ?thesis
      by (simp add: consensus_tally_def support_snoc votes_snoc cast_vote_def pool)
  qed
qed

section \<open>VerifyConsensus counts the votes\<close>

definition reached :: "int \<Rightarrow> ledger_row \<Rightarrow> ledger_row list \<Rightarrow> ledger_row list \<Rightarrow> bool" where
  "reached c new seen rs \<longleftrightarrow> (\<exists>m\<le>length rs. 0 < m \<and> int (support new (seen @ take m rs)) = c)"

lemma reached_Nil [simp]: "\<not> reached c new seen []"
  by (simp add: reached_def)

lemma reached_Cons:
  "reached c new seen (r # rs) \<longleftrightarrow>
     int (support new (seen @ [r])) = c \<or> reached c new (seen @ [r]) rs"
proof
  assume "reached c new seen (r # rs)"
  then obtain m where m: "m \<le> Suc (length rs)" "0 < m" "int (support new (seen @ take m (r # rs))) = c"
    by (auto simp: reached_def)
  then show "int (support new (seen @ [r])) = c \<or> reached c new (seen @ [r]) rs"
    by (cases m; cases "m = 1") (auto simp: reached_def intro!: exI [of _ "m - 1"])
next
  assume "int (support new (seen @ [r])) = c \<or> reached c new (seen @ [r]) rs"
  then show "reached c new seen (r # rs)"
  proof
    assume "int (support new (seen @ [r])) = c"
    then show ?thesis by (auto simp: reached_def intro!: exI [of _ 1])
  next
    assume "reached c new (seen @ [r]) rs"
    then obtain m where "m \<le> length rs" "0 < m" "int (support new ((seen @ [r]) @ take m rs)) = c"
      by (auto simp: reached_def)
    then show ?thesis by (auto simp: reached_def intro!: exI [of _ "Suc m"])
  qed
qed

lemma consensus_fetch_log:
  assumes wf: "perm_wf s" and hl: "perm_healthy s" and k: "log_key k" "row_key new = k"
    and j: "0 < j" "j < p_Row s" "row_key (p_log s ! j) = k"
  shows "consensus_fetch s new j pld = (MC_ERR_NOERROR, p_log s ! j)"
proof (cases "ledger_used s \<le> j")
  case True
  have "p_log s ! j = buf_rows (p_MemPool s) ! (j - ledger_used s)"
    using wf True j(2) perm_wf_length(2) [OF wf] by (intro p_log_mem) (auto simp: perm_wf_def)
  with True show ?thesis
    using j(2) perm_wf_length(2) [OF wf] by (simp add: consensus_fetch_def Let_def buf_GetRow_nth)
next
  case False
  have eq: "p_log s ! j = lg_Rows (p_Ledger s) ! j" "j < length (lg_Rows (p_Ledger s))"
    using wf False by (auto simp: perm_wf_def p_log_ledger)
  have "l_ThisRow (p_log s ! j) = j"
    using wf j perm_wf_length(1) [OF wf] k by (intro wf_log_key(1)) (simp_all add: perm_wf_def)
  with False eq j(3) k hl show ?thesis
    by (simp add: consensus_fetch_def ledger_GetRow_def perm_healthy_def)
qed

theorem consensus_loop_votes:
  assumes wf: "perm_wf s" and hl: "perm_healthy s" and k: "log_key k" "row_key new = k"
  shows "row_key pld = k \<Longrightarrow> l_PrevRow pld = klast k (p_log s) i \<Longrightarrow> i \<le> p_Row s \<Longrightarrow> i < n \<Longrightarrow>
    pool_holds k tmp (votes seen) \<Longrightarrow> required = c - int (support new seen) \<Longrightarrow> required \<noteq> 0 \<Longrightarrow>
    consensus_loop n s True new lastRow pld tmp required =
      (let rs = pld # pending_rows (p_log s) k i in
       if reached c new seen rs then Some (MC_ERR_NOERROR, new, 0)
       else Some (MC_ERR_NOERROR, consensus_revert new lastRow, c - int (support new (seen @ rs))))"
proof (induction n arbitrary: pld i tmp seen required)
  case 0
  then show ?case by simp
next
  case (Suc n)
  let ?R = "p_log s"
  define j where "j = klast k ?R i"
  have "admin_row pld = pld\<lparr>l_Address := l_Admin pld\<rparr>" by (simp add: admin_row_def)
  note ar = this [symmetric]
  obtain tmp' where t: "consensus_tally True new (admin_row pld) tmp (c - int (support new seen)) =
      (tmp', c - int (support new (seen @ [pld])))" and pool: "pool_holds k tmp' (votes (seen @ [pld]))"
    using consensus_tally_votes [OF Suc.prems(5,1) refl, of new c] by blast
  have prev: "l_PrevRow (admin_row pld) = j" using Suc.prems(2) by (simp add: admin_row_def j_def)
  have pend: "pending_rows ?R k i =
      (if j = 0 \<or> 0 < l_Consensus (?R ! j) then [] else ?R ! j # pending_rows ?R k j)"
    by (subst pending_rows_klast) (simp add: j_def Let_def)
  consider (agreed) "int (support new (seen @ [pld])) = c"
    | (first) "int (support new (seen @ [pld])) \<noteq> c" "j = 0"
    | (more) "int (support new (seen @ [pld])) \<noteq> c" "0 < j" by auto
  then show ?case
  proof cases
    case agreed
    then show ?thesis using Suc.prems(6,7) t by (simp add: ar reached_Cons)
  next
    case first
    then show ?thesis using Suc.prems(6,7) t pend by (simp add: ar reached_Cons prev Let_def)
  next
    case more
    have j: "j < i" "row_key (?R ! j) = k"
      using more(2) klast_less [of i k ?R] klast_key [of k ?R i] by (cases "i = 0"; simp add: j_def)+
    have f: "consensus_fetch s new j (admin_row pld) = (MC_ERR_NOERROR, ?R ! j)"
      using j Suc.prems(3) more(2) by (intro consensus_fetch_log [OF wf hl k]) simp_all
    have link: "l_PrevRow (?R ! j) = klast k ?R j"
      using wf_log_key(2) [of ?R j] wf perm_wf_length(1) [OF wf] j k more(2) Suc.prems(3)
      by (simp add: perm_wf_def)
    show ?thesis
    proof (cases "0 < l_Consensus (?R ! j)")
      case True
      then show ?thesis using Suc.prems(6,7) t more pend f by (simp add: ar reached_Cons prev Let_def)
    next
      case False
      have "consensus_loop n s True new lastRow (?R ! j) tmp' (c - int (support new (seen @ [pld]))) =
        (let rs = ?R ! j # pending_rows ?R k j in
         if reached c new (seen @ [pld]) rs then Some (MC_ERR_NOERROR, new, 0)
         else Some (MC_ERR_NOERROR, consensus_revert new lastRow,
           c - int (support new ((seen @ [pld]) @ rs))))"
        by (rule Suc.IH [OF j(2) link _ _ pool refl]) (use j(1) Suc.prems(3,4) more(1) in simp_all)
      then show ?thesis using False Suc.prems(6,7) t more pend f
        by (simp add: ar reached_Cons prev Let_def)
    qed
  qed
qed

section \<open>What a vote decides\<close>

lemma empty_pool_votes: "pool_holds k empty_pool (votes [])"
  by (simp add: pool_holds_empty)

lemma VerifyConsensus_votes:
  assumes wf: "perm_wf s" and hl: "perm_healthy s" and k: "log_key k" "row_key newRow = k"
    and prev: "l_PrevRow newRow = klast k (p_log s) (p_Row s)"
    and c: "c = AdminConsensus np s (Some (l_Entity newRow)) (l_Type newRow)"
    and row: "row = newRow\<lparr>l_Consensus := word_of_int c\<rparr>"
    and rs: "rs = row # pending_rows (p_log s) k (p_Row s)"
  shows "VerifyConsensus np s True newRow lastRow =
     (if c \<le> 1 then Some (MC_ERR_NOERROR, row, 0)
      else if reached c row [] rs then Some (MC_ERR_NOERROR, row, 0)
      else Some (MC_ERR_NOERROR, consensus_revert row lastRow, c - int (support row rs)))"
proof (cases "c \<le> 1")
  case True
  then show ?thesis by (simp add: VerifyConsensus_def c row Let_def)
next
  case False
  have k': "row_key row = k" using k(2) row by (simp add: row_key_def)
  have "consensus_loop (Suc (p_Row s)) s True row lastRow row empty_pool c =
      (let rs = row # pending_rows (p_log s) k (p_Row s) in
       if reached c row [] rs then Some (MC_ERR_NOERROR, row, 0)
       else Some (MC_ERR_NOERROR, consensus_revert row lastRow, c - int (support row ([] @ rs))))"
    by (rule consensus_loop_votes [OF wf hl k(1) k' k'])
      (use prev row False in \<open>simp_all add: empty_pool_votes del: votes_Nil\<close>)
  with False show ?thesis by (simp add: VerifyConsensus_def c row rs Let_def)
qed

text \<open>Support comes from distinct admins with a pending row of the same grant.\<close>

lemma support_le_admins:
  "support new rs \<le> card (l_Admin ` {r \<in> set rs. same_grant new r})"
  unfolding support_def by (rule card_mono [OF _ in_favour_votes]) simp

lemma reached_admins:
  assumes "reached c new [] rs"
  shows "c \<le> int (card (l_Admin ` {r \<in> set rs. same_grant new r}))"
proof -
  from assms obtain m where m: "int (support new (take m rs)) = c" by (auto simp: reached_def)
  have "support new (take m rs) \<le> card (l_Admin ` {r \<in> set (take m rs). same_grant new r})"
    by (rule support_le_admins)
  also have "\<dots> \<le> card (l_Admin ` {r \<in> set rs. same_grant new r})"
    by (rule card_mono) (auto dest: in_set_takeD)
  finally show ?thesis using m by simp
qed

text \<open>With time stamps that never go back, the vote of an admin is its newest row.\<close>

definition newest_first :: "ledger_row list \<Rightarrow> bool" where
  "newest_first rs \<longleftrightarrow> sorted_wrt (\<lambda>x y. l_Timestamp y \<le> l_Timestamp x) rs"

lemma votes_newest_first:
  "newest_first rs \<Longrightarrow> votes rs a = List.find (\<lambda>r. l_Admin r = a) rs"
proof (induction rs arbitrary: a rule: rev_induct)
  case (snoc r rs)
  then have s: "newest_first rs" and le: "\<forall>x\<in>set rs. l_Timestamp r \<le> l_Timestamp x"
    by (auto simp: newest_first_def sorted_wrt_append)
  show ?case
    using snoc.IH [OF s] le
    by (auto simp: votes_snoc cast_vote_def find_append split: option.splits)
      (metis find_Some_iff linorder_not_less nth_mem)+
qed simp

lemma support_newest_snoc:
  assumes "newest_first (rs @ [r])"
  shows "support new rs \<le> support new (rs @ [r])" and "support new (rs @ [r]) \<le> Suc (support new rs)"
proof -
  have le: "\<forall>x\<in>set rs. l_Timestamp r \<le> l_Timestamp x"
    using assms by (auto simp: newest_first_def sorted_wrt_append)
  have "int (support new (rs @ [r])) = int (support new rs) \<or>
        int (support new (rs @ [r])) = int (support new rs) + 1"
    using le votes_SomeD [of rs "l_Admin r"]
    by (auto simp: support_snoc linorder_not_less [symmetric] split: option.splits)
  then show "support new rs \<le> support new (rs @ [r])" and "support new (rs @ [r]) \<le> Suc (support new rs)"
    by linarith+
qed

lemma reached_newest_first:
  assumes "newest_first rs" and "0 < c"
  shows "reached c new [] rs \<longleftrightarrow> c \<le> int (support new rs)"
  using assms(1)
proof (induction rs rule: rev_induct)
  case Nil
  then show ?case using assms(2) by simp
next
  case (snoc r rs)
  have "reached c new [] (rs @ [r]) \<longleftrightarrow> reached c new [] rs \<or> int (support new (rs @ [r])) = c"
    by (auto simp: reached_def le_Suc_eq intro: exI [of _ "Suc (length rs)"])
  moreover have "newest_first rs" using snoc.prems by (simp add: newest_first_def sorted_wrt_append)
  ultimately show ?case using snoc.IH support_newest_snoc [OF snoc.prems, of new] by auto
qed

section \<open>The number of admins\<close>

text \<open>The share of the admins, rounded up, as long as the product fits 32 bits.\<close>

lemma admins_for_share_bounded:
  assumes "0 < n" and "0 < p" and "n * p < 2 ^ 32"
  shows "admins_for_share n p = (n * p - 1) div MC_PRM_DECIMAL_GRANULARITY + 1"
proof -
  have pos: "1 \<le> n * p" using mult_pos_pos [OF assms(1,2)] by linarith
  have w: "(word_of_int n * word_of_int p - 1 :: u32) = word_of_int (n * p - 1)" by simp
  have u: "uint (word_of_int (n * p - 1) :: u32) = n * p - 1"
    using pos assms(3) by (simp only: uint_word_of_int) (simp add: take_bit_int_eq_self)
  have "uint ((word_of_int n * word_of_int p - 1 :: u32) div word_of_int MC_PRM_DECIMAL_GRANULARITY) =
      (n * p - 1) div 1000000"
    unfolding w uint_div_distrib u by simp
  moreover have "(n * p - 1) div 1000000 < 2 ^ 31" using assms(3) by simp
  moreover have "0 \<le> (n * p - 1) div 1000000" using pos by simp
  moreover have "sint w = to_i32 (uint w)" for w :: u32 by (simp add: to_i32_def)
  ultimately show ?thesis
    by (simp add: admins_for_share_def to_i32_id)
qed

end
