(* ===== verification/Perm_Set.thy ===== *)
theory Perm_Set
  imports Perm_Consensus
begin

text \<open>
  Writing a permission, \<open>SetPermission\<close>, \<open>SetApproval\<close> and the checkpoint of the memory pool
  (\<^verbatim>\<open>src/src/permissions/permission.cpp\<close>). A result is the error code and the new state; \<open>None\<close> would be a
  call that does not return. Under the invariant every call returns, appends its rows to the log,
  keeps the invariant and the two counters, and leaves the other keys alone.
\<close>

section \<open>The code\<close>

definition set_types :: "net_params \<Rightarrow> u32 list" where
  "set_types np =
     [MC_PTP_CONNECT, MC_PTP_SEND, MC_PTP_RECEIVE] @
     (if Streams np then [MC_PTP_WRITE, MC_PTP_CREATE] else []) @
     [MC_PTP_ISSUE, MC_PTP_MINE, MC_PTP_ACTIVATE, MC_PTP_ADMIN] @
     (if Upgrades np then [MC_PTP_UPGRADE] else [])"

definition new_row ::
    "mc_Permissions \<Rightarrow> lp_entity \<Rightarrow> address \<Rightarrow> u32 \<Rightarrow> address \<Rightarrow> u32 \<Rightarrow> u32 \<Rightarrow> u32 \<Rightarrow> u32 \<Rightarrow> int \<Rightarrow> nat \<Rightarrow> ledger_row" where
  "new_row s lp a type admin from to timestamp flags offset prev =
     zero_row\<lparr>l_Entity := lp_deref lp, l_Address := a, l_Type := type, l_PrevRow := prev,
       l_BlockFrom := from, l_BlockTo := to,
       l_Admin := (if p_AdminCount s \<noteq> 0 then admin else a),
       l_BlockReceived := word_of_int (p_Block s + 1), l_GrantFrom := from, l_GrantTo := to,
       l_ThisRow := p_Row s, l_Timestamp := timestamp, l_Flags := flags,
       l_Offset := word_of_int offset\<rparr>"

text \<open>The row goes to the memory pool; the first one there makes the counters of the chain part.\<close>

definition mempool_add :: "mc_Permissions \<Rightarrow> ledger_row \<Rightarrow> mc_Permissions" where
  "mempool_add s row =
     (let s1 = (if buf_GetCount (p_MemPool s) = 0 then
                  (if p_CopiedRow s = 0 then
                     s\<lparr>p_ClearedAdminCount := p_AdminCount s, p_ClearedMinerCount := p_MinerCount s,
                       p_ClearedMinerCountForMinerVerification := p_MinerCount s\<rparr>
                   else s)
                else s)
      in s1\<lparr>p_MemPool := buf_Add mem_key (p_MemPool s1) row, p_Row := p_Row s1 + 1\<rparr>)"

definition adjust_counts ::
    "mc_Permissions \<Rightarrow> lp_entity \<Rightarrow> address \<Rightarrow> u32 \<Rightarrow> u32 \<Rightarrow> mc_Permissions" where
  "adjust_counts s lp a type lastAllowed =
     (if type = MC_PTP_ADMIN \<or> type = MC_PTP_MINE then
        (if mc_IsNullEntity lp then
           (let thisAllowed = GetPermission s lp a type
            in if lastAllowed \<noteq> thisAllowed then
                 (let d = (if lastAllowed \<noteq> 0 then -1 else 1);
                      s1 = (if type = MC_PTP_ADMIN then s\<lparr>p_AdminCount := p_AdminCount s + d\<rparr> else s)
                  in if type = MC_PTP_MINE then s1\<lparr>p_MinerCount := p_MinerCount s1 + d\<rparr> else s1)
               else s)
         else s)
      else s)"

text \<open>The branch for a single type.\<close>

definition SetPermission_single ::
    "net_params \<Rightarrow> lp_entity \<Rightarrow> address \<Rightarrow> u32 \<Rightarrow> address \<Rightarrow> u32 \<Rightarrow> u32 \<Rightarrow> u32 \<Rightarrow> u32 \<Rightarrow> bool \<Rightarrow> int \<Rightarrow>
     mc_Permissions \<Rightarrow> (int \<times> mc_Permissions) option" where
  "SetPermission_single np lp a type admin from to timestamp flags update_mempool offset s =
     (case GetPermission5 s lp a type True of (lastAllowed, pldLast) \<Rightarrow>
        let pldRow = new_row s lp a type admin from to timestamp flags offset (l_ThisRow pldLast)
        in case VerifyConsensus np s True pldRow pldLast of
             None \<Rightarrow> None
           | Some (err, row, remaining) \<Rightarrow>
               (if err \<noteq> MC_ERR_NOERROR then Some (err, s)
                else if update_mempool
                  then Some (err, adjust_counts (mempool_add s row) lp a type lastAllowed)
                else Some (err, s)))"

text \<open>
  The loop over the types. A type that is one of several asked for is set by a recursive call with
  that type alone; the depth of the recursion is the fuel.
\<close>

fun set_loop ::
    "(mc_Permissions \<Rightarrow> (int \<times> mc_Permissions) option) \<Rightarrow>
     (u32 \<Rightarrow> mc_Permissions \<Rightarrow> (int \<times> mc_Permissions) option) \<Rightarrow>
     u32 \<Rightarrow> u32 list \<Rightarrow> int \<Rightarrow> mc_Permissions \<Rightarrow> (int \<times> mc_Permissions) option" where
  "set_loop single again type [] err s = Some (err, s)"
| "set_loop single again type (t # ts) err s =
     (if t AND type \<noteq> 0 then
        (case (if t = type then single s else again t s) of
           None \<Rightarrow> None
         | Some (err', s') \<Rightarrow>
             (if err' \<noteq> MC_ERR_NOERROR then Some (err', s')
              else set_loop single again type ts err' s'))
      else set_loop single again type ts err s)"

fun SetPermission_depth ::
    "nat \<Rightarrow> net_params \<Rightarrow> lp_entity \<Rightarrow> address \<Rightarrow> address \<Rightarrow> u32 \<Rightarrow> u32 \<Rightarrow> u32 \<Rightarrow> u32 \<Rightarrow> bool \<Rightarrow> int \<Rightarrow>
     u32 \<Rightarrow> mc_Permissions \<Rightarrow> (int \<times> mc_Permissions) option" where
  "SetPermission_depth 0 np lp a admin from to timestamp flags upd offset type s = None"
| "SetPermission_depth (Suc d) np lp a admin from to timestamp flags upd offset type s =
     set_loop (SetPermission_single np lp a type admin from to timestamp flags upd offset)
       (SetPermission_depth d np lp a admin from to timestamp flags upd offset) type
       (set_types np) MC_ERR_NOERROR s"

definition SetPermissionInternal ::
    "net_params \<Rightarrow> mc_Permissions \<Rightarrow> lp_entity \<Rightarrow> address \<Rightarrow> u32 \<Rightarrow> address \<Rightarrow> u32 \<Rightarrow> u32 \<Rightarrow> u32 \<Rightarrow> u32 \<Rightarrow>
     bool \<Rightarrow> int \<Rightarrow> (int \<times> mc_Permissions) option" where
  "SetPermissionInternal np s lp a type admin from to timestamp flags update_mempool offset =
     SetPermission_depth 2 np lp a admin from to timestamp flags update_mempool offset type s"

definition SetPermission ::
    "net_params \<Rightarrow> mc_Permissions \<Rightarrow> lp_entity \<Rightarrow> address \<Rightarrow> u32 \<Rightarrow> address \<Rightarrow> u32 \<Rightarrow> u32 \<Rightarrow> u32 \<Rightarrow> u32 \<Rightarrow>
     bool \<Rightarrow> int \<Rightarrow> (int \<times> mc_Permissions) option" where
  "SetPermission np s lp a type admin from to timestamp flags update_mempool offset =
     (if (mc_IsNullEntity lp \<or> flags AND MC_PFL_ENTITY_GENESIS = 0) \<and>
         CanAdmin np s lp admin = 0 \<and>
         (if IsActivateEnough type then CanActivate np s lp admin = 0 else True)
      then Some (MC_ERR_NOT_ALLOWED, s)
      else SetPermissionInternal np s lp a type admin from to timestamp flags update_mempool offset)"

definition approval_to :: "u32 \<Rightarrow> u32" where
  "approval_to approval = (if approval \<noteq> 0 then -1 else 0)"

definition SetApproval ::
    "net_params \<Rightarrow> mc_Permissions \<Rightarrow> upgrade_id \<Rightarrow> u32 \<Rightarrow> address option \<Rightarrow> u32 \<Rightarrow> u32 \<Rightarrow> u32 \<Rightarrow> bool \<Rightarrow>
     int \<Rightarrow> (int \<times> mc_Permissions) option" where
  "SetApproval np s upgrade approval lpAdmin from timestamp flags update_mempool offset =
     (let e = Some upgrade_entity;
          first = (if fst (GetPermission5 s e 0 MC_PTP_CONNECT True) = 0
            then SetPermissionInternal np s e 0 MC_PTP_CONNECT 0 0 (-1) timestamp
                   MC_PFL_ENTITY_GENESIS update_mempool offset
            else Some (MC_ERR_NOERROR, s))
      in case first of
           None \<Rightarrow> None
         | Some (result, s1) \<Rightarrow>
             (if result = MC_ERR_NOERROR then
                (let address = upgrade_address upgrade
                 in case lpAdmin of
                      None \<Rightarrow> SetPermissionInternal np s1 e address MC_PTP_CONNECT address from
                                (approval_to approval) timestamp flags update_mempool offset
                    | Some admin \<Rightarrow>
                        (if IsApprovedInternal s1 upgrade False = 0
                         then SetPermissionInternal np s1 e address MC_PTP_UPGRADE admin from
                                (approval_to approval) timestamp flags update_mempool offset
                         else Some (result, s1)))
              else Some (result, s1)))"

definition SetCheckPoint :: "mc_Permissions \<Rightarrow> mc_Permissions" where
  "SetCheckPoint s =
     s\<lparr>p_CheckPointRow := p_Row s, p_CheckPointAdminCount := p_AdminCount s,
       p_CheckPointMinerCount := p_MinerCount s,
       p_CheckPointMemPoolSize := buf_GetCount (p_MemPool s)\<rparr>"

definition RollBackToCheckPoint :: "mc_Permissions \<Rightarrow> mc_Permissions" where
  "RollBackToCheckPoint s =
     s\<lparr>p_Row := p_CheckPointRow s, p_AdminCount := p_CheckPointAdminCount s,
       p_MinerCount := p_CheckPointMinerCount s,
       p_MemPool := buf_SetCount mem_key (p_MemPool s) (p_CheckPointMemPoolSize s)\<rparr>"

section \<open>States between blocks\<close>

text \<open>The states in which permissions are written: well formed, no failing call, no fork verification.\<close>

definition perm_good :: "mc_Permissions \<Rightarrow> bool" where
  "perm_good s \<longleftrightarrow> perm_wf s \<and> perm_healthy s \<and> p_CopiedRow s = 0"

definition allowed_set :: "mc_Permissions \<Rightarrow> u32 \<Rightarrow> address set" where
  "allowed_set s t = {a. log_allowed s (p_Row s) (DbKey null_entity a t)}"

definition counts_ok :: "mc_Permissions \<Rightarrow> bool" where
  "counts_ok s \<longleftrightarrow> p_AdminCount s = int (card (allowed_set s MC_PTP_ADMIN)) \<and>
     p_MinerCount s = int (card (allowed_set s MC_PTP_MINE))"

text \<open>The counters of the chain part, without the memory pool.\<close>

definition chain_allowed :: "mc_Permissions \<Rightarrow> u32 \<Rightarrow> address set" where
  "chain_allowed s t = {a. log_allowed s (ledger_used s) (DbKey null_entity a t)}"

definition cleared_ok :: "mc_Permissions \<Rightarrow> bool" where
  "cleared_ok s \<longleftrightarrow> p_ClearedAdminCount s = int (card (chain_allowed s MC_PTP_ADMIN)) \<and>
     p_ClearedMinerCount s = int (card (chain_allowed s MC_PTP_MINE))"

text \<open>A step that only appends rows of the keys \<open>K\<close> to the log.\<close>

definition check_point :: "mc_Permissions \<Rightarrow> nat \<times> int \<times> int \<times> nat" where
  "check_point s = (p_CheckPointRow s, p_CheckPointAdminCount s, p_CheckPointMinerCount s,
     p_CheckPointMemPoolSize s)"

definition grants :: "db_key set \<Rightarrow> mc_Permissions \<Rightarrow> mc_Permissions \<Rightarrow> bool" where
  "grants K s s' \<longleftrightarrow> perm_good s' \<and> p_Block s' = p_Block s \<and> p_Database s' = p_Database s \<and>
     p_Ledger s' = p_Ledger s \<and> ledger_used s' = ledger_used s \<and> check_point s' = check_point s \<and>
     (counts_ok s \<longrightarrow> counts_ok s' \<and> (cleared_ok s \<longrightarrow> cleared_ok s')) \<and> (\<exists>rs. p_log s' = p_log s @ rs \<and> row_key ` set rs \<subseteq> K \<and>
       (\<forall>r\<in>set rs. l_BlockReceived r = next_block s))"

lemma grants_refl: "perm_good s \<Longrightarrow> grants K s s"
  by (simp add: grants_def)

lemma grants_trans: "grants K s s' \<Longrightarrow> grants K s' s'' \<Longrightarrow> grants K s s''"
  unfolding grants_def next_block_def by (elim conjE exE, intro conjI) (simp_all, auto)

lemma grants_mono: "grants K s s' \<Longrightarrow> K \<subseteq> K' \<Longrightarrow> grants K' s s'"
  unfolding grants_def by blast

lemma klast_frame:
  "R \<noteq> [] \<Longrightarrow> k \<notin> row_key ` set rs \<Longrightarrow> klast k (R @ rs) (length R + length rs) = klast k R (length R)"
proof (induction rs rule: rev_induct)
  case (snoc r rs)
  have "klast k ((R @ rs) @ [r]) (Suc (length (R @ rs))) = klast k (R @ rs) (length (R @ rs))"
    by (subst klast_snoc) (use snoc.prems in auto)
  with snoc show ?case by simp
qed simp

lemma log_rows_frame:
  assumes "perm_wf s" and "perm_wf s'" and "p_log s' = p_log s @ rs" and "k \<notin> row_key ` set rs"
  shows "klast k (p_log s') (p_Row s') = klast k (p_log s) (p_Row s)"
    and "log_from (p_log s') (p_Row s') k = log_from (p_log s) (p_Row s) k"
    and "log_to (p_log s') (p_Row s') k = log_to (p_log s) (p_Row s) k"
proof -
  have len: "p_Row s = length (p_log s)" "p_Row s' = length (p_log s')"
    using perm_wf_length(1) [OF assms(1)] perm_wf_length(1) [OF assms(2)] by simp_all
  have ne: "p_log s \<noteq> []" using assms(1) by (simp add: perm_wf_def wf_log_def)
  show kl: "klast k (p_log s') (p_Row s') = klast k (p_log s) (p_Row s)"
    unfolding len using klast_frame [OF ne assms(4)] assms(3) by simp
  have "klast k (p_log s) (p_Row s) < length (p_log s)" using ne by (simp add: klast_less len)
  then show "log_from (p_log s') (p_Row s') k = log_from (p_log s) (p_Row s) k"
    and "log_to (p_log s') (p_Row s') k = log_to (p_log s) (p_Row s) k"
    using kl assms(3) by (simp_all add: log_row_defs nth_append)
qed

lemma grants_frame:
  assumes "perm_good s" and "grants K s s'" and "k \<notin> K"
  shows "log_allowed s' (p_Row s') k = log_allowed s (p_Row s) k"
proof -
  obtain rs where rs: "p_log s' = p_log s @ rs" "row_key ` set rs \<subseteq> K"
    using assms(2) by (auto simp: grants_def)
  then have "k \<notin> row_key ` set rs" using assms(3) by blast
  from log_rows_frame [OF _ _ rs(1) this] assms(1,2) show ?thesis
    by (simp add: log_allowed_def next_block_def grants_def perm_good_def)
qed

lemma GetPermission5_log:
  assumes "perm_good s" and "log_key (DbKey (lp_deref lp) a t)"
  shows "fst (GetPermission5 s lp a t True) =
      (if log_allowed s (p_Row s) (DbKey (lp_deref lp) a t) then t else 0)"
    and "shows_log (p_log s) (p_Row s) (DbKey (lp_deref lp) a t) (snd (GetPermission5 s lp a t True))"
  using assms GetPermissionRow_log [of s _ "lp_deref lp" a t "p_Row s" True]
  by (simp_all add: perm_good_def GetPermission5_def)

lemma GetPermission_log:
  "perm_good s \<Longrightarrow> log_key (DbKey (lp_deref lp) a t) \<Longrightarrow>
   GetPermission s lp a t = (if log_allowed s (p_Row s) (DbKey (lp_deref lp) a t) then t else 0)"
  by (simp add: GetPermission_def GetPermission5_log)

section \<open>Appending a row\<close>

lemma mempool_add_fields [simp]:
  "p_MemPool (mempool_add s row) = buf_Add mem_key (p_MemPool s) row"
  "p_Row (mempool_add s row) = Suc (p_Row s)"
  "p_Ledger (mempool_add s row) = p_Ledger s" "p_Database (mempool_add s row) = p_Database s"
  "p_Block (mempool_add s row) = p_Block s" "p_CopiedRow (mempool_add s row) = p_CopiedRow s"
  "check_point (mempool_add s row) = check_point s"
  "p_AdminCount (mempool_add s row) = p_AdminCount s" "p_MinerCount (mempool_add s row) = p_MinerCount s"
  by (simp_all add: mempool_add_def Let_def check_point_def)

lemma m_Count_Add [simp]: "m_Count (buf_Add kf b r) = Suc (m_Count b)"
  using arg_cong [OF buf_rows_Add [of kf b r], of length] by simp

lemma mempool_add_log:
  assumes "perm_wf s"
  shows "p_log (mempool_add s row) = p_log s @ [row]"
    and "ledger_used (mempool_add s row) = ledger_used s"
proof -
  show u: "ledger_used (mempool_add s row) = ledger_used s" by (simp add: ledger_used_def)
  show "p_log (mempool_add s row) = p_log s @ [row]" by (simp add: p_log_def u buf_rows_Add)
qed

lemma db_mirrors_append:
  "n \<le> length R \<Longrightarrow> db_mirrors db (R @ S) n = db_mirrors db R n"
proof -
  assume "n \<le> length R"
  then have "log_val (R @ S) n k = log_val R n k" for k
    using klast_le [of k R n] klast_less [of n k R] by (cases "n = 0") (auto simp: log_val_def Let_def nth_append)
  then show ?thesis by (simp add: db_mirrors_def)
qed

lemma chain_allowed_append:
  assumes "perm_wf s" and "p_log s' = p_log s @ rs" and "ledger_used s' = ledger_used s" and "p_Block s' = p_Block s"
  shows "chain_allowed s' t = chain_allowed s t"
proof -
  have le: "ledger_used s \<le> length (p_log s)" "0 < ledger_used s" using perm_wf_length [OF assms(1)] by simp_all
  have "(p_log s @ rs) ! klast k (p_log s) (ledger_used s) = p_log s ! klast k (p_log s) (ledger_used s)" for k
    using klast_less [OF le(2), of k "p_log s"] le(1) by (simp add: nth_append)
  then show ?thesis
    using le(1) by (simp add: chain_allowed_def log_allowed_def log_row_defs next_block_def assms(2-4))
qed

lemma chain_allowed_empty: "m_Count (p_MemPool s) = 0 \<Longrightarrow> chain_allowed s t = allowed_set s t"
  by (simp add: chain_allowed_def allowed_set_def ledger_used_def)

definition counts_saved :: "mc_Permissions \<Rightarrow> bool" where
  "counts_saved s \<longleftrightarrow> p_ClearedAdminCount s = p_AdminCount s \<and> p_ClearedMinerCount s = p_MinerCount s"

lemma counts_saved_cleared: "counts_saved s \<Longrightarrow> counts_ok s \<Longrightarrow> m_Count (p_MemPool s) = 0 \<Longrightarrow> cleared_ok s"
  by (simp add: counts_saved_def counts_ok_def cleared_ok_def chain_allowed_empty)

text \<open>The first row in the pool saves the counters, which until then are those of the chain part.\<close>

lemma mempool_add_cleared:
  assumes wf: "perm_wf s" and nc: "p_CopiedRow s = 0" and ok: "counts_ok s" "cleared_ok s"
  shows "cleared_ok (mempool_add s row)"
proof -
  have "chain_allowed (mempool_add s row) t = chain_allowed s t" for t
    by (rule chain_allowed_append [OF wf mempool_add_log(1) [OF wf] mempool_add_log(2) [OF wf]]) simp
  moreover have "p_ClearedAdminCount (mempool_add s row) = (if m_Count (p_MemPool s) = 0 then p_AdminCount s else p_ClearedAdminCount s)"
    "p_ClearedMinerCount (mempool_add s row) = (if m_Count (p_MemPool s) = 0 then p_MinerCount s else p_ClearedMinerCount s)"
    using nc by (simp_all add: mempool_add_def Let_def buf_GetCount_def)
  ultimately show ?thesis
    using ok by (auto simp: cleared_ok_def counts_ok_def chain_allowed_empty)
qed

lemma mempool_add_wf:
  assumes wf: "perm_wf s" and row: "l_ThisRow row = p_Row s" "log_key (row_key row)"
    "l_PrevRow row = klast (row_key row) (p_log s) (p_Row s)"
  shows "perm_wf (mempool_add s row)"
proof -
  note len = perm_wf_length [OF wf]
  have "wf_log (p_log s @ [row])"
    using wf row len(1) by (intro wf_log_snoc) (auto simp: perm_wf_def)
  then show ?thesis
    using wf len by (simp add: perm_wf_def mempool_add_log [OF wf] db_mirrors_append)
qed

lemma finite_allowed_set: "perm_wf s \<Longrightarrow> finite (allowed_set s t)"
proof (rule finite_subset)
  assume wf: "perm_wf s"
  show "finite (l_Address ` set (p_log s))" by simp
  show "allowed_set s t \<subseteq> l_Address ` set (p_log s)"
  proof
    fix a
    let ?k = "DbKey null_entity a t"
    assume "a \<in> allowed_set s t"
    then have j: "0 < klast ?k (p_log s) (p_Row s)"
      by (auto simp: allowed_set_def log_allowed_def log_row_defs split: if_splits)
    then have "row_key (p_log s ! klast ?k (p_log s) (p_Row s)) = ?k" by (rule klast_key)
    then have "a = l_Address (p_log s ! klast ?k (p_log s) (p_Row s))" by (simp add: row_key_def)
    moreover have "klast ?k (p_log s) (p_Row s) < length (p_log s)"
      using perm_wf_length [OF wf] j by (simp add: klast_less)
    ultimately show "a \<in> l_Address ` set (p_log s)"
      by (intro rev_image_eqI [OF nth_mem])
  qed
qed

section \<open>Writing one type\<close>

lemma allowed_set_mem: "a \<in> allowed_set s t \<longleftrightarrow> log_allowed s (p_Row s) (DbKey null_entity a t)"
  by (simp add: allowed_set_def)

lemma allowed_set_step:
  assumes good: "perm_good s" and wf': "perm_wf s'" and blk: "p_Block s' = p_Block s"
    and log: "p_log s' = p_log s @ [row]" and key: "row_key row = DbKey e a t"
  shows "b \<in> allowed_set s' u \<longleftrightarrow>
     (if e = null_entity \<and> b = a \<and> u = t then a \<in> allowed_set s' t else b \<in> allowed_set s u)"
proof (cases "e = null_entity \<and> b = a \<and> u = t")
  case False
  then have "DbKey null_entity b u \<notin> row_key ` set [row]" using key by auto
  from log_rows_frame [OF _ wf' log this] good blk show ?thesis
    using False by (auto simp: allowed_set_mem log_allowed_def next_block_def perm_good_def)
qed auto

lemma card_allowed_step:
  assumes "finite A" and "\<And>b. b \<in> A' \<longleftrightarrow> (if b = a then new else b \<in> A)"
  shows "int (card A') = int (card A) + (if new = (a \<in> A) then 0 else if a \<in> A then -1 else 1)"
proof (cases new)
  case True
  have "A' = insert a A" by (rule set_eqI) (simp add: assms(2) True)
  then show ?thesis using True assms(1) by (simp add: card_insert_if)
next
  case False
  have "A' = A - {a}" by (rule set_eqI) (simp add: assms(2) False)
  then show ?thesis using False assms(1) card_Suc_Diff1 [of A a] by (cases "a \<in> A") auto
qed

lemma adjust_counts_other [simp]:
  "p_MemPool (adjust_counts s lp a t la) = p_MemPool s" "p_Row (adjust_counts s lp a t la) = p_Row s"
  "p_Ledger (adjust_counts s lp a t la) = p_Ledger s" "p_Database (adjust_counts s lp a t la) = p_Database s"
  "p_Block (adjust_counts s lp a t la) = p_Block s" "p_CopiedRow (adjust_counts s lp a t la) = p_CopiedRow s"
  "check_point (adjust_counts s lp a t la) = check_point s"
  by (simp_all add: adjust_counts_def Let_def check_point_def)

lemma state_eq_log:
  assumes "p_MemPool s' = p_MemPool s" and "p_Row s' = p_Row s" and "p_Ledger s' = p_Ledger s"
    and "p_Database s' = p_Database s" and "p_Block s' = p_Block s" and "p_CopiedRow s' = p_CopiedRow s"
  shows "p_log s' = p_log s" and "perm_good s' = perm_good s" and "perm_wf s' = perm_wf s"
    and "allowed_set s' t = allowed_set s t" and "ledger_used s' = ledger_used s"
  using assms by (simp_all add: p_log_def ledger_used_def perm_good_def perm_wf_def perm_healthy_def
      allowed_set_def log_allowed_def next_block_def)

lemma adjust_counts_ok:
  assumes good: "perm_good s" and good': "perm_good s'" and blk: "p_Block s' = p_Block s"
    and counts: "p_AdminCount s' = p_AdminCount s" "p_MinerCount s' = p_MinerCount s"
    and log: "p_log s' = p_log s @ [row]" and key: "row_key row = DbKey (lp_deref lp) a t"
    and k: "log_key (DbKey (lp_deref lp) a t)" "t \<noteq> 0" and ok: "counts_ok s"
    and la: "la = (if log_allowed s (p_Row s) (DbKey (lp_deref lp) a t) then t else 0)"
  shows "counts_ok (adjust_counts s' lp a t la)"
proof -
  have wf': "perm_wf s'" and fin: "finite (allowed_set s u)" for u
    using good good' finite_allowed_set by (simp_all add: perm_good_def)
  note st = allowed_set_step [OF good wf' blk log key]
  have null: "mc_IsNullEntity lp = (lp_deref lp = null_entity)"
    by (auto simp: mc_IsNullEntity_def lp_deref_def split: option.splits)
  have same: "card (allowed_set s' u) = card (allowed_set s u)" if "\<not> (lp_deref lp = null_entity \<and> u = t)" for u
    by (rule arg_cong [of _ _ card]) (use that st in auto)
  have upd: "int (card (allowed_set s' t)) = int (card (allowed_set s t)) +
      (if (a \<in> allowed_set s' t) = (a \<in> allowed_set s t) then 0 else if a \<in> allowed_set s t then -1 else 1)"
    if "lp_deref lp = null_entity"
    by (rule card_allowed_step [OF fin]) (use that st [of _ t] in auto)
  have get: "GetPermission s' lp a t = (if a \<in> allowed_set s' t then t else 0)"
    and la': "la = (if a \<in> allowed_set s t then t else 0)" if "lp_deref lp = null_entity"
    using that GetPermission_log [OF good' k(1)] la by (simp_all add: allowed_set_mem)
  let ?s = "adjust_counts s' lp a t la"
  have set_eq: "allowed_set ?s u = allowed_set s' u" for u by (rule state_eq_log) simp_all
  show ?thesis
  proof (cases "lp_deref lp = null_entity \<and> (t = MC_PTP_ADMIN \<or> t = MC_PTP_MINE)")
    case True
    then show ?thesis
      using ok counts upd get la' null k(2) same [of MC_PTP_ADMIN] same [of MC_PTP_MINE]
      unfolding counts_ok_def set_eq by (auto simp: adjust_counts_def Let_def)
  next
    case False
    then have "?s = s'" by (auto simp: adjust_counts_def null)
    then show ?thesis using ok counts same False by (auto simp: counts_ok_def)
  qed
qed

text \<open>Does a new row take effect: does it need no votes, or has it enough?\<close>

definition granted :: "net_params \<Rightarrow> mc_Permissions \<Rightarrow> ledger_row \<Rightarrow> bool" where
  "granted np s newRow \<longleftrightarrow>
     (let c = AdminConsensus np s (Some (l_Entity newRow)) (l_Type newRow);
          row = newRow\<lparr>l_Consensus := word_of_int c\<rparr>
      in c \<le> 1 \<or> reached c row [] (row # pending_rows (p_log s) (row_key row) (p_Row s)))"

definition voted_row :: "net_params \<Rightarrow> mc_Permissions \<Rightarrow> ledger_row \<Rightarrow> ledger_row" where
  "voted_row np s newRow =
     (if granted np s newRow
      then newRow\<lparr>l_Consensus := word_of_int (AdminConsensus np s (Some (l_Entity newRow)) (l_Type newRow))\<rparr>
      else newRow\<lparr>l_Consensus := 0, l_BlockFrom := log_from (p_log s) (p_Row s) (row_key newRow),
             l_BlockTo := log_to (p_log s) (p_Row s) (row_key newRow)\<rparr>)"

lemma voted_row_fields [simp]:
  "row_key (voted_row np s r) = row_key r" "l_ThisRow (voted_row np s r) = l_ThisRow r"
  "l_PrevRow (voted_row np s r) = l_PrevRow r" "l_BlockReceived (voted_row np s r) = l_BlockReceived r"
  by (simp_all add: voted_row_def row_key_def)

lemma new_row_fields [simp]:
  "row_key (new_row s lp a t adm from to ts fl off prev) = DbKey (lp_deref lp) a t"
  "l_ThisRow (new_row s lp a t adm from to ts fl off prev) = p_Row s"
  "l_PrevRow (new_row s lp a t adm from to ts fl off prev) = prev"
  "l_BlockFrom (new_row s lp a t adm from to ts fl off prev) = from"
  "l_BlockTo (new_row s lp a t adm from to ts fl off prev) = to"
  "l_Entity (new_row s lp a t adm from to ts fl off prev) = lp_deref lp"
  "l_Type (new_row s lp a t adm from to ts fl off prev) = t"
  "l_BlockReceived (new_row s lp a t adm from to ts fl off prev) = next_block s"
  by (simp_all add: new_row_def row_key_def next_block_def)

lemma VerifyConsensus_row:
  assumes good: "perm_good s" and k: "log_key k" "row_key newRow = k"
    and prev: "l_PrevRow newRow = klast k (p_log s) (p_Row s)"
    and last: "shows_log (p_log s) (p_Row s) k lastRow"
  shows "\<exists>remaining. VerifyConsensus np s True newRow lastRow =
     Some (MC_ERR_NOERROR, voted_row np s newRow, remaining)"
proof -
  have "perm_wf s" "perm_healthy s" using good by (simp_all add: perm_good_def)
  note v = VerifyConsensus_votes [OF this k prev refl refl refl, of np lastRow]
  have key: "row_key (newRow\<lparr>l_Consensus := c\<rparr>) = k" for c using k(2) by (simp add: row_key_def)
  show ?thesis
    using last k(2) unfolding v
    by (auto simp: voted_row_def granted_def Let_def key consensus_revert_def shows_log_def)
qed

lemma SetPermission_single_log:
  assumes good: "perm_good s" and k: "log_key (DbKey (lp_deref lp) a t)"
    and prev: "prev = klast (DbKey (lp_deref lp) a t) (p_log s) (p_Row s)"
    and row: "row = voted_row np s (new_row s lp a t admin from to ts flags offset prev)"
  shows "\<exists>s'. SetPermission_single np lp a t admin from to ts flags upd offset s = Some (MC_ERR_NOERROR, s') \<and>
     grants {DbKey (lp_deref lp) a t} s s' \<and> p_log s' = (if upd then p_log s @ [row] else p_log s)"
proof -
  let ?k = "DbKey (lp_deref lp) a t"
  obtain la last where g: "GetPermission5 s lp a t True = (la, last)" by (cases "GetPermission5 s lp a t True")
  have la: "la = (if log_allowed s (p_Row s) ?k then t else 0)"
    and last: "shows_log (p_log s) (p_Row s) ?k last"
    using GetPermission5_log [OF good k] g by simp_all
  have num: "l_ThisRow last = prev" using last prev by (simp add: shows_log_def)
  obtain rem where v: "VerifyConsensus np s True (new_row s lp a t admin from to ts flags offset prev) last =
      Some (MC_ERR_NOERROR, row, rem)"
    using VerifyConsensus_row [OF good k _ _ last, of "new_row s lp a t admin from to ts flags offset prev" np]
      prev row by auto
  let ?m = "mempool_add s row"
  let ?s = "adjust_counts ?m lp a t la"
  have wf: "perm_wf s" using good by (simp add: perm_good_def)
  have key: "row_key row = ?k" using row by simp
  have wf': "perm_wf ?m"
    by (rule mempool_add_wf [OF wf]) (use row prev k in simp_all)
  then have good': "perm_good ?m"
    using good by (simp add: perm_good_def perm_healthy_def)
  have eq: "p_log ?s = p_log s @ [row]" "perm_good ?s" "ledger_used ?s = ledger_used s"
    using state_eq_log(1,2,5) [of ?s ?m] mempool_add_log [OF wf, of row] good' by simp_all
  have "counts_ok s \<longrightarrow> counts_ok ?s"
    using adjust_counts_ok [OF good good' _ _ _ _ key k _ _ la] mempool_add_log(1) [OF wf, of row] k
    by (auto simp: log_key_def)
  moreover have "cleared_ok ?s" if "counts_ok s" "cleared_ok s"
  proof -
    have "p_CopiedRow s = 0" using good by (simp add: perm_good_def)
    from mempool_add_cleared [OF wf this that, of row] have "cleared_ok ?m" .
    moreover have "chain_allowed ?s x = chain_allowed ?m x" for x
      by (rule chain_allowed_append [OF wf', where rs = "[]"])
        (use eq mempool_add_log [OF wf, of row] in simp_all)
    moreover have "p_ClearedAdminCount ?s = p_ClearedAdminCount ?m" "p_ClearedMinerCount ?s = p_ClearedMinerCount ?m"
      by (simp_all add: adjust_counts_def Let_def)
    ultimately show ?thesis by (simp add: cleared_ok_def)
  qed
  ultimately have "grants {?k} s ?s" using eq key row by (simp add: grants_def)
  moreover have "SetPermission_single np lp a t admin from to ts flags upd offset s =
      Some (MC_ERR_NOERROR, if upd then ?s else s)"
    using g v num by (simp add: SetPermission_single_def Let_def)
  ultimately show ?thesis using eq(1) grants_refl [OF good] by (cases upd) auto
qed

section \<open>Writing several types\<close>

lemma set_types_disjoint:
  "t \<in> set (set_types np) \<Longrightarrow> u \<in> set (set_types np) \<Longrightarrow> u AND t \<noteq> 0 \<longleftrightarrow> u = t"
  by (auto simp: set_types_def split: if_splits)

lemma set_types_log_key:
  "t \<in> set (set_types np) \<Longrightarrow> e \<noteq> adminminerlist_entity \<Longrightarrow> log_key (DbKey e a t)"
  by (auto simp: set_types_def log_key_def split: if_splits)

lemma set_loop_grants:
  assumes step: "\<And>s t. perm_good s \<Longrightarrow> t \<in> set ts \<Longrightarrow> t AND type \<noteq> 0 \<Longrightarrow>
      \<exists>s'. (if t = type then single s else again t s) = Some (MC_ERR_NOERROR, s') \<and> grants K s s'"
    and good: "perm_good s"
  shows "\<exists>s'. set_loop single again type ts MC_ERR_NOERROR s = Some (MC_ERR_NOERROR, s') \<and> grants K s s'"
  using step good
proof (induction ts arbitrary: s)
  case Nil
  then show ?case by (simp add: grants_refl)
next
  case (Cons t ts)
  show ?case
  proof (cases "t AND type = 0")
    case True
    then show ?thesis using Cons by simp
  next
    case False
    then obtain s1 where s1: "(if t = type then single s else again t s) = Some (MC_ERR_NOERROR, s1)"
      "grants K s s1" using Cons.prems(1) [OF Cons.prems(2), of t] by auto
    then have good1: "perm_good s1" by (simp add: grants_def)
    have "\<exists>s'. set_loop single again type ts MC_ERR_NOERROR s1 = Some (MC_ERR_NOERROR, s') \<and> grants K s1 s'"
      by (rule Cons.IH [OF _ good1]) (use Cons.prems(1) in auto)
    then show ?thesis using False s1 grants_trans by fastforce
  qed
qed

lemma SetPermission_depth_1:
  assumes good: "perm_good s" and t: "t \<in> set (set_types np)" and e: "lp_deref lp \<noteq> adminminerlist_entity"
  shows "\<exists>s'. SetPermission_depth (Suc d) np lp a admin from to ts flags upd offset t s =
     Some (MC_ERR_NOERROR, s') \<and> grants {DbKey (lp_deref lp) a t} s s'"
  unfolding SetPermission_depth.simps
proof (rule set_loop_grants [OF _ good])
  fix s u
  assume s: "perm_good s" and "u \<in> set (set_types np)" "u AND t \<noteq> 0"
  with t have "u = t" using set_types_disjoint by blast
  with SetPermission_single_log [OF s set_types_log_key [OF t e] refl refl]
  show "\<exists>s'. (if u = t then SetPermission_single np lp a t admin from to ts flags upd offset s
      else SetPermission_depth d np lp a admin from to ts flags upd offset u s) = Some (MC_ERR_NOERROR, s') \<and>
      grants {DbKey (lp_deref lp) a t} s s'" by fastforce
qed

text \<open>The keys a call with the types \<open>type\<close> may write.\<close>

definition set_keys :: "net_params \<Rightarrow> lp_entity \<Rightarrow> address \<Rightarrow> u32 \<Rightarrow> db_key set" where
  "set_keys np lp a type = {DbKey (lp_deref lp) a t |t. t \<in> set (set_types np) \<and> t AND type \<noteq> 0}"

lemma SetPermissionInternal_grants:
  assumes good: "perm_good s" and e: "lp_deref lp \<noteq> adminminerlist_entity"
  shows "\<exists>s'. SetPermissionInternal np s lp a type admin from to ts flags upd offset =
     Some (MC_ERR_NOERROR, s') \<and> grants (set_keys np lp a type) s s'"
  unfolding SetPermissionInternal_def numeral_2_eq_2 SetPermission_depth.simps(2) [of "Suc 0"]
proof (rule set_loop_grants [OF _ good])
  fix s t
  assume s: "perm_good s" and t: "t \<in> set (set_types np)" and tt: "t AND type \<noteq> 0"
  have "DbKey (lp_deref lp) a t \<in> set_keys np lp a type" using t tt by (auto simp: set_keys_def)
  then have sub: "{DbKey (lp_deref lp) a t} \<subseteq> set_keys np lp a type" by simp
  show "\<exists>s'. (if t = type then SetPermission_single np lp a type admin from to ts flags upd offset s
      else SetPermission_depth (Suc 0) np lp a admin from to ts flags upd offset t s) =
        Some (MC_ERR_NOERROR, s') \<and> grants (set_keys np lp a type) s s'"
  proof (cases "t = type")
    case True
    with SetPermission_single_log [OF s set_types_log_key [OF t e] refl refl]
    show ?thesis using grants_mono [OF _ sub] by fastforce
  next
    case False
    with SetPermission_depth_1 [OF s t e] show ?thesis using grants_mono [OF _ sub] by fastforce
  qed
qed

text \<open>A call with one type of the list writes exactly one row.\<close>

lemma set_loop_skip:
  "(\<And>u. u \<in> set us \<Longrightarrow> u AND t = 0) \<Longrightarrow> set_loop single again t us e s = Some (e, s)"
  by (induction us) auto

lemma set_loop_one:
  assumes "distinct ts" and "\<And>u. u \<in> set ts \<Longrightarrow> u AND t \<noteq> 0 \<longleftrightarrow> u = t"
  shows "set_loop single again t ts MC_ERR_NOERROR s =
     (if t \<in> set ts then single s else Some (MC_ERR_NOERROR, s))"
  using assms
proof (induction ts)
  case (Cons u us)
  show ?case
  proof (cases "u = t")
    case True
    have "u' AND t = 0" if "u' \<in> set us" for u' using that Cons.prems True by auto
    then have "set_loop single again t us e s' = Some (e, s')" for e s' by (rule set_loop_skip)
    moreover have "u AND t \<noteq> 0" using Cons.prems(2) [of u] True by simp
    ultimately show ?thesis using True by (simp split: option.splits)
  next
    case False
    then have "u AND t = 0" using Cons.prems(2) [of u] by simp
    with False Cons show ?thesis by simp
  qed
qed simp

lemma distinct_set_types: "distinct (set_types np)"
  by (simp add: set_types_def)

lemma SetPermissionInternal_one:
  assumes "t \<in> set (set_types np)"
  shows "SetPermissionInternal np s lp a t admin from to ts flags upd offset =
     SetPermission_single np lp a t admin from to ts flags upd offset s"
  unfolding SetPermissionInternal_def numeral_2_eq_2 SetPermission_depth.simps(2) [of "Suc 0"]
  using set_loop_one [OF distinct_set_types set_types_disjoint [OF assms]] assms by simp

section \<open>Checkpoints\<close>

lemma RollBackToCheckPoint_grants:
  assumes good: "perm_good s" and g: "grants K (SetCheckPoint s) s'"
  shows "p_log (RollBackToCheckPoint s') = p_log s" and "perm_good (RollBackToCheckPoint s')"
    and "p_Row (RollBackToCheckPoint s') = p_Row s" and "p_AdminCount (RollBackToCheckPoint s') = p_AdminCount s"
    and "p_MinerCount (RollBackToCheckPoint s') = p_MinerCount s"
    and "buf_rows (p_MemPool (RollBackToCheckPoint s')) = buf_rows (p_MemPool s)"
    and "p_Database (RollBackToCheckPoint s') = p_Database s" and "p_Block (RollBackToCheckPoint s') = p_Block s"
proof -
  let ?r = "RollBackToCheckPoint s'" and ?n = "m_Count (p_MemPool s)"
  have cp: "p_CheckPointRow s' = p_Row s" "p_CheckPointAdminCount s' = p_AdminCount s"
    "p_CheckPointMinerCount s' = p_MinerCount s" "p_CheckPointMemPoolSize s' = ?n"
    using g by (simp_all add: grants_def check_point_def SetCheckPoint_def buf_GetCount_def)
  have same: "p_log (SetCheckPoint s) = p_log s" "perm_good (SetCheckPoint s) = perm_good s"
    "ledger_used (SetCheckPoint s) = ledger_used s" "p_Ledger (SetCheckPoint s) = p_Ledger s"
    "p_Database (SetCheckPoint s) = p_Database s" "p_Block (SetCheckPoint s) = p_Block s"
    by (rule state_eq_log | simp add: SetCheckPoint_def)+
  have wf: "perm_wf s" and wf': "perm_wf s'" and good': "perm_good s'"
    using good g by (simp_all add: perm_good_def grants_def)
  obtain rs where rs: "p_log s' = p_log s @ rs" and L: "ledger_used s' = ledger_used s" "p_Ledger s' = p_Ledger s"
    using g same by (auto simp: grants_def)
  have ok: "buf_ok mem_key (p_MemPool s')" using wf' by (simp add: perm_wf_def)
  have mem: "buf_rows (p_MemPool s') = buf_rows (p_MemPool s) @ rs"
    using rs L by (simp add: p_log_def)
  then have n: "?n \<le> m_Count (p_MemPool s')" by (metis length_append length_buf_rows le_add1)
  show rows: "buf_rows (p_MemPool ?r) = buf_rows (p_MemPool s)"
    using mcb.rows_cut [OF ok, of ?n] n mem cp by (simp add: RollBackToCheckPoint_def)
  have okr: "buf_ok mem_key (p_MemPool ?r)"
    using mcb.ok_cut [OF ok, of ?n] n cp by (simp add: RollBackToCheckPoint_def)
  have cnt: "m_Count (p_MemPool ?r) = ?n" using arg_cong [OF rows, of length] by simp
  show row: "p_Row ?r = p_Row s" and "p_AdminCount ?r = p_AdminCount s" and "p_MinerCount ?r = p_MinerCount s"
    by (simp_all add: RollBackToCheckPoint_def cp)
  have Lr: "ledger_used ?r = ledger_used s" using row cnt by (simp add: ledger_used_def)
  show log: "p_log ?r = p_log s" unfolding p_log_def Lr rows using L by (simp add: RollBackToCheckPoint_def)
  have db: "p_Database ?r = p_Database s" "p_Ledger ?r = p_Ledger s" "p_CopiedRow ?r = 0" "p_Block ?r = p_Block s"
    using g L good' same by (simp_all add: RollBackToCheckPoint_def grants_def perm_good_def)
  then show "p_Database ?r = p_Database s" and "p_Block ?r = p_Block s" by simp_all
  show "perm_good ?r"
    using good wf okr unfolding perm_good_def perm_wf_def perm_healthy_def log Lr db row cnt by simp
qed

end
