(* ===== verification/Perm_Counts.thy ===== *)
theory Perm_Counts
  imports Perm_Set
begin

text \<open>
  The recount of admins and miners, clearing, copying and restoring the memory pool, and the moves of
  the chain pointers for the verification of miners on a fork (\<^verbatim>\<open>src/src/permissions/permission.cpp\<close>).
  The recount goes through an index of all admin and miner addresses kept in the database under the
  entity \<open>adminminerlist_entity\<close>; it is shown to count the allowed addresses.
\<close>

section \<open>Block rows\<close>

text \<open>The address of a block's index row: \<^verbatim>\<open>sprintf(address,"Block %08X row",block)\<close> in 20 zeroed bytes.\<close>

definition hex_digit :: "u32 \<Rightarrow> u8" where
  "hex_digit d = (if d < 10 then 48 + ucast d else 55 + ucast d)"

definition hex8 :: "u32 \<Rightarrow> u8 list" where
  "hex8 b = map (\<lambda>i. hex_digit (take_bit 4 (drop_bit (4 * i) b))) [7, 6, 5, 4, 3, 2, 1, 0]"

definition address_of_bytes :: "u8 list \<Rightarrow> address" where
  "address_of_bytes bs = word_of_int (foldl (\<lambda>x b. x * 256 + uint b) 0 bs)"

definition block_address :: "u32 \<Rightarrow> address" where
  "block_address b =
     address_of_bytes ([66, 108, 111, 99, 107, 32] @ hex8 b @ [32, 114, 111, 119] @ [0, 0])"

section \<open>The recount\<close>

text \<open>
  \<open>FindLastAllowedMinerRow\<close>. The previous row's number, an absolute one, is used as an index into the
  memory pool, as in the code; a pool row out of range is what lies in the pool's memory. \<open>None\<close>: the
  walk has not stopped after as many steps as there are rows.
\<close>

fun last_allowed_walk :: "nat \<Rightarrow> mc_Permissions \<Rightarrow> u32 \<Rightarrow> ledger_row \<Rightarrow> ledger_row option" where
  "last_allowed_walk 0 s block pld = None"
| "last_allowed_walk (Suc n) s block pld =
     (if ledger_used s \<le> l_ThisRow pld \<and> block \<le> l_BlockReceived pld \<and> 0 < l_PrevRow pld
      then last_allowed_walk n s block (buf_GetRow (p_MemPool s) (l_PrevRow pld))
      else Some pld)"

definition FindLastAllowedMinerRow :: "mc_Permissions \<Rightarrow> ledger_row \<Rightarrow> u32 \<Rightarrow> u32 \<Rightarrow> u32 option" where
  "FindLastAllowedMinerRow s row block prev_result =
     (if l_ThisRow row < ledger_used s then Some prev_result
      else if l_BlockReceived row < block then Some prev_result
      else case last_allowed_walk (Suc (p_Row s)) s block row of
        None \<Rightarrow> None
      | Some pld \<Rightarrow>
          (if l_PrevRow pld = 0 then Some 0
           else if l_ThisRow pld < ledger_used s \<and> \<not> lg_CanOpen (p_Ledger s) then Some 0
           else
             (let pld' = (if l_ThisRow pld < ledger_used s
                          then snd (ledger_GetRow (p_Ledger s) (l_ThisRow pld) pld) else pld)
              in Some (if l_BlockFrom pld' \<le> block
                       then (if block < l_BlockTo pld' then MC_PTP_MINE else 0) else 0))))"

definition marker_key :: db_key where
  "marker_key = DbKey adminminerlist_entity 0 MC_PTP_CONNECT"

text \<open>One row of the index: does it add an admin, does it add a miner?\<close>

definition counts_admin :: "mc_Permissions \<Rightarrow> db_key \<Rightarrow> bool" where
  "counts_admin s k \<longleftrightarrow> dk_Type k = MC_PTP_ADMIN \<and> GetPermission s None (dk_Address k) MC_PTP_ADMIN \<noteq> 0"

definition counts_miner :: "mc_Permissions \<Rightarrow> db_key \<Rightarrow> bool option" where
  "counts_miner s k =
     (if dk_Type k = MC_PTP_MINE then
        (case GetPermission5 s None (dk_Address k) MC_PTP_MINE True of (result, row) \<Rightarrow>
           if 0 < p_CopiedRow s
           then map_option (\<lambda>r. r \<noteq> 0) (FindLastAllowedMinerRow s row (next_block s) result)
           else Some (result \<noteq> 0))
      else Some False)"

fun count_index :: "mc_Permissions \<Rightarrow> db_key list \<Rightarrow> int \<Rightarrow> int \<Rightarrow> (int \<times> int) option" where
  "count_index s [] admins miners = Some (admins, miners)"
| "count_index s (k # ks) admins miners =
     (if dk_Entity k = adminminerlist_entity then
        (case counts_miner s k of
           None \<Rightarrow> None
         | Some m \<Rightarrow> count_index s ks (if counts_admin s k then admins + 1 else admins)
                       (if m then miners + 1 else miners))
      else Some (admins, miners))"

text \<open>The first run builds the index from the permission rows.\<close>

definition index_row :: "db_key \<times> db_val \<Rightarrow> bool" where
  "index_row kv \<longleftrightarrow> (dk_Type (fst kv) = MC_PTP_ADMIN \<or> dk_Type (fst kv) = MC_PTP_MINE) \<and>
     dk_Entity (fst kv) = null_entity"

fun build_index ::
    "mc_Permissions \<Rightarrow> (db_key \<times> db_val) list \<Rightarrow> int \<times> mc_Permissions" where
  "build_index s [] = (MC_ERR_NOERROR, s)"
| "build_index s (kv # rows) =
     (if index_row kv then
        (let k = fst kv; v = perm_view (snd kv);
             w = db_Write (p_Database s) (DbKey adminminerlist_entity (dk_Address k) (dk_Type k)) (PermVal zero_val) True;
             s1 = s\<lparr>p_Database := snd w\<rparr>;
             here = InBlockRange (v_BlockFrom v) (v_BlockTo v) (word_of_int (p_Block s));
             s2 = (if here \<and> dk_Type k = MC_PTP_ADMIN then s1\<lparr>p_AdminCount := p_AdminCount s1 + 1\<rparr> else s1);
             s3 = (if here \<and> dk_Type k = MC_PTP_MINE then s2\<lparr>p_MinerCount := p_MinerCount s2 + 1\<rparr> else s2)
         in if fst w \<noteq> MC_ERR_NOERROR then (fst w, s1) else build_index s3 rows)
      else build_index s rows)"

definition first_count :: "mc_Permissions \<Rightarrow> int \<times> mc_Permissions" where
  "first_count s =
     (let w = db_Write (p_Database s) marker_key (PermVal zero_val) True;
          s1 = s\<lparr>p_Database := snd w\<rparr>
      in if fst w \<noteq> MC_ERR_NOERROR then (fst w, s1)
         else case db_Seek (p_Database s1) (DbKey 0 0 0) of (found, err) \<Rightarrow>
           if err \<noteq> MC_ERR_NOERROR then (err, s1)
           else case found of
             None \<Rightarrow> (MC_ERR_NOERROR, s1)
           | Some v \<Rightarrow>
               (case build_index s1 ((DbKey 0 0 0, v) # db_MoveNext_rows (p_Database s1) (DbKey 0 0 0)) of
                  (err', s2) \<Rightarrow>
                    if err' \<noteq> MC_ERR_NOERROR then (err', s2)
                    else (let c = db_Commit (p_Database s2) True
                          in (fst c, s2\<lparr>p_Database := snd c\<rparr>))))"

definition UpdateCounts :: "mc_Permissions \<Rightarrow> (int \<times> mc_Permissions) option" where
  "UpdateCounts s =
     (let s0 = s\<lparr>p_AdminCount := 0, p_MinerCount := 0\<rparr>
      in case db_Seek (p_Database s0) marker_key of
           (Some v, err) \<Rightarrow>
             (case count_index s0 (map fst (db_MoveNext_rows (p_Database s0) marker_key)) 0 0 of
                None \<Rightarrow> None
              | Some (admins, miners) \<Rightarrow>
                  Some (MC_ERR_NOERROR, s0\<lparr>p_AdminCount := admins, p_MinerCount := miners\<rparr>))
         | (None, err) \<Rightarrow> Some (first_count s0))"

section \<open>The memory pool\<close>

definition ClearMemPoolInternal :: "mc_Permissions \<Rightarrow> (int \<times> mc_Permissions) option" where
  "ClearMemPoolInternal s =
     (let cleared = (if buf_GetCount (p_MemPool s) \<noteq> 0 then
            map_option snd (UpdateCounts (s\<lparr>p_Row := p_Row s - buf_GetCount (p_MemPool s),
              p_MemPool := buf_Clear (p_MemPool s), p_AdminCount := p_ClearedAdminCount s,
              p_MinerCount := p_ClearedMinerCount s\<rparr>))
          else Some s)
      in map_option (\<lambda>s1. (MC_ERR_NOERROR,
           s1\<lparr>p_ClearedAdminCount := p_AdminCount s1, p_ClearedMinerCount := p_MinerCount s1,
             p_ClearedMinerCountForMinerVerification := p_MinerCount s1\<rparr>)) cleared)"

definition ClearMemPool :: "mc_Permissions \<Rightarrow> (int \<times> mc_Permissions) option" where
  "ClearMemPool s = ClearMemPoolInternal s"

definition CopyMemPool :: "mc_Permissions \<Rightarrow> int \<times> mc_Permissions" where
  "CopyMemPool s =
     (MC_ERR_NOERROR, s\<lparr>p_CopiedMemPool := buf_CopyFrom mem_key (p_CopiedMemPool s) (p_MemPool s),
        p_CopiedAdminCount := p_AdminCount s, p_CopiedMinerCount := p_MinerCount s\<rparr>)"

definition add_copied :: "mc_Permissions \<Rightarrow> mc_Permissions" where
  "add_copied s =
     s\<lparr>p_MemPool := foldl (\<lambda>b i. buf_Add mem_key b (buf_GetRow (p_CopiedMemPool s) i)) (p_MemPool s)
         [0..<buf_GetCount (p_CopiedMemPool s)],
       p_Row := p_Row s + buf_GetCount (p_CopiedMemPool s),
       p_AdminCount := p_CopiedAdminCount s, p_MinerCount := p_CopiedMinerCount s\<rparr>"

definition RestoreMemPool :: "mc_Permissions \<Rightarrow> (int \<times> mc_Permissions) option" where
  "RestoreMemPool s = map_option (\<lambda>(err, s1). (MC_ERR_NOERROR, add_copied s1)) (ClearMemPoolInternal s)"

section \<open>Miner verification\<close>

fun row_received_by :: "mc_PermissionLedger \<Rightarrow> u32 \<Rightarrow> nat \<Rightarrow> nat" where
  "row_received_by lg block 0 = 0"
| "row_received_by lg block (Suc n) =
     (if block < l_BlockReceived (snd (ledger_GetRow lg (Suc n) zero_row))
      then row_received_by lg block n else Suc n)"

text \<open>The pointers go back to the fork; the rows stay where they are.\<close>

definition RollBackBeforeMinerVerification :: "mc_Permissions \<Rightarrow> u32 \<Rightarrow> int \<times> mc_Permissions" where
  "RollBackBeforeMinerVerification s block =
     (if (word_of_int (p_Block s) :: u32) < block then (MC_ERR_INTERNAL_ERROR, s)
      else
        (let s1 = snd (CopyMemPool s);
             s2 = (if buf_GetCount (p_MemPool s1) \<noteq> 0 then
                     s1\<lparr>p_AdminCount := p_ClearedAdminCount s1, p_MinerCount := p_ClearedMinerCount s1,
                       p_Row := p_Row s1 - buf_GetCount (p_MemPool s1),
                       p_MemPool := buf_Clear (p_MemPool s1)\<rparr>
                   else s1);
             s3 = s2\<lparr>p_CopiedBlock := p_Block s2, p_CopiedRow := p_Row s2, p_ForkBlock := sint block,
                    p_ClearedMinerCountForMinerVerification := p_MinerCount s2\<rparr>
         in if block = word_of_int (p_Block s3) then (MC_ERR_NOERROR, s3)
            else if \<not> lg_CanOpen (p_Ledger s3) then (MC_ERR_DBOPEN_ERROR, s3)
            else
              (let this_row = row_received_by (p_Ledger s3) block (p_Row s3 - 1);
                   s4 = s3\<lparr>p_Row := this_row + 1, p_Block := sint block\<rparr>;
                   index = snd (GetPermission3 s4 (block_address block) MC_PTP_BLOCK_INDEX);
                   row = snd (ledger_GetRow (p_Ledger s4) (l_ThisRow index) index);
                   s5 = s4\<lparr>p_AdminCount := sint (bl_AdminCount row), p_MinerCount := sint (bl_MinerCount row)\<rparr>
               in (MC_ERR_NOERROR, s5\<lparr>p_ClearedMinerCountForMinerVerification := p_MinerCount s5\<rparr>))))"

definition RestoreAfterMinerVerification :: "mc_Permissions \<Rightarrow> int \<times> mc_Permissions" where
  "RestoreAfterMinerVerification s =
     (MC_ERR_NOERROR, add_copied (s\<lparr>p_MemPool := buf_Clear (p_MemPool s), p_Block := p_CopiedBlock s,
        p_ForkBlock := 0, p_Row := p_CopiedRow s, p_CopiedRow := 0, p_CopiedBlock := 0\<rparr>))"

definition IncrementBlock :: "mc_Permissions \<Rightarrow> u32 \<Rightarrow> (int \<times> mc_Permissions) option" where
  "IncrementBlock s admin_miner_count =
     (let s1 = s\<lparr>p_Block := p_Block s + 1\<rparr>;
          counted = (if admin_miner_count \<noteq> 0 then
              Some (s1\<lparr>p_AdminCount := uint (drop_bit 16 admin_miner_count AND 0xffff),
                     p_MinerCount := uint (admin_miner_count AND 0xffff)\<rparr>)
            else map_option snd (UpdateCounts s1))
      in map_option (\<lambda>s2. (MC_ERR_NOERROR,
           if 0 < p_CopiedRow s2 then s2\<lparr>p_ClearedMinerCountForMinerVerification := p_MinerCount s2\<rparr>
           else s2)) counted)"

definition SaveTmpCounts :: "mc_Permissions \<Rightarrow> mc_Permissions" where
  "SaveTmpCounts s = s\<lparr>p_TmpSavedAdminCount := p_AdminCount s, p_TmpSavedMinerCount := p_MinerCount s\<rparr>"

section \<open>The recount counts the allowed addresses\<close>

text \<open>
  The index has an entry for every admin and miner. The entries are found after the marker, which an
  entry of the zero address is not: its type sorts before the marker's.
\<close>

definition index_covers :: "perm_db \<Rightarrow> address set \<Rightarrow> address set \<Rightarrow> bool" where
  "index_covers db A M \<longleftrightarrow> db_get db marker_key \<noteq> None \<and> 0 \<notin> A \<and> 0 \<notin> M \<and>
     (\<forall>a\<in>A. db_get db (DbKey adminminerlist_entity a MC_PTP_ADMIN) \<noteq> None) \<and>
     (\<forall>a\<in>M. db_get db (DbKey adminminerlist_entity a MC_PTP_MINE) \<noteq> None)"

lemma GetPermission_stored_cong:
  assumes "p_Database s' = p_Database s" and "p_Ledger s' = p_Ledger s"
    and "p_CopiedRow s' = p_CopiedRow s" and "p_ForkBlock s' = p_ForkBlock s"
  shows "GetPermission_stored s' e a t b = GetPermission_stored s e a t b"
  by (simp only: GetPermission_stored_def assms)

lemma GetPermissionRow_cong:
  assumes "p_Database s' = p_Database s" and "p_Ledger s' = p_Ledger s" and "p_MemPool s' = p_MemPool s"
    and "p_Block s' = p_Block s" and "p_CopiedRow s' = p_CopiedRow s" and "p_ForkBlock s' = p_ForkBlock s"
  shows "GetPermissionRow s' e a t c = GetPermissionRow s e a t c"
  by (simp only: GetPermissionRow_def GetPermission_stored_def next_block_def assms)

lemma key_less_entity: "a < b \<Longrightarrow> dk_Entity a \<le> dk_Entity b" for a b :: db_key
  by (auto simp: less_db_key_def key_rank_def word_le_nat_alt)

lemma marker_less: "a \<noteq> 0 \<Longrightarrow> marker_key < DbKey adminminerlist_entity a t"
  by (simp add: less_db_key_def key_rank_def marker_key_def unat_gt_0 word_neq_0_conv [symmetric])

lemma marker_not_less:
  "t = MC_PTP_ADMIN \<or> t = MC_PTP_MINE \<Longrightarrow> \<not> marker_key < DbKey adminminerlist_entity 0 t"
  by (auto simp: less_db_key_def key_rank_def marker_key_def bswap32_def)

lemma takeWhile_entity:
  assumes "sorted_wrt (<) ks" and "\<forall>k\<in>set ks. e \<le> dk_Entity k"
  shows "takeWhile (\<lambda>k. dk_Entity k = e) ks = filter (\<lambda>k. dk_Entity k = e) (ks :: db_key list)"
  using assms
proof (induction ks)
  case (Cons k ks)
  show ?case
  proof (cases "dk_Entity k = e")
    case False
    have "dk_Entity k' \<noteq> e" if "k' \<in> set ks" for k'
      using key_less_entity [of k k'] Cons.prems that False by fastforce
    then show ?thesis using False by (simp add: filter_empty_conv)
  qed (use Cons in simp)
qed simp

definition index_keys :: "perm_db \<Rightarrow> db_key list" where
  "index_keys db = filter (\<lambda>k. dk_Entity k = adminminerlist_entity) (map fst (db_MoveNext_rows db marker_key))"

lemma index_keys:
  assumes "store_ok (db_Store db)"
  shows "takeWhile (\<lambda>k. dk_Entity k = adminminerlist_entity) (map fst (db_MoveNext_rows db marker_key)) = index_keys db"
    and "distinct (index_keys db)"
    and "k \<in> set (index_keys db) \<longleftrightarrow>
      dk_Entity k = adminminerlist_entity \<and> marker_key < k \<and> db_get db k \<noteq> None"
proof -
  let ?ks = "map fst (db_MoveNext_rows db marker_key)"
  have keys: "set ?ks = {j. marker_key < j \<and> db_get db j \<noteq> None}"
    using kv.after_keys [OF assms] by (simp add: db_MoveNext_rows_def db_get_def)
  have "sorted_wrt (<) ?ks"
    using kv.after_sorted [OF assms] by (simp add: db_MoveNext_rows_def sorted_wrt_map)
  moreover have "\<forall>k\<in>set ?ks. adminminerlist_entity \<le> dk_Entity k"
    using keys key_less_entity [of marker_key] by (auto simp: marker_key_def)
  ultimately show "takeWhile (\<lambda>k. dk_Entity k = adminminerlist_entity) ?ks = index_keys db"
    unfolding index_keys_def by (rule takeWhile_entity)
  show "distinct (index_keys db)"
    unfolding index_keys_def db_MoveNext_rows_def by (rule distinct_filter) (rule kv.after_distinct [OF assms])
  show "k \<in> set (index_keys db) \<longleftrightarrow>
      dk_Entity k = adminminerlist_entity \<and> marker_key < k \<and> db_get db k \<noteq> None"
    unfolding index_keys_def using keys by auto
qed

lemma count_index_lengths:
  assumes "\<And>a. GetPermission s None a MC_PTP_ADMIN \<noteq> 0 \<longleftrightarrow> a \<in> A"
    and "\<And>a. fst (GetPermission5 s None a MC_PTP_MINE True) \<noteq> 0 \<longleftrightarrow> a \<in> M" and "p_CopiedRow s = 0"
  shows "count_index s ks x y =
    (let ks' = takeWhile (\<lambda>k. dk_Entity k = adminminerlist_entity) ks in
     Some (x + int (length (filter (\<lambda>k. dk_Type k = MC_PTP_ADMIN \<and> dk_Address k \<in> A) ks')),
           y + int (length (filter (\<lambda>k. dk_Type k = MC_PTP_MINE \<and> dk_Address k \<in> M) ks'))))"
proof (induction ks arbitrary: x y)
  case (Cons k ks)
  have "counts_admin s k = (dk_Type k = MC_PTP_ADMIN \<and> dk_Address k \<in> A)"
    and "counts_miner s k = Some (dk_Type k = MC_PTP_MINE \<and> dk_Address k \<in> M)"
    using assms by (auto simp: counts_admin_def counts_miner_def case_prod_beta)
  with Cons.IH show ?case by (auto simp: Let_def)
qed simp

lemma index_count:
  assumes ok: "store_ok (db_Store db)" and t: "t = MC_PTP_ADMIN \<or> t = MC_PTP_MINE"
    and A: "0 \<notin> A" "\<forall>a\<in>A. db_get db (DbKey adminminerlist_entity a t) \<noteq> None"
  shows "length (filter (\<lambda>k. dk_Type k = t \<and> dk_Address k \<in> A) (index_keys db)) = card A"
proof -
  let ?ks = "filter (\<lambda>k. dk_Type k = t \<and> dk_Address k \<in> A) (index_keys db)"
  have "set ?ks = (\<lambda>a. DbKey adminminerlist_entity a t) ` A"
  proof (rule set_eqI)
    fix k
    obtain e a u where k: "k = DbKey e a u" by (cases k)
    show "k \<in> set ?ks \<longleftrightarrow> k \<in> (\<lambda>a. DbKey adminminerlist_entity a t) ` A"
      using A marker_less [of a t] by (auto simp: k index_keys [OF ok])
  qed
  moreover have "distinct ?ks" using index_keys(2) [OF ok] by (rule distinct_filter)
  moreover have "inj_on (\<lambda>a. DbKey adminminerlist_entity a t) A" by (simp add: inj_on_def)
  then have "card ((\<lambda>a. DbKey adminminerlist_entity a t) ` A) = card A" by (rule card_image)
  ultimately show ?thesis using distinct_card [of ?ks] by simp
qed

theorem UpdateCounts_counts:
  assumes ok: "store_ok (db_Store (p_Database s))" and op: "db_Open (p_Database s)"
    and nc: "p_CopiedRow s = 0" and cov: "index_covers (p_Database s) A M"
    and A: "\<And>a. GetPermission s None a MC_PTP_ADMIN \<noteq> 0 \<longleftrightarrow> a \<in> A"
    and M: "\<And>a. GetPermission s None a MC_PTP_MINE \<noteq> 0 \<longleftrightarrow> a \<in> M"
  shows "UpdateCounts s =
     Some (MC_ERR_NOERROR, s\<lparr>p_AdminCount := int (card A), p_MinerCount := int (card M)\<rparr>)"
proof -
  let ?s = "s\<lparr>p_AdminCount := 0, p_MinerCount := 0\<rparr>"
  obtain v where v: "db_Seek (p_Database s) marker_key = (Some v, MC_ERR_NOERROR)"
    using cov op by (auto simp: index_covers_def db_Seek_def db_get_def)
  have "GetPermissionRow ?s e a t c = GetPermissionRow s e a t c" for e a t c
    by (rule GetPermissionRow_cong) simp_all
  then have gp: "GetPermission5 ?s lp a t c = GetPermission5 s lp a t c" for lp a t c
    by (simp add: GetPermission5_def)
  have "count_index ?s (map fst (db_MoveNext_rows (p_Database s) marker_key)) 0 0 =
      Some (int (card A), int (card M))"
    using A M nc cov
    by (subst count_index_lengths [where A = A and M = M])
      (simp_all add: gp GetPermission_def Let_def index_keys(1) [OF ok] index_count [OF ok] index_covers_def)
  with v show ?thesis by (simp add: UpdateCounts_def)
qed

section \<open>States with a complete index\<close>

text \<open>
  The invariant of the component between blocks: a good state whose index covers every admin and
  miner row of the log, and no batch left over. The zero address must not hold an admin or miner row.
\<close>

definition index_ok :: "(db_key \<Rightarrow> db_val option) \<Rightarrow> ledger_row list \<Rightarrow> nat \<Rightarrow> bool" where
  "index_ok get R n \<longleftrightarrow> get marker_key \<noteq> None \<and>
     (\<forall>a t. (t = MC_PTP_ADMIN \<or> t = MC_PTP_MINE) \<longrightarrow> klast (DbKey null_entity a t) R n \<noteq> 0 \<longrightarrow>
        a \<noteq> 0 \<and> get (DbKey adminminerlist_entity a t) \<noteq> None)"

lemma index_ok_mono:
  assumes "index_ok get R n" and "m \<le> n"
  shows "index_ok get R m"
  unfolding index_ok_def
proof (intro conjI allI impI)
  show "get marker_key \<noteq> None" using assms(1) by (simp add: index_ok_def)
next
  fix a t
  assume t: "t = MC_PTP_ADMIN \<or> t = MC_PTP_MINE" and "klast (DbKey null_entity a t) R m \<noteq> 0"
  then have k: "klast (DbKey null_entity a t) R n \<noteq> 0" using klast_mono [OF assms(2), of _ R] by (metis le_zero_eq)
  show "a \<noteq> 0" and "get (DbKey adminminerlist_entity a t) \<noteq> None"
    using assms(1) t k unfolding index_ok_def by blast+
qed

lemma admin_log_key:
  "t = MC_PTP_ADMIN \<or> t = MC_PTP_MINE \<Longrightarrow> log_key (DbKey null_entity a t)"
  using special_entities_distinct by (auto simp: log_key_def)

lemma index_covers_allowed:
  assumes "index_ok (db_get (p_Database s)) (p_log s) (p_Row s)"
  shows "index_covers (p_Database s) (allowed_set s MC_PTP_ADMIN) (allowed_set s MC_PTP_MINE)"
proof -
  have "klast (DbKey null_entity a t) (p_log s) (p_Row s) \<noteq> 0" if "a \<in> allowed_set s t" for a t
    using that by (auto simp: allowed_set_def log_allowed_def log_row_defs split: if_splits)
  with assms show ?thesis unfolding index_covers_def index_ok_def by blast
qed

lemma GetPermission_allowed:
  assumes "perm_good s" and "t = MC_PTP_ADMIN \<or> t = MC_PTP_MINE"
  shows "GetPermission s None a t \<noteq> 0 \<longleftrightarrow> a \<in> allowed_set s t"
  using GetPermission_log [of s None a t] assms admin_log_key [OF assms(2), of a]
  by (auto simp: lp_deref_def allowed_set_def)

theorem UpdateCounts_good:
  assumes good: "perm_good s" and ix: "index_ok (db_get (p_Database s)) (p_log s) (p_Row s)"
  shows "UpdateCounts s = Some (MC_ERR_NOERROR,
     s\<lparr>p_AdminCount := int (card (allowed_set s MC_PTP_ADMIN)),
       p_MinerCount := int (card (allowed_set s MC_PTP_MINE))\<rparr>)"
  by (rule UpdateCounts_counts [OF _ _ _ index_covers_allowed [OF ix]])
    (use good GetPermission_allowed [OF good] in
      \<open>auto simp: perm_good_def perm_wf_def perm_healthy_def db_healthy_def\<close>)

section \<open>Clearing and restoring the memory pool\<close>

text \<open>The state with the memory pool dropped.\<close>

definition chain_part :: "mc_Permissions \<Rightarrow> mc_Permissions" where
  "chain_part s = s\<lparr>p_Row := ledger_used s, p_MemPool := buf_Clear (p_MemPool s)\<rparr>"

lemma m_Count_Clear [simp]: "m_Count (buf_Clear b) = 0"
  using length_buf_rows [of "buf_Clear b"] by (simp add: buf_rows_Clear)

lemma chain_part_fields [simp]:
  "p_Row (chain_part s) = ledger_used s" "p_MemPool (chain_part s) = buf_Clear (p_MemPool s)"
  "p_Database (chain_part s) = p_Database s" "p_Ledger (chain_part s) = p_Ledger s"
  "p_Block (chain_part s) = p_Block s" "p_CopiedRow (chain_part s) = p_CopiedRow s"
  "ledger_used (chain_part s) = ledger_used s"
  by (simp_all add: chain_part_def ledger_used_def)

lemma chain_part_log: "p_log (chain_part s) = take (ledger_used s) (lg_Rows (p_Ledger s))"
  by (simp add: p_log_def buf_rows_Clear)

lemma chain_part_take: "perm_wf s \<Longrightarrow> p_log (chain_part s) = take (ledger_used s) (p_log s)"
  by (simp add: p_log_def buf_rows_Clear perm_wf_def)

lemma db_mirrors_take: "n \<le> m \<Longrightarrow> db_mirrors db (take m R) n = db_mirrors db R n"
proof -
  assume "n \<le> m"
  then have "log_val (take m R) n k = log_val R n k" for k
    using klast_le [of k R n] klast_less [of n k R] by (cases "n = 0") (auto simp: log_val_def Let_def)
  then show ?thesis by (simp add: db_mirrors_def)
qed

lemma chain_part_good: "perm_good s \<Longrightarrow> perm_good (chain_part s)"
proof -
  assume good: "perm_good s"
  then have wf: "perm_wf s" by (simp add: perm_good_def)
  have "wf_log (p_log (chain_part s))"
    using wf perm_wf_length(3) [OF wf] by (simp add: chain_part_take [OF wf] perm_wf_def wf_log_take)
  then show ?thesis
    using good wf perm_wf_length(3) [OF wf]
    by (simp add: perm_good_def perm_wf_def perm_healthy_def chain_part_take [OF wf] db_mirrors_take)
qed

definition copied :: "mc_Permissions \<Rightarrow> mem_pool \<times> int \<times> int" where
  "copied s = (p_CopiedMemPool s, p_CopiedAdminCount s, p_CopiedMinerCount s)"

lemma ClearMemPoolInternal_good:
  assumes good: "perm_good s"
    and ix: "index_ok (db_get (p_Database s)) (p_log s) (ledger_used s)"
  shows "\<exists>s'. ClearMemPoolInternal s = Some (MC_ERR_NOERROR, s') \<and> perm_good s' \<and>
     (m_Count (p_MemPool s) \<noteq> 0 \<or> counts_ok s \<longrightarrow> counts_ok s') \<and>
     p_log s' = p_log (chain_part s) \<and> p_Row s' = ledger_used s \<and> p_Database s' = p_Database s \<and>
     p_Ledger s' = p_Ledger s \<and> p_Block s' = p_Block s \<and> m_Count (p_MemPool s') = 0 \<and> counts_saved s' \<and> copied s' = copied s"
proof (cases "m_Count (p_MemPool s) = 0")
  case True
  let ?s = "s\<lparr>p_ClearedAdminCount := p_AdminCount s, p_ClearedMinerCount := p_MinerCount s,
      p_ClearedMinerCountForMinerVerification := p_MinerCount s\<rparr>"
  have "buf_rows (p_MemPool s) = []" using True by (simp add: buf_rows_def)
  then have l: "p_log (chain_part s) = p_log s" by (simp add: chain_part_log p_log_def)
  have eq: "p_log ?s = p_log s" "perm_good ?s = perm_good s" "allowed_set ?s t = allowed_set s t" for t
    by (rule state_eq_log; simp)+
  have "counts_ok s \<longrightarrow> counts_ok ?s" unfolding counts_ok_def eq by simp
  moreover have "ClearMemPoolInternal s = Some (MC_ERR_NOERROR, ?s)"
    using True by (simp add: ClearMemPoolInternal_def buf_GetCount_def)
  ultimately show ?thesis using True eq good l by (simp add: ledger_used_def counts_saved_def copied_def)
next
  case False
  let ?c = "s\<lparr>p_Row := p_Row s - buf_GetCount (p_MemPool s), p_MemPool := buf_Clear (p_MemPool s),
      p_AdminCount := p_ClearedAdminCount s, p_MinerCount := p_ClearedMinerCount s\<rparr>"
  let ?A = "int (card (allowed_set ?c MC_PTP_ADMIN))" and ?M = "int (card (allowed_set ?c MC_PTP_MINE))"
  let ?s = "?c\<lparr>p_AdminCount := ?A, p_MinerCount := ?M, p_ClearedAdminCount := ?A,
      p_ClearedMinerCount := ?M, p_ClearedMinerCountForMinerVerification := ?M\<rparr>"
  have wf: "perm_wf s" using good by (simp add: perm_good_def)
  have c: "p_log ?c = p_log (chain_part s)" "perm_good ?c = perm_good (chain_part s)"
    by (rule state_eq_log; simp add: chain_part_def ledger_used_def buf_GetCount_def)+
  have gc: "perm_good ?c" using c chain_part_good [OF good] by simp
  have row: "p_Row ?c = ledger_used s" by (simp add: ledger_used_def buf_GetCount_def)
  have "index_ok (db_get (p_Database ?c)) (p_log ?c) (p_Row ?c)"
    using ix unfolding c row chain_part_take [OF wf] by (simp add: index_ok_def)
  from UpdateCounts_good [OF gc this]
  have cl: "ClearMemPoolInternal s = Some (MC_ERR_NOERROR, ?s)"
    using False by (simp add: ClearMemPoolInternal_def buf_GetCount_def)
  have eq: "p_log ?s = p_log ?c" "perm_good ?s = perm_good ?c" "allowed_set ?s t = allowed_set ?c t" for t
    by (rule state_eq_log; simp)+
  have "counts_ok ?s" unfolding counts_ok_def eq by simp
  then show ?thesis using cl eq gc c by (intro exI [of _ ?s]) (simp add: ledger_used_def buf_GetCount_def counts_saved_def copied_def)
qed

end
