(* ===== verification/Perm_Rollback.thy ===== *)
theory Perm_Rollback
  imports Perm_Counts
begin

text \<open>
  \<open>RollBack\<close>: taking the blocks above a height off the chain part of the permissions
  (\<^verbatim>\<open>src/src/permissions/permission.cpp\<close>). The ledger rows received above the height are visited from
  the last one down, and the database entry of each is pointed to the previous row of the row.
\<close>

definition row_db_val :: "nat \<Rightarrow> ledger_row \<Rightarrow> db_val" where
  "row_db_val n r = PermVal \<lparr>v_BlockFrom = l_BlockFrom r, v_BlockTo = l_BlockTo r, v_LedgerRow = n,
     v_Flags = l_Flags r\<rparr>"

definition rollback_entry :: "mc_PermissionLedger \<Rightarrow> perm_db \<Rightarrow> ledger_row \<Rightarrow> int \<times> perm_db" where
  "rollback_entry lg db row =
     (let prev_row = l_PrevRow row
      in if prev_row \<noteq> 0
         then db_Write db (row_key row) (row_db_val prev_row (snd (ledger_GetRow lg prev_row row))) True
         else db_Delete db (row_key row) True)"

fun rollback_scan ::
    "mc_PermissionLedger \<Rightarrow> int \<Rightarrow> nat \<Rightarrow> perm_db \<Rightarrow> int \<times> nat \<times> perm_db" where
  "rollback_scan lg block 0 db = (MC_ERR_NOERROR, 0, db)"
| "rollback_scan lg block (Suc n) db =
     (let row = snd (ledger_GetRow lg (Suc n) zero_row)
      in if block < sint (l_BlockReceived row)
         then (case rollback_entry lg db row of (err, db') \<Rightarrow>
                if err \<noteq> MC_ERR_NOERROR then (err, Suc n, db') else rollback_scan lg block n db')
         else (MC_ERR_NOERROR, Suc n, db))"

text \<open>The header entry of the database, key zero, holds the height and the number of rows.\<close>

definition write_header_entry :: "perm_db \<Rightarrow> int \<Rightarrow> nat \<Rightarrow> int \<times> perm_db" where
  "write_header_entry db block rows =
     (let old = (case fst (db_Read db (DbKey 0 0 0)) of None \<Rightarrow> zero_val | Some v \<Rightarrow> perm_view v)
      in db_Write db (DbKey 0 0 0) (PermVal (old\<lparr>v_BlockTo := word_of_int block, v_LedgerRow := rows\<rparr>)) True)"

definition write_header_row :: "mc_PermissionLedger \<Rightarrow> int \<Rightarrow> nat \<Rightarrow> mc_PermissionLedger" where
  "write_header_row lg block rows =
     (let row = snd (ledger_GetRow lg 0 zero_row)
      in snd (ledger_SetRow lg 0 (row\<lparr>l_BlockTo := word_of_int block, l_PrevRow := rows\<rparr>)))"

definition RollBackInternal :: "mc_Permissions \<Rightarrow> int \<Rightarrow> (int \<times> mc_Permissions) option" where
  "RollBackInternal s block =
     (if \<not> lg_CanOpen (p_Ledger s) then Some (MC_ERR_DBOPEN_ERROR, s)
      else case ClearMemPoolInternal s of
        None \<Rightarrow> None
      | Some (e0, s0) \<Rightarrow>
          (case rollback_scan (p_Ledger s0) block (p_Row s0 - 1) (p_Database s0) of (err1, last_row, db1) \<Rightarrow>
             let this_row = last_row + 1;
                 w = (if err1 = MC_ERR_NOERROR then write_header_entry db1 block this_row else (err1, db1));
                 c = (if fst w = MC_ERR_NOERROR then db_Commit (snd w) True else w);
                 lg = (if fst c = MC_ERR_NOERROR then write_header_row (p_Ledger s0) block this_row
                       else p_Ledger s0);
                 s1 = s0\<lparr>p_Database := snd c, p_Ledger := lg\<rparr>
             in if fst c = MC_ERR_NOERROR
                then map_option (\<lambda>(e, s2). (MC_ERR_NOERROR,
                       s2\<lparr>p_ClearedAdminCount := p_AdminCount s2, p_ClearedMinerCount := p_MinerCount s2\<rparr>))
                     (UpdateCounts (s1\<lparr>p_Block := block, p_Row := this_row\<rparr>))
                else Some (fst c, s1)))"

definition RollBack :: "mc_Permissions \<Rightarrow> int \<Rightarrow> (int \<times> mc_Permissions) option" where
  "RollBack s block = RollBackInternal s block"

definition RollBack_one :: "mc_Permissions \<Rightarrow> (int \<times> mc_Permissions) option" where
  "RollBack_one s = RollBack s (p_Block s - 1)"

section \<open>What the scan writes\<close>

text \<open>The value a key will have when the batch is committed.\<close>

definition db_view :: "perm_db \<Rightarrow> db_key \<Rightarrow> db_val option" where
  "db_view db k = batch_val (db_Batch db) k (db_get db k)"

lemma db_view_empty: "db_Batch db = [] \<Longrightarrow> db_view db k = db_get db k"
  by (simp add: db_view_def)

lemma db_Write_view:
  assumes "db_healthy db"
  shows "\<exists>db'. db_Write db k v True = (MC_ERR_NOERROR, db') \<and> db_healthy db' \<and> db_Store db' = db_Store db \<and>
     (\<forall>j. db_view db' j = (if j = k then Some v else db_view db j))"
  using assms by (auto simp: db_Write_batch db_view_def batch_val_append db_get_def)

lemma db_Delete_view:
  assumes "db_healthy db"
  shows "\<exists>db'. db_Delete db k True = (MC_ERR_NOERROR, db') \<and> db_healthy db' \<and> db_Store db' = db_Store db \<and>
     (\<forall>j. db_view db' j = (if j = k then None else db_view db j))"
  using assms by (auto simp: db_Delete_batch db_view_def batch_val_append db_get_def)

lemma db_Commit_view:
  assumes "db_healthy db" and "store_ok (db_Store db)"
  shows "\<exists>db'. db_Commit db True = (MC_ERR_NOERROR, db') \<and> db_healthy db' \<and> store_ok (db_Store db') \<and>
     db_Batch db' = [] \<and> (\<forall>k. db_get db' k = db_view db k)"
  using assms by (auto simp: db_Commit_batch db_view_def db_get_def store_get_batch db_healthy_def)

text \<open>The last row received at or below a height, among the rows \<open>1\<close> to \<open>n\<close>.\<close>

fun last_received :: "ledger_row list \<Rightarrow> int \<Rightarrow> nat \<Rightarrow> nat" where
  "last_received R block 0 = 0"
| "last_received R block (Suc n) =
     (if block < sint (l_BlockReceived (R ! Suc n)) then last_received R block n else Suc n)"

lemma last_received_le: "last_received R block n \<le> n"
  by (induction n) auto

lemma log_val_row:
  assumes "wf_log R" and "log_key k" and "n \<le> length R" and "klast k R n \<noteq> 0"
  shows "log_val R n k = flagless k (Some (row_db_val (klast k R n) (R ! klast k R n)))"
  using assms shows_log_row [OF assms(1,2,3)] by (simp add: log_val_def row_db_val_def row_val_def shows_log_def Let_def)

lemma log_val_Suc_other: "row_key (R ! n) \<noteq> k \<Longrightarrow> log_val R (Suc n) k = log_val R n k"
  by (simp add: log_val_def klast_Suc)

text \<open>Undoing one row takes the view of the database back by one row of the log.\<close>

lemma rollback_entry_view:
  assumes wf: "wf_log R" and n: "Suc n < length R" and h: "db_healthy db"
    and rows: "\<And>i old. 0 < i \<Longrightarrow> i < length R \<Longrightarrow> snd (ledger_GetRow lg i old) = R ! i"
    and view: "\<And>k. log_key k \<Longrightarrow> flagless k (db_view db k) = log_val R (Suc (Suc n)) k"
  shows "\<exists>db'. rollback_entry lg db (R ! Suc n) = (MC_ERR_NOERROR, db') \<and> db_healthy db' \<and>
     db_Store db' = db_Store db \<and> (\<forall>k. log_key k \<longrightarrow> flagless k (db_view db' k) = log_val R (Suc n) k) \<and>
     (\<forall>k. k \<noteq> row_key (R ! Suc n) \<longrightarrow> db_view db' k = db_view db k)"
proof -
  let ?r = "R ! Suc n" and ?k = "row_key (R ! Suc n)"
  define v where "v = (if l_PrevRow ?r = 0 then None
      else Some (row_db_val (l_PrevRow ?r) (R ! l_PrevRow ?r)))"
  have row: "log_key ?k \<and> l_PrevRow ?r = klast ?k R (Suc n) \<or> index_key ?k \<and> l_PrevRow ?r < Suc n"
    using wf_logD [OF wf _ n] by (simp add: wf_row_def)
  then have "l_PrevRow ?r < length R" using n klast_less [of "Suc n" ?k R] by auto
  then have e: "rollback_entry lg db ?r = (if l_PrevRow ?r = 0 then db_Delete db ?k True
      else db_Write db ?k (row_db_val (l_PrevRow ?r) (R ! l_PrevRow ?r)) True)"
    by (simp add: rollback_entry_def rows Let_def)
  have "\<exists>db'. rollback_entry lg db ?r = (MC_ERR_NOERROR, db') \<and> db_healthy db' \<and>
      db_Store db' = db_Store db \<and> (\<forall>j. db_view db' j = (if j = ?k then v else db_view db j))"
  proof (cases "l_PrevRow ?r = 0")
    case True
    then show ?thesis unfolding e v_def if_P [OF True] by (intro db_Delete_view [OF h])
  next
    case False
    then show ?thesis unfolding e v_def if_not_P [OF False] by (intro db_Write_view [OF h])
  qed
  then obtain db' where db': "rollback_entry lg db ?r = (MC_ERR_NOERROR, db')" "db_healthy db'"
    "db_Store db' = db_Store db" and vw: "\<And>j. db_view db' j = (if j = ?k then v else db_view db j)"
    by blast
  have "flagless k (db_view db' k) = log_val R (Suc n) k" if k: "log_key k" for k
  proof (cases "k = ?k")
    case True
    then have p: "l_PrevRow ?r = klast k R (Suc n)" using row k by (auto simp: log_key_def index_key_def)
    show ?thesis
      using log_val_row [OF wf k, of "Suc n"] n True p vw by (auto simp: v_def log_val_def Let_def)
  next
    case False
    then show ?thesis using vw view [OF k] log_val_Suc_other [of R "Suc n" k] by simp
  qed
  then show ?thesis using db' vw by auto
qed

lemma rollback_scan_view:
  assumes wf: "wf_log R"
    and rows: "\<And>i old. 0 < i \<Longrightarrow> i < length R \<Longrightarrow> snd (ledger_GetRow lg i old) = R ! i"
  shows "n < length R \<Longrightarrow> db_healthy db \<Longrightarrow> (\<And>k. log_key k \<Longrightarrow> flagless k (db_view db k) = log_val R (Suc n) k) \<Longrightarrow>
    \<exists>db'. rollback_scan lg block n db = (MC_ERR_NOERROR, last_received R block n, db') \<and> db_healthy db' \<and>
      db_Store db' = db_Store db \<and>
      (\<forall>k. log_key k \<longrightarrow> flagless k (db_view db' k) = log_val R (Suc (last_received R block n)) k) \<and>
      (\<forall>k. (\<forall>i. last_received R block n < i \<longrightarrow> i \<le> n \<longrightarrow> row_key (R ! i) \<noteq> k) \<longrightarrow> db_view db' k = db_view db k)"
proof (induction n arbitrary: db)
  case 0
  then show ?case by auto
next
  case (Suc n)
  show ?case
  proof (cases "block < sint (l_BlockReceived (R ! Suc n))")
    case True
    obtain db1 where db1: "rollback_entry lg db (R ! Suc n) = (MC_ERR_NOERROR, db1)" "db_healthy db1"
      "db_Store db1 = db_Store db" "\<And>k. log_key k \<Longrightarrow> flagless k (db_view db1 k) = log_val R (Suc n) k"
      "\<And>k. k \<noteq> row_key (R ! Suc n) \<Longrightarrow> db_view db1 k = db_view db k"
      using rollback_entry_view [OF wf Suc.prems(1,2) rows Suc.prems(3)] by blast
    have n: "n < length R" using Suc.prems(1) by simp
    obtain db' where db': "rollback_scan lg block n db1 = (MC_ERR_NOERROR, last_received R block n, db')" "db_healthy db'"
      "db_Store db' = db_Store db1" "\<And>k. log_key k \<Longrightarrow> flagless k (db_view db' k) = log_val R (Suc (last_received R block n)) k"
      and o: "\<And>k. (\<forall>i. last_received R block n < i \<longrightarrow> i \<le> n \<longrightarrow> row_key (R ! i) \<noteq> k) \<Longrightarrow> db_view db' k = db_view db1 k"
      using Suc.IH [OF n db1(2,4)] by blast
    have "db_view db' k = db_view db k"
      if "\<forall>i. last_received R block (Suc n) < i \<longrightarrow> i \<le> Suc n \<longrightarrow> row_key (R ! i) \<noteq> k" for k
    proof -
      have "row_key (R ! Suc n) \<noteq> k" using that True last_received_le [of R block n] by auto
      then have "db_view db1 k = db_view db k" using db1(5) [of k] by blast
      then show ?thesis using that True o [of k] by auto
    qed
    then show ?thesis using True db1 db' Suc.prems(1) by (simp add: rows)
  next
    case False
    with Suc.prems show ?thesis by (simp add: rows)
  qed
qed

section \<open>The header row\<close>

text \<open>Row 0 is not a row of any key: the log facts do not depend on it.\<close>

lemma klast_header [simp]: "klast k (R[0 := h]) n = klast k R n"
  by (induction n) (auto simp: klast_Suc)

lemma wf_log_header [simp]: "wf_log (R[0 := h]) = wf_log R"
proof -
  have "wf_row (R[0 := h]) i = wf_row R i" if "0 < i" for i using that by (simp add: wf_row_def)
  then show ?thesis by (auto simp: wf_log_def)
qed

lemma log_val_header [simp]: "log_val (R[0 := h]) n k = log_val R n k"
  by (auto simp: log_val_def Let_def)

lemma db_mirrors_header [simp]: "db_mirrors db (R[0 := h]) n = db_mirrors db R n"
  by (simp add: db_mirrors_def)

lemma index_ok_header [simp]: "index_ok db (R[0 := h]) n = index_ok db R n"
  by (simp add: index_ok_def)

lemma write_header_row_rows:
  assumes "lg_CanOpen lg" and "lg_Rows lg \<noteq> []"
  shows "\<exists>h. lg_Rows (write_header_row lg block n) = (lg_Rows lg)[0 := h] \<and> l_BlockTo h = word_of_int block \<and>
      l_PrevRow h = n"
    and "lg_CanOpen (write_header_row lg block n)"
  using assms by (auto simp: write_header_row_def ledger_SetRow_def ledger_WriteRow_def write_at_def Let_def)

lemma write_header_entry_view:
  assumes "db_healthy db"
  shows "\<exists>db' v. write_header_entry db block n = (MC_ERR_NOERROR, db') \<and> db_healthy db' \<and>
     db_Store db' = db_Store db \<and> v_BlockTo v = word_of_int block \<and> v_LedgerRow v = n \<and>
     (\<forall>j. db_view db' j = (if j = DbKey 0 0 0 then Some (PermVal v) else db_view db j))"
proof -
  define old where "old = (case fst (db_Read db (DbKey 0 0 0)) of None \<Rightarrow> zero_val | Some v \<Rightarrow> perm_view v)"
  define v where "v = old\<lparr>v_BlockTo := word_of_int block, v_LedgerRow := n\<rparr>"
  have "write_header_entry db block n = db_Write db (DbKey 0 0 0) (PermVal v) True"
    by (simp add: write_header_entry_def Let_def v_def old_def)
  then show ?thesis using db_Write_view [OF assms, of "DbKey 0 0 0" "PermVal v"] v_def by auto
qed

lemma klast_take_index: "n \<le> m \<Longrightarrow> index_ok db (take m R) n = index_ok db R n"
  by (simp add: index_ok_def)

lemma index_ok_cong:
  assumes "index_ok get R n" and "\<And>k. \<not> log_key k \<Longrightarrow> \<not> index_key k \<Longrightarrow> k \<noteq> DbKey 0 0 0 \<Longrightarrow> get' k = get k"
  shows "index_ok get' R n"
proof -
  have "get' (DbKey adminminerlist_entity a t) = get (DbKey adminminerlist_entity a t)"
    if "t \<noteq> 0" "t \<noteq> MC_PTP_BLOCK_INDEX" for a t
    using that by (intro assms(2)) (auto simp: log_key_def index_key_def)
  then show ?thesis using assms(1) by (auto simp: index_ok_def marker_key_def)
qed

section \<open>RollBack\<close>

text \<open>The height and the number of rows, in the header entry of the database and in row 0 of the ledger.\<close>

definition headers_ok :: "mc_Permissions \<Rightarrow> bool" where
  "headers_ok s \<longleftrightarrow>
     (\<exists>v. db_get (p_Database s) (DbKey 0 0 0) = Some (PermVal v) \<and> v_BlockTo v = word_of_int (p_Block s) \<and>
        v_LedgerRow v = ledger_used s) \<and>
     l_BlockTo (p_log s ! 0) = word_of_int (p_Block s) \<and> l_PrevRow (p_log s ! 0) = ledger_used s"

text \<open>The invariant of the component between blocks.\<close>

definition perm_chain :: "mc_Permissions \<Rightarrow> bool" where
  "perm_chain s \<longleftrightarrow> perm_good s \<and> index_ok (db_get (p_Database s)) (p_log s) (ledger_used s) \<and>
     db_Batch (p_Database s) = []"

lemma perm_chain_step:
  "perm_chain s \<Longrightarrow> grants K s s' \<Longrightarrow> perm_chain s'"
proof -
  assume ch: "perm_chain s" and g: "grants K s s'"
  then obtain rs where rs: "p_log s' = p_log s @ rs" by (auto simp: grants_def)
  have "ledger_used s \<le> length (p_log s)"
    using ch perm_wf_length [of s] by (simp add: perm_chain_def perm_good_def)
  then have "index_ok (db_get (p_Database s)) (p_log s @ rs) (ledger_used s)"
    using ch by (simp add: perm_chain_def index_ok_def)
  then show ?thesis using ch g rs by (simp add: perm_chain_def grants_def)
qed

theorem RollBackInternal_chain:
  assumes ch: "perm_chain s"
  shows "\<exists>s' h. RollBackInternal s block = Some (MC_ERR_NOERROR, s') \<and> perm_chain s' \<and> counts_ok s' \<and>
     p_Block s' = block \<and> m_Count (p_MemPool s') = 0 \<and>
     p_Row s' = Suc (last_received (p_log s) block (ledger_used s - 1)) \<and>
     p_log s' = (take (p_Row s') (p_log s))[0 := h] \<and> headers_ok s' \<and> counts_saved s' \<and>
     (\<forall>k. \<not> log_key k \<longrightarrow> k \<noteq> DbKey 0 0 0 \<longrightarrow>
        (\<forall>i. p_Row s' \<le> i \<longrightarrow> i < ledger_used s \<longrightarrow> row_key (p_log s ! i) \<noteq> k) \<longrightarrow>
        db_get (p_Database s') k = db_get (p_Database s) k)"
proof -
  have good: "perm_good s" and ix: "index_ok (db_get (p_Database s)) (p_log s) (ledger_used s)"
    and nb: "db_Batch (p_Database s) = []" using ch by (simp_all add: perm_chain_def)
  have wf: "perm_wf s" using good by (simp add: perm_good_def)
  let ?L = "ledger_used s"
  note len = perm_wf_length [OF wf]
  obtain s0 where s0: "ClearMemPoolInternal s = Some (MC_ERR_NOERROR, s0)" "perm_good s0"
    and log0: "p_log s0 = take ?L (p_log s)" and row0: "p_Row s0 = ?L" and db0: "p_Database s0 = p_Database s"
    and lg0: "p_Ledger s0 = p_Ledger s" and mp0: "m_Count (p_MemPool s0) = 0"
    using ClearMemPoolInternal_good [OF good ix] by (auto simp: chain_part_take [OF wf])
  define R where "R = p_log s0"
  have wf0: "perm_wf s0" and h0: "db_healthy (p_Database s)" "lg_CanOpen (p_Ledger s)"
    using s0(2) good by (simp_all add: perm_good_def perm_healthy_def)
  have wfR: "wf_log R" and lenR: "length R = ?L" and used0: "ledger_used s0 = ?L"
    using wf0 perm_wf_length [OF wf0] row0 mp0 by (simp_all add: R_def perm_wf_def ledger_used_def)
  have Rlg: "R = take ?L (lg_Rows (p_Ledger s))" "?L \<le> length (lg_Rows (p_Ledger s))"
    using wf log0 by (simp_all add: R_def p_log_def perm_wf_def)
  have rows: "snd (ledger_GetRow (p_Ledger s) i old) = R ! i" if "0 < i" "i < length R" for i old
    using that h0 Rlg by (simp add: ledger_GetRow_def)
  let ?n = "?L - 1"
  define c where "c = last_received R block ?n"
  have Suc_n: "Suc ?n = ?L" using len(3) by simp
  have view: "flagless k (db_view (p_Database s) k) = log_val R (Suc ?n) k" if "log_key k" for k
    using wf0 that unfolding Suc_n by (simp add: db_view_empty [OF nb] perm_wf_def db_mirrors_def R_def used0 db0)
  obtain db1 where db1: "rollback_scan (p_Ledger s) block ?n (p_Database s) = (MC_ERR_NOERROR, c, db1)"
      "db_healthy db1" "db_Store db1 = db_Store (p_Database s)"
    and v1: "\<And>k. log_key k \<Longrightarrow> flagless k (db_view db1 k) = log_val R (Suc c) k"
      "\<And>k. (\<forall>i. c < i \<longrightarrow> i \<le> ?n \<longrightarrow> row_key (R ! i) \<noteq> k) \<Longrightarrow> db_view db1 k = db_view (p_Database s) k"
    using rollback_scan_view [where n = ?n and block = block, OF wfR rows _ h0(1) view] lenR len(3)
    unfolding c_def by fastforce
  obtain db2 v where db2: "write_header_entry db1 block (c + 1) = (MC_ERR_NOERROR, db2)" "db_healthy db2"
      "db_Store db2 = db_Store db1" "v_BlockTo v = word_of_int block" "v_LedgerRow v = c + 1"
    and v2: "\<And>j. db_view db2 j = (if j = DbKey 0 0 0 then Some (PermVal v) else db_view db1 j)"
    using write_header_entry_view [OF db1(2)] by blast
  have "store_ok (db_Store db2)" using wf db1(3) db2(3) by (simp add: perm_wf_def)
  then obtain db3 where db3: "db_Commit db2 True = (MC_ERR_NOERROR, db3)" "db_healthy db3"
      "store_ok (db_Store db3)" "db_Batch db3 = []" and v3: "\<And>k. db_get db3 k = db_view db2 k"
    using db_Commit_view [OF db2(2)] by blast
  let ?lg = "write_header_row (p_Ledger s) block (c + 1)"
  have "lg_Rows (p_Ledger s) \<noteq> []" using Rlg(2) len(3) by auto
  then obtain h where h: "lg_Rows ?lg = (lg_Rows (p_Ledger s))[0 := h]" "lg_CanOpen ?lg"
    "l_BlockTo h = word_of_int block" "l_PrevRow h = c + 1"
    using write_header_row_rows [OF h0(2)] by blast
  note h1 = h(1) [unfolded Suc_eq_plus1 [symmetric]] and h2 = h(2) [unfolded Suc_eq_plus1 [symmetric]]
  let ?s = "s0\<lparr>p_Database := db3, p_Ledger := ?lg, p_Block := block, p_Row := c + 1\<rparr>"
  have c: "c + 1 \<le> ?L" using last_received_le [of R block ?n] len(3) unfolding c_def by linarith
  have used: "ledger_used ?s = c + 1" using mp0 by (simp add: ledger_used_def)
  have log: "p_log ?s = (take (c + 1) R)[0 := h]"
    unfolding p_log_def used using mp0 c by (simp add: h1 Rlg(1) buf_rows_def take_update_swap)
  have get0: "db_get db3 k = db_get (p_Database s) k"
    if "k \<noteq> DbKey 0 0 0" "\<forall>i. c < i \<longrightarrow> i \<le> ?n \<longrightarrow> row_key (R ! i) \<noteq> k" for k
    using that v1(2) v2 v3 by (simp add: db_view_empty [OF nb])
  have get: "db_get db3 k = db_get (p_Database s) k" if "\<not> log_key k" "\<not> index_key k" "k \<noteq> DbKey 0 0 0" for k
  proof (rule get0 [OF that(3)], intro allI impI)
    fix i
    assume "c < i" and "i \<le> ?n"
    then have "wf_row R i" using wf_logD [OF wfR, of i] lenR len(3) by simp
    then show "row_key (R ! i) \<noteq> k" using that by (auto simp: wf_row_def)
  qed
  have mir: "db_mirrors (db_get db3) (p_log ?s) (c + 1)"
    unfolding log db_mirrors_header using v1(1) v2 v3 c lenR
    by (auto simp: db_mirrors_def log_val_def log_key_def Let_def)
      (use klast_less [of "Suc c" _ R] in \<open>auto simp del: klast_take\<close>)
  have wfs: "perm_wf ?s"
  proof -
    have "wf_log (p_log ?s)" unfolding log using wfR c by (simp add: wf_log_take)
    then show ?thesis
      using mir used wf0 mp0 c Rlg(2) db3(3) unfolding perm_wf_def by (simp add: h1)
  qed
  have gs: "perm_good ?s" using wfs s0(2) db3(2) h2 by (simp add: perm_good_def perm_healthy_def)
  have ixs: "index_ok (db_get db3) (p_log ?s) (c + 1)"
  proof -
    have "index_ok (db_get (p_Database s)) (take ?L (p_log s)) (c + 1)"
      by (rule index_ok_mono [OF _ c]) (use ix in \<open>simp add: klast_take_index\<close>)
    from index_ok_cong [OF this get] show ?thesis
      unfolding log R_def log0 using c by (simp add: klast_take_index min_def)
  qed
  let ?f = "?s\<lparr>p_AdminCount := int (card (allowed_set ?s MC_PTP_ADMIN)),
      p_MinerCount := int (card (allowed_set ?s MC_PTP_MINE)),
      p_ClearedAdminCount := int (card (allowed_set ?s MC_PTP_ADMIN)),
      p_ClearedMinerCount := int (card (allowed_set ?s MC_PTP_MINE))\<rparr>"
  have "UpdateCounts ?s = Some (MC_ERR_NOERROR, ?s\<lparr>p_AdminCount := int (card (allowed_set ?s MC_PTP_ADMIN)),
      p_MinerCount := int (card (allowed_set ?s MC_PTP_MINE))\<rparr>)"
    by (rule UpdateCounts_good [OF gs]) (use ixs in simp)
  then have res: "RollBackInternal s block = Some (MC_ERR_NOERROR, ?f)"
    using h0(2) s0(1) row0 db0 lg0 db1(1) db2(1) db3(1) by (simp add: RollBackInternal_def Let_def)
  have eq: "p_log ?f = p_log ?s" "perm_good ?f = perm_good ?s" "allowed_set ?f t = allowed_set ?s t"
    "ledger_used ?f = ledger_used ?s" for t by (rule state_eq_log; simp)+
  have "perm_chain ?f" unfolding perm_chain_def eq used using gs ixs db3(4) by simp
  moreover have "counts_ok ?f" unfolding counts_ok_def eq by simp
  moreover have "c = last_received (p_log s) block ?n"
  proof -
    have "last_received (take ?L (p_log s)) block m = last_received (p_log s) block m" if "m < ?L" for m
      using that by (induction m) auto
    then show ?thesis using len(3) by (simp add: c_def R_def log0)
  qed
  moreover have "headers_ok ?f"
  proof -
    have "p_log ?s ! 0 = h" using log lenR len(3) c by simp
    then show ?thesis using db2(4,5) h(3,4) used v2 v3 unfolding headers_ok_def eq by simp
  qed
  moreover have "db_get db3 k = db_get (p_Database s) k"
    if "k \<noteq> DbKey 0 0 0" "\<forall>i. p_Row ?f \<le> i \<longrightarrow> i < ?L \<longrightarrow> row_key (p_log s ! i) \<noteq> k" for k
    using that len(3) by (intro get0) (auto simp: R_def log0)
  ultimately show ?thesis
    using res eq(1) mp0 c log by (intro exI [of _ ?f] exI [of _ h]) (simp add: R_def log0 counts_saved_def)
qed

end
