(* ===== verification/Perm_Commit.thy ===== *)
theory Perm_Commit
  imports Perm_Rollback
begin

text \<open>
  \<open>Commit\<close>: the rows of the memory pool and two rows for the block, one for its miner and one for its
  height, go to the ledger and to the database (\<^verbatim>\<open>src/src/permissions/permission.cpp\<close>). The queries about
  committed blocks follow.
\<close>

section \<open>The flags of a block\<close>

text \<open>
  From a row of the memory pool to the next row of its key that is in consensus, or to the last one.
  \<open>None\<close> is a search still running when the fuel is gone.
\<close>

fun next_consensus :: "nat \<Rightarrow> mem_pool \<Rightarrow> ledger_row \<Rightarrow> ledger_row option" where
  "next_consensus 0 mp pldNext = None"
| "next_consensus (Suc n) mp pldNext =
     (case buf_Seek mem_key mp (mem_key pldNext) of
        None \<Rightarrow> Some pldNext
      | Some i \<Rightarrow>
          (let row = buf_GetRow mp i; row' = row\<lparr>l_PrevRow := l_ThisRow row\<rparr>
           in if l_Consensus row \<noteq> 0 then Some row' else next_consensus n mp row'))"

definition governance_change :: "mc_Permissions \<Rightarrow> ledger_row \<Rightarrow> bool" where
  "governance_change s row =
     (let pldLast = snd (GetPermissionRow s (l_Entity row) (l_Address row) (l_Type row) False);
          nb = next_block s
      in if l_ThisRow pldLast \<noteq> 0 then
           l_BlockFrom row \<noteq> l_BlockFrom pldLast \<and> (nb < l_BlockFrom row \<or> nb < l_BlockFrom pldLast) \<or>
           l_BlockTo row \<noteq> l_BlockTo pldLast \<and> (nb < l_BlockTo row \<or> nb < l_BlockTo pldLast)
         else l_BlockFrom row < l_BlockTo row \<and> nb < l_BlockTo row)"

definition row_flags :: "mc_Permissions \<Rightarrow> ledger_row \<Rightarrow> u32 \<Rightarrow> u32 option" where
  "row_flags s row flags =
     (if flags AND MC_PFB_GOVERNANCE_CHANGE = 0 \<and> l_Type row AND (MC_PTP_ADMIN OR MC_PTP_MINE) \<noteq> 0 \<and>
         mc_IsNullEntity (Some (l_Entity row)) \<and> 0 < l_Consensus row
      then (case next_consensus (Suc (m_Count (p_MemPool s))) (p_MemPool s)
                   (row\<lparr>l_PrevRow := l_ThisRow row\<rparr>) of
              None \<Rightarrow> None
            | Some pldNext \<Rightarrow>
                Some (if (l_Consensus pldNext = 0 \<or> l_ThisRow pldNext = l_ThisRow row) \<and> governance_change s row
                      then flags OR MC_PFB_GOVERNANCE_CHANGE else flags))
      else Some flags)"

fun rows_flags :: "mc_Permissions \<Rightarrow> ledger_row list \<Rightarrow> u32 \<Rightarrow> u32 option" where
  "rows_flags s [] flags = Some flags"
| "rows_flags s (row # rows) flags =
     (case row_flags s row flags of None \<Rightarrow> None | Some flags' \<Rightarrow> rows_flags s rows flags')"

definition CalculateBlockFlags :: "mc_Permissions \<Rightarrow> u32 option" where
  "CalculateBlockFlags s =
     rows_flags s (map (buf_GetRow (p_MemPool s)) [0..<buf_GetCount (p_MemPool s)]) MC_PFB_NONE"

section \<open>The rows of a block\<close>

definition block_row :: "mc_Permissions \<Rightarrow> address \<Rightarrow> u32 \<Rightarrow> nat \<Rightarrow> hash256 \<Rightarrow> u32 \<Rightarrow> ledger_row" where
  "block_row s a type prev hash flags =
     set_CommitHash hash (zero_row\<lparr>l_Address := a, l_Type := type, l_PrevRow := prev,
       l_BlockFrom := next_block s, l_BlockTo := next_block s, l_BlockReceived := next_block s,
       l_ThisRow := p_Row s, l_Offset := flags\<rparr>)"

definition push_row :: "mc_Permissions \<Rightarrow> ledger_row \<Rightarrow> mc_Permissions" where
  "push_row s row = s\<lparr>p_MemPool := buf_Add mem_key (p_MemPool s) row, p_Row := p_Row s + 1\<rparr>"

definition add_block_rows :: "mc_Permissions \<Rightarrow> address \<Rightarrow> hash256 \<Rightarrow> u32 \<Rightarrow> mc_Permissions" where
  "add_block_rows s miner hash block_flags =
     (let pldBlockLast = snd (GetPermission3 s miner MC_PTP_BLOCK_MINER);
          flags = (bl_BlockFlags pldBlockLast AND MC_PFB_MINED_BEFORE) OR block_flags;
          s1 = push_row s (block_row s miner MC_PTP_BLOCK_MINER (l_ThisRow pldBlockLast) hash flags)
      in push_row s1 (block_row s1 (block_address (next_block s)) MC_PTP_BLOCK_INDEX
                       (p_Row s1 - buf_GetCount (p_MemPool s1) - 1) hash flags))"

section \<open>CommitInternal\<close>

definition write_nth_row :: "mc_Permissions \<Rightarrow> mc_PermissionLedger \<Rightarrow> nat \<Rightarrow> mc_PermissionLedger" where
  "write_nth_row s lg i =
     (let row = buf_GetRow (p_MemPool s) i
      in if i \<noteq> 0 then snd (ledger_WriteRow lg row)
         else snd (ledger_SetRow lg (p_Row s - buf_GetCount (p_MemPool s)) row))"

definition write_rows :: "mc_Permissions \<Rightarrow> mc_PermissionLedger \<Rightarrow> nat list \<Rightarrow> mc_PermissionLedger" where
  "write_rows s lg is = foldl (write_nth_row s) lg is"

text \<open>The database entry of a row, and for admins and miners the entry of the index.\<close>

definition commit_entry :: "ledger_row \<Rightarrow> int \<times> perm_db \<Rightarrow> int \<times> perm_db" where
  "commit_entry row st =
     (case st of (err, db) \<Rightarrow>
        if err = MC_ERR_NOERROR then
          (let w = db_Write db (row_key row) (PermVal (row_val row)) True
           in if (l_Type row = MC_PTP_ADMIN \<or> l_Type row = MC_PTP_MINE) \<and> l_Entity row = null_entity
              then db_Write (snd w) (DbKey adminminerlist_entity (l_Address row) (l_Type row))
                     (PermVal zero_val) True
              else w)
        else (err, db))"

definition set_block_counts :: "mc_Permissions \<Rightarrow> mc_PermissionLedger \<Rightarrow> nat \<Rightarrow> mc_PermissionLedger" where
  "set_block_counts s lg i =
     (let n = p_Row s - buf_GetCount (p_MemPool s) + i;
          row = snd (ledger_GetRow lg n zero_row)
      in snd (ledger_SetRow lg n (row\<lparr>l_Consensus := word_of_int (p_AdminCount s),
           l_Flags := word_of_int (p_MinerCount s)\<rparr>)))"

text \<open>The part up to the commit of the database; the result is the error and the new database and ledger.\<close>

definition commit_write :: "mc_Permissions \<Rightarrow> nat \<Rightarrow> int \<times> perm_db \<times> mc_PermissionLedger" where
  "commit_write s pld_items =
     (let count = buf_GetCount (p_MemPool s); thisBlock = p_Block s + 1;
          rows = map (buf_GetRow (p_MemPool s)) [0..<count];
          lg1 = write_rows s (p_Ledger s) [0..<pld_items];
          e = fold commit_entry rows (MC_ERR_NOERROR, p_Database s);
          w = (if fst e = MC_ERR_NOERROR then write_header_entry (snd e) thisBlock (p_Row s) else e);
          lg2 = (if fst w = MC_ERR_NOERROR then write_rows s lg1 [pld_items..<count] else lg1);
          lg3 = (if fst w = MC_ERR_NOERROR then write_header_row lg2 thisBlock (p_Row s) else lg2);
          c = (if fst w = MC_ERR_NOERROR then db_Commit (snd w) True else w)
      in (fst c, snd c, lg3))"

section \<open>The information kept about a block\<close>

record grants_state =
  g_Err :: int
  g_Database :: perm_db
  g_Items :: nat
  g_LastOffset :: u32
  g_RecordID :: u32
  g_Offsets :: "u32 list"

abbreviation (input) MC_PLS_SIZE_OFFSETS_PER_ROW :: nat where "MC_PLS_SIZE_OFFSETS_PER_ROW \<equiv> 6"

definition grants_key :: "hash256 \<Rightarrow> u32 \<Rightarrow> db_key" where
  "grants_key hash record = DbKey hash (ucast (bswap32 record)) MC_PTP_BLOCK_MINER"

definition write_grants :: "hash256 \<Rightarrow> grants_state \<Rightarrow> grants_state" where
  "write_grants hash g =
     (let w = db_Write (g_Database g) (grants_key hash (g_RecordID g)) (GrantsVal (g_Offsets g)) True
      in g\<lparr>g_Err := fst w, g_Database := snd w\<rparr>)"

text \<open>The offset of a grant transaction goes into the record of six; a full record is written first.\<close>

definition store_offset :: "hash256 \<Rightarrow> u32 \<Rightarrow> grants_state \<Rightarrow> grants_state" where
  "store_offset hash offset g =
     (if offset \<noteq> g_LastOffset g then
        (let full = 0 < g_Items g \<and> g_Items g mod MC_PLS_SIZE_OFFSETS_PER_ROW = 0;
             g1 = (if full then (write_grants hash g)\<lparr>g_Offsets := replicate MC_PLS_SIZE_OFFSETS_PER_ROW 0\<rparr> else g)
         in g1\<lparr>g_RecordID := of_nat (g_Items g div MC_PLS_SIZE_OFFSETS_PER_ROW) + 1,
              g_Offsets := (g_Offsets g1)[g_Items g mod MC_PLS_SIZE_OFFSETS_PER_ROW := offset],
              g_LastOffset := offset, g_Items := g_Items g + 1\<rparr>)
      else g)"

definition store_grant :: "u32 \<Rightarrow> hash256 \<Rightarrow> ledger_row \<Rightarrow> grants_state \<Rightarrow> grants_state" where
  "store_grant block hash row g =
     (if g_Err g = MC_ERR_NOERROR then
        (if (l_Type row = MC_PTP_ADMIN \<or> l_Type row = MC_PTP_MINE) \<and> l_Entity row = null_entity \<and>
            l_BlockReceived row = block
         then (let w = db_Write (g_Database g) (DbKey adminminerlist_entity (l_Address row) (l_Type row))
                         (PermVal zero_val) True
               in store_offset hash (l_Offset row) (g\<lparr>g_Err := fst w, g_Database := snd w\<rparr>))
         else g)
      else g)"

definition store_grants :: "mc_Permissions \<Rightarrow> hash256 \<Rightarrow> perm_db" where
  "store_grants s hash =
     (let rows = map (buf_GetRow (p_MemPool s)) [0..<buf_GetCount (p_MemPool s)];
          g0 = \<lparr>g_Err = MC_ERR_NOERROR, g_Database = p_Database s, g_Items = 0, g_LastOffset = 0,
                g_RecordID = 0, g_Offsets = replicate MC_PLS_SIZE_OFFSETS_PER_ROW 0\<rparr>;
          g1 = fold (store_grant (next_block s) hash) rows g0;
          g2 = (if g_Err g1 = MC_ERR_NOERROR \<and> 0 < g_Items g1 then write_grants hash g1 else g1)
      in if g_Err g2 = MC_ERR_NOERROR then snd (db_Commit (g_Database g2) True) else g_Database g2)"

definition admin_miner_count :: "mc_Permissions \<Rightarrow> u32" where
  "admin_miner_count s =
     (if p_AdminCount s \<le> 0xffff \<and> p_MinerCount s \<le> 0xffff
      then push_bit 16 (word_of_int (p_AdminCount s)) + word_of_int (p_MinerCount s) else 0)"

definition StoreBlockInfoInternal ::
    "net_params \<Rightarrow> mc_Permissions \<Rightarrow> address \<Rightarrow> hash256 \<Rightarrow> bool \<Rightarrow> (int \<times> mc_Permissions) option" where
  "StoreBlockInfoInternal np s miner hash update_counts =
     (if \<not> CachedInputScript np \<or> np_Int64 np ''supportminerprecheck'' = 0 \<or> np_ANYONE_CAN_MINE np
      then Some (MC_ERR_NOERROR, s)
      else
        (let s1 = s\<lparr>p_Database := store_grants s hash\<rparr>;
             counted = (if update_counts
               then map_option (\<lambda>(e, s2). s2\<lparr>p_ClearedMinerCountForMinerVerification := p_MinerCount s2,
                      p_Block := p_Block s2 - 1\<rparr>) (UpdateCounts (s1\<lparr>p_Block := p_Block s1 + 1\<rparr>))
               else Some s1)
         in map_option (\<lambda>s2.
              let w = db_Write (p_Database s2) (DbKey hash 0 MC_PTP_BLOCK_MINER)
                        (MinerVal miner (admin_miner_count s2)) False;
                  c = (if fst w = MC_ERR_NOERROR then db_Commit (snd w) False else w)
              in (MC_ERR_NOERROR, s2\<lparr>p_Database := snd c\<rparr>)) counted))"

definition StoreBlockInfo ::
    "net_params \<Rightarrow> mc_Permissions \<Rightarrow> address \<Rightarrow> hash256 \<Rightarrow> (int \<times> mc_Permissions) option" where
  "StoreBlockInfo np s miner hash =
     map_option (\<lambda>(result, s1). (result, s1\<lparr>p_Block := p_Block s1 + 1\<rparr>))
       (StoreBlockInfoInternal np s miner hash True)"

section \<open>Commit\<close>

text \<open>
  After the database is committed: the recount for the new height, the counters in the block rows,
  the memory pool emptied and the block counted. The ledger file is opened once more in between; it
  can be, since it could be at the start.
\<close>

definition commit_finish ::
    "net_params \<Rightarrow> mc_Permissions \<Rightarrow> nat \<Rightarrow> address \<Rightarrow> hash256 \<Rightarrow> (int \<times> mc_Permissions) option" where
  "commit_finish np s pld_items miner hash =
     (case UpdateCounts (s\<lparr>p_Block := p_Block s + 1\<rparr>) of
        None \<Rightarrow> None
      | Some (e, s1) \<Rightarrow>
          (let s2 = s1\<lparr>p_Block := p_Block s1 - 1, p_ClearedAdminCount := p_AdminCount s1,
                 p_ClearedMinerCount := p_MinerCount s1,
                 p_ClearedMinerCountForMinerVerification := p_MinerCount s1\<rparr>;
               lg = foldl (set_block_counts s2) (p_Ledger s2) [pld_items..<buf_GetCount (p_MemPool s2)];
               s3 = s2\<lparr>p_Ledger := lg, p_MemPool := buf_Clear (p_MemPool s2)\<rparr>
           in case StoreBlockInfoInternal np s3 miner hash False of
                None \<Rightarrow> None
              | Some (e', s4) \<Rightarrow> Some (MC_ERR_NOERROR, s4\<lparr>p_Block := p_Block s4 + 1\<rparr>)))"

text \<open>
  The miner is a pointer that the code tests, but the message at the end reads through it, so a NULL
  pointer is a crash, \<open>None\<close>.
\<close>

definition CommitInternal ::
    "net_params \<Rightarrow> mc_Permissions \<Rightarrow> address option \<Rightarrow> hash256 \<Rightarrow> (int \<times> mc_Permissions) option" where
  "CommitInternal np s lpMiner hash =
     (case (CalculateBlockFlags s, lpMiner) of
        (Some block_flags, Some miner) \<Rightarrow>
          (let pld_items = buf_GetCount (p_MemPool s);
               s1 = add_block_rows s miner hash block_flags
           in if \<not> lg_CanOpen (p_Ledger s1) then Some (MC_ERR_DBOPEN_ERROR, s1)
              else case commit_write s1 pld_items of (err, db, lg) \<Rightarrow>
                let s2 = s1\<lparr>p_Database := db, p_Ledger := lg\<rparr>
                in if err \<noteq> MC_ERR_NOERROR
                   then map_option (\<lambda>(e, s3). (err, s3)) (RollBackInternal s2 (p_Block s2))
                   else commit_finish np s2 pld_items miner hash)
      | _ \<Rightarrow> None)"

definition Commit ::
    "net_params \<Rightarrow> mc_Permissions \<Rightarrow> address option \<Rightarrow> hash256 \<Rightarrow> (int \<times> mc_Permissions) option" where
  "Commit np s lpMiner hash = CommitInternal np s lpMiner hash"

section \<open>Queries about blocks\<close>

definition GetBlockMiner_height :: "mc_Permissions \<Rightarrow> u32 \<Rightarrow> int \<times> address option" where
  "GetBlockMiner_height s block =
     (let pldLast = snd (GetPermission3 s (block_address block) MC_PTP_BLOCK_INDEX);
          last_block_row = l_ThisRow pldLast
      in if last_block_row \<le> 1 then (MC_ERR_NOT_FOUND, None)
         else if \<not> lg_CanOpen (p_Ledger s) then (MC_ERR_FILE_READ_ERROR, None)
         else
           (let row = snd (ledger_GetRow (p_Ledger s) (last_block_row - 1) zero_row)
            in if l_Type row = MC_PTP_BLOCK_MINER then (MC_ERR_NOERROR, Some (l_Address row))
               else (MC_ERR_CORRUPTED, None)))"

definition VerifyBlockHash :: "mc_Permissions \<Rightarrow> int \<Rightarrow> hash256 \<Rightarrow> bool" where
  "VerifyBlockHash s block hash =
     (let pldLast = snd (GetPermission3 s (block_address (word_of_int block)) MC_PTP_BLOCK_INDEX);
          last_block_row = l_ThisRow pldLast
      in if last_block_row = 0 then False
         else if \<not> lg_CanOpen (p_Ledger s) then False
         else bl_CommitHash (snd (ledger_GetRow (p_Ledger s) last_block_row zero_row)) = hash)"

text \<open>From the height \<open>block\<close> down to \<open>start\<close> along the links of the index rows; 0 is not found.\<close>

fun governance_scan :: "mc_PermissionLedger \<Rightarrow> nat \<Rightarrow> nat \<Rightarrow> nat \<Rightarrow> nat" where
  "governance_scan lg start 0 last_row = 0"
| "governance_scan lg start (Suc n) last_row =
     (if start \<le> Suc n then
        (let row = snd (ledger_GetRow lg last_row zero_row)
         in if bl_BlockFlags row AND MC_PFB_GOVERNANCE_CHANGE \<noteq> 0 then Suc n
            else governance_scan lg start n (l_PrevRow row))
      else 0)"

definition FindGovernanceModelChange :: "mc_Permissions \<Rightarrow> u32 \<Rightarrow> u32 \<Rightarrow> u32" where
  "FindGovernanceModelChange s from to =
     (let start = (if from = 0 then 1 else from);
          block = (if p_Block s < sint to then word_of_int (p_Block s) else to)
      in if block < from then 0
         else
           (let pldLast = snd (GetPermission3 s (block_address block) MC_PTP_BLOCK_INDEX)
            in if \<not> lg_CanOpen (p_Ledger s) then 0
               else of_nat (governance_scan (p_Ledger s) (unat start) (unat block) (l_ThisRow pldLast))))"

definition GetBlockMiner_hash :: "mc_Permissions \<Rightarrow> hash256 \<Rightarrow> int \<times> (address \<times> u32) option" where
  "GetBlockMiner_hash s hash =
     (case fst (db_Read (p_Database s) (DbKey hash 0 MC_PTP_BLOCK_MINER)) of
        Some (MinerVal a n) \<Rightarrow> (snd (db_Read (p_Database s) (DbKey hash 0 MC_PTP_BLOCK_MINER)), Some (a, n))
      | _ \<Rightarrow> (MC_ERR_NOT_FOUND, None))"

definition GetBlockAdminMinerGrants :: "mc_Permissions \<Rightarrow> hash256 \<Rightarrow> u32 \<Rightarrow> int \<times> u32 list option" where
  "GetBlockAdminMinerGrants s hash record =
     (case fst (db_Read (p_Database s) (grants_key hash record)) of
        Some (GrantsVal offsets) \<Rightarrow> (snd (db_Read (p_Database s) (grants_key hash record)), Some offsets)
      | _ \<Rightarrow> (MC_ERR_NOT_FOUND, None))"

end
