(* ===== verification/Perm_Blocks.thy ===== *)
theory Perm_Blocks
  imports Perm_Commit
begin

text \<open>
  What a commit does to the log: the rows of the memory pool and the two rows of the block become the
  chain part, the database mirrors them, the counters are those of the new height. The invariant
  \<open>perm_chain\<close> is kept, and rolling the block back restores the log.
\<close>

section \<open>The rows of the block\<close>

lemma push_row_fields [simp]:
  "p_MemPool (push_row s r) = buf_Add mem_key (p_MemPool s) r" "p_Row (push_row s r) = Suc (p_Row s)"
  "p_Ledger (push_row s r) = p_Ledger s" "p_Database (push_row s r) = p_Database s"
  "p_Block (push_row s r) = p_Block s" "p_CopiedRow (push_row s r) = p_CopiedRow s"
  "ledger_used (push_row s r) = ledger_used s" "next_block (push_row s r) = next_block s"
  by (simp_all add: push_row_def ledger_used_def next_block_def)

lemma push_row_log [simp]: "p_log (push_row s r) = p_log s @ [r]"
  by (simp add: p_log_def buf_rows_Add)

lemma push_row_good:
  assumes good: "perm_good s" and row: "l_ThisRow r = p_Row s"
    "log_key (row_key r) \<and> l_PrevRow r = klast (row_key r) (p_log s) (p_Row s) \<or>
     index_key (row_key r) \<and> l_PrevRow r < p_Row s"
  shows "perm_good (push_row s r)"
proof -
  have wf: "perm_wf s" using good by (simp add: perm_good_def)
  note len = perm_wf_length [OF wf]
  have "wf_log (p_log s @ [r])"
    using wf row len(1) by (intro wf_log_snoc) (auto simp: perm_wf_def)
  then show ?thesis
    using good wf len by (simp add: perm_good_def perm_healthy_def perm_wf_def db_mirrors_append)
qed

lemma block_row_fields [simp]:
  "row_key (block_row s a t prev hash fl) = DbKey 0 a t" "l_ThisRow (block_row s a t prev hash fl) = p_Row s"
  "l_PrevRow (block_row s a t prev hash fl) = prev" "l_Address (block_row s a t prev hash fl) = a"
  "l_Type (block_row s a t prev hash fl) = t" "l_Entity (block_row s a t prev hash fl) = 0"
  "l_BlockReceived (block_row s a t prev hash fl) = next_block s"
  "l_BlockFrom (block_row s a t prev hash fl) = next_block s"
  "bl_CommitHash (block_row s a t prev hash fl) = hash"
  by (simp_all add: block_row_def) (simp_all add: row_key_def set_CommitHash_def zero_row_def)

lemma miner_log_key: "log_key (DbKey 0 a MC_PTP_BLOCK_MINER)"
  using special_entities_distinct by (simp add: log_key_def null_entity_def)

lemma height_index_key: "index_key (DbKey 0 a MC_PTP_BLOCK_INDEX)"
  by (simp add: index_key_def null_entity_def)

text \<open>\<open>block_rows s s1 miner hash b1 b2\<close>: \<open>s1\<close> is \<open>s\<close> with the miner's row \<open>b1\<close> and the height's row \<open>b2\<close>.\<close>

definition block_rows ::
    "mc_Permissions \<Rightarrow> address \<Rightarrow> hash256 \<Rightarrow> ledger_row \<Rightarrow> ledger_row \<Rightarrow> bool" where
  "block_rows s miner hash b1 b2 \<longleftrightarrow>
     row_key b1 = DbKey 0 miner MC_PTP_BLOCK_MINER \<and> l_ThisRow b1 = p_Row s \<and>
     row_key b2 = DbKey 0 (block_address (next_block s)) MC_PTP_BLOCK_INDEX \<and> l_ThisRow b2 = Suc (p_Row s) \<and>
     l_BlockReceived b1 = next_block s \<and> l_BlockReceived b2 = next_block s \<and>
     l_BlockFrom b1 = next_block s \<and> bl_CommitHash b1 = hash \<and> bl_CommitHash b2 = hash \<and>
     l_PrevRow b2 = ledger_used s - 1 \<and>
     (\<exists>flags. CalculateBlockFlags s = Some flags \<and>
        bl_BlockFlags b2 AND MC_PFB_GOVERNANCE_CHANGE = flags AND MC_PFB_GOVERNANCE_CHANGE)"

lemma add_block_rows_good:
  assumes good: "perm_good s" and flags: "CalculateBlockFlags s = Some flags"
  shows "\<exists>b1 b2. add_block_rows s miner hash flags = push_row (push_row s b1) b2 \<and> perm_good (push_row (push_row s b1) b2) \<and>
     block_rows s miner hash b1 b2"
proof -
  let ?last = "snd (GetPermission3 s miner MC_PTP_BLOCK_MINER)"
  have wf: "perm_wf s" using good by (simp add: perm_good_def)
  note len = perm_wf_length [OF wf]
  have "shows_log (p_log s) (p_Row s) (DbKey 0 miner MC_PTP_BLOCK_MINER) ?last"
    using GetPermission5_log(2) [OF good, of None miner MC_PTP_BLOCK_MINER] miner_log_key [of miner]
    by (simp add: GetPermission3_def lp_deref_def null_entity_def)
  then have prev: "l_ThisRow ?last = klast (DbKey 0 miner MC_PTP_BLOCK_MINER) (p_log s) (p_Row s)"
    by (simp add: shows_log_def)
  define fl where "fl = (bl_BlockFlags ?last AND MC_PFB_MINED_BEFORE) OR flags"
  define b1 where "b1 = block_row s miner MC_PTP_BLOCK_MINER (l_ThisRow ?last) hash fl"
  define s1 where "s1 = push_row s b1"
  define b2 where "b2 = block_row s1 (block_address (next_block s)) MC_PTP_BLOCK_INDEX
      (p_Row s1 - buf_GetCount (p_MemPool s1) - 1) hash fl"
  have g1: "perm_good s1" unfolding s1_def
    by (rule push_row_good [OF good]) (simp_all add: b1_def prev miner_log_key)
  have "perm_good (push_row s1 b2)"
    by (rule push_row_good [OF g1]) (simp_all add: b2_def height_index_key s1_def less_Suc_eq_le)
  moreover have "add_block_rows s miner hash flags = push_row s1 b2"
    by (simp add: add_block_rows_def Let_def s1_def b1_def b2_def fl_def)
  moreover have "bl_BlockFlags b2 AND MC_PFB_GOVERNANCE_CHANGE = flags AND MC_PFB_GOVERNANCE_CHANGE"
    by (simp add: b2_def fl_def bl_BlockFlags_def block_row_def set_CommitHash_def bit.conj_disj_distrib2
        and.assoc)
  ultimately show ?thesis using flags
    by (intro exI [of _ b1] exI [of _ b2])
      (simp add: s1_def block_rows_def, simp add: b1_def b2_def s1_def buf_GetCount_def ledger_used_def)
qed

section \<open>The ledger after the writes\<close>

lemma ledger_SetRow_open:
  "lg_CanOpen lg \<Longrightarrow> ledger_SetRow lg i r =
     (MC_ERR_NOERROR, lg\<lparr>lg_Rows := write_at (lg_Rows lg) i r, lg_Pos := Suc i\<rparr>)"
  by (simp add: ledger_SetRow_def ledger_WriteRow_def)

lemma take_write_at:
  assumes "i \<le> length rs"
  shows "take (Suc i) (write_at rs i r) = take i rs @ [r]" and "Suc i \<le> length (write_at rs i r)"
    and "drop (Suc i) (write_at rs i r) = drop (Suc i) rs"
  using assms by (auto simp: write_at_def take_Suc_conv_app_nth)

text \<open>Writing the pool's rows in order extends the used part of the file by them.\<close>

lemma write_rows_prefix:
  assumes op: "lg_CanOpen lg" and L: "L = p_Row s - m_Count (p_MemPool s)" "L \<le> length (lg_Rows lg)"
  shows "n \<le> m_Count (p_MemPool s) \<Longrightarrow>
    (let lg' = write_rows s lg [0..<n] in
     lg_CanOpen lg' \<and> L + n \<le> length (lg_Rows lg') \<and> (0 < n \<longrightarrow> lg_Pos lg' = L + n) \<and>
     take (L + n) (lg_Rows lg') = take L (lg_Rows lg) @ take n (buf_rows (p_MemPool s)) \<and>
     drop (L + n) (lg_Rows lg') = drop (L + n) (lg_Rows lg))"
proof (induction n)
  case 0
  then show ?case using assms by (simp add: write_rows_def)
next
  case (Suc n)
  define lg' where "lg' = write_rows s lg [0..<n]"
  from Suc have IH: "lg_CanOpen lg'" "L + n \<le> length (lg_Rows lg')" "0 < n \<longrightarrow> lg_Pos lg' = L + n"
    "take (L + n) (lg_Rows lg') = take L (lg_Rows lg) @ take n (buf_rows (p_MemPool s))"
    and rest: "drop (L + n) (lg_Rows lg') = drop (L + n) (lg_Rows lg)"
    by (simp_all add: lg'_def Let_def)
  have rest': "drop (Suc (L + n)) (lg_Rows lg') = drop (Suc (L + n)) (lg_Rows lg)"
    using arg_cong [OF rest, of "drop 1"] by simp
  let ?r = "buf_GetRow (p_MemPool s) n"
  have step: "write_rows s lg [0..<Suc n] = lg'\<lparr>lg_Rows := write_at (lg_Rows lg') (L + n) ?r, lg_Pos := Suc (L + n)\<rparr>"
    using IH(1,3) L(1)
    by (cases "n = 0")
      (simp_all add: lg'_def write_rows_def write_nth_row_def ledger_SetRow_open ledger_WriteRow_def buf_GetCount_def)
  have "?r = buf_rows (p_MemPool s) ! n" using Suc.prems by (simp add: buf_GetRow_nth)
  then show ?case
    using IH rest' Suc.prems take_write_at [OF IH(2), of ?r] unfolding step Let_def
    by (simp add: take_Suc_conv_app_nth)
qed

lemma write_rows_split: "m \<le> n \<Longrightarrow> write_rows s (write_rows s lg [0..<m]) [m..<n] = write_rows s lg [0..<n]"
  using upt_add_eq_append [of 0 m "n - m"] by (simp add: write_rows_def flip: foldl_append)

section \<open>Logs that differ in the block counters only\<close>

definition row_sim :: "ledger_row \<Rightarrow> ledger_row \<Rightarrow> bool" where
  "row_sim r r' \<longleftrightarrow> row_key r' = row_key r \<and> l_ThisRow r' = l_ThisRow r \<and> l_PrevRow r' = l_PrevRow r \<and>
     l_BlockFrom r' = l_BlockFrom r \<and> l_BlockTo r' = l_BlockTo r \<and>
     (l_Type r \<noteq> MC_PTP_BLOCK_MINER \<longrightarrow> l_Type r \<noteq> MC_PTP_BLOCK_INDEX \<longrightarrow> l_Flags r' = l_Flags r)"

definition log_sim :: "ledger_row list \<Rightarrow> ledger_row list \<Rightarrow> bool" where
  "log_sim R R' \<longleftrightarrow> length R' = length R \<and> (\<forall>i<length R. 0 < i \<longrightarrow> row_sim (R ! i) (R' ! i))"

lemma log_sim_klast: "log_sim R R' \<Longrightarrow> n \<le> length R \<Longrightarrow> klast k R' n = klast k R n"
  by (induction n) (auto simp: klast_Suc log_sim_def row_sim_def)

lemma log_sim_wf: "log_sim R R' \<Longrightarrow> wf_log R \<Longrightarrow> wf_log R'"
  using log_sim_klast [of R R']
  by (auto simp: wf_log_def wf_row_def log_sim_def row_sim_def)

lemma log_sim_row:
  assumes "log_sim R R'" and "n \<le> length R" and "klast k R n \<noteq> 0"
  shows "row_sim (R ! klast k R n) (R' ! klast k R n)"
  using assms klast_less [of n k R] by (cases "n = 0") (auto simp: log_sim_def)

lemma log_sim_val:
  assumes sim: "log_sim R R'" and n: "n \<le> length R" and k: "log_key k"
  shows "log_val R' n k = log_val R n k"
proof (cases "klast k R n = 0")
  case True
  then show ?thesis by (simp add: log_val_def log_sim_klast [OF sim n])
next
  case False
  have "l_Type (R ! klast k R n) = dk_Type k" using arg_cong [OF klast_key [of k R n], of dk_Type] False by (simp add: row_key_def)
  with log_sim_row [OF sim n False] k False show ?thesis
    by (auto simp: log_val_def log_sim_klast [OF sim n] flagless_def row_val_def row_sim_def log_key_def Let_def)
qed

lemma log_sim_range:
  assumes "log_sim R R'" and "n \<le> length R"
  shows "log_from R' n k = log_from R n k" and "log_to R' n k = log_to R n k"
  using log_sim_row [OF assms, of k] by (auto simp: log_row_defs log_sim_klast [OF assms] row_sim_def)

lemma log_sim_mirrors: "log_sim R R' \<Longrightarrow> n \<le> length R \<Longrightarrow> db_mirrors get R' n = db_mirrors get R n"
  by (simp add: db_mirrors_def log_sim_val)

lemma log_sim_index: "log_sim R R' \<Longrightarrow> n \<le> length R \<Longrightarrow> index_ok get R' n = index_ok get R n"
  by (simp add: index_ok_def log_sim_klast)

section \<open>The database after the writes\<close>

text \<open>Rows of admins and miners of the zero address, which the recount would miss.\<close>

definition zero_admin :: "ledger_row \<Rightarrow> bool" where
  "zero_admin r \<longleftrightarrow> l_Address r = 0 \<and> l_Entity r = null_entity \<and> (l_Type r = MC_PTP_ADMIN \<or> l_Type r = MC_PTP_MINE)"

lemma not_list_key: "log_key k \<or> index_key k \<Longrightarrow> k \<noteq> DbKey adminminerlist_entity a t"
  using special_entities_distinct by (auto simp: log_key_def index_key_def)

lemma commit_entry_view:
  assumes wf: "wf_log R" and n: "0 < n" "n < length R" and h: "db_healthy db"
    and mir: "db_mirrors (db_view db) R n" and ix: "index_ok (db_view db) R n" and z: "\<not> zero_admin (R ! n)"
  shows "\<exists>db'. commit_entry (R ! n) (MC_ERR_NOERROR, db) = (MC_ERR_NOERROR, db') \<and> db_healthy db' \<and>
     db_Store db' = db_Store db \<and> db_mirrors (db_view db') R (Suc n) \<and> index_ok (db_view db') R (Suc n) \<and>
     db_view db' (row_key (R ! n)) = Some (PermVal (row_val (R ! n))) \<and>
     (\<forall>k. \<not> log_key k \<longrightarrow> dk_Entity k \<noteq> adminminerlist_entity \<longrightarrow> k \<noteq> row_key (R ! n) \<longrightarrow> db_view db' k = db_view db k)"
proof -
  let ?r = "R ! n" and ?k = "row_key (R ! n)"
  let ?a = "DbKey adminminerlist_entity (l_Address ?r) (l_Type ?r)"
  define am where "am \<longleftrightarrow> (l_Type ?r = MC_PTP_ADMIN \<or> l_Type ?r = MC_PTP_MINE) \<and> l_Entity ?r = null_entity"
  have kk: "?k \<noteq> DbKey adminminerlist_entity a t" for a t
    using wf_logD [OF wf n] by (intro not_list_key) (auto simp: wf_row_def)
  obtain db1 where db1: "db_Write db ?k (PermVal (row_val ?r)) True = (MC_ERR_NOERROR, db1)" "db_healthy db1"
      "db_Store db1 = db_Store db" and v1: "\<And>j. db_view db1 j = (if j = ?k then Some (PermVal (row_val ?r)) else db_view db j)"
    using db_Write_view [OF h] by blast
  obtain db2 where db2: "db_Write db1 ?a (PermVal zero_val) True = (MC_ERR_NOERROR, db2)" "db_healthy db2"
      "db_Store db2 = db_Store db1" and v2: "\<And>j. db_view db2 j = (if j = ?a then Some (PermVal zero_val) else db_view db1 j)"
    using db_Write_view [OF db1(2)] by blast
  define db' where "db' = (if am then db2 else db1)"
  have v: "db_view db' j = (if am \<and> j = ?a then Some (PermVal zero_val)
      else if j = ?k then Some (PermVal (row_val ?r)) else db_view db j)" for j
    using v1 v2 by (simp add: db'_def)
  have "commit_entry ?r (MC_ERR_NOERROR, db) = (MC_ERR_NOERROR, db')"
    using db1(1) db2(1) by (simp add: commit_entry_def db'_def am_def Let_def)
  moreover have "db_mirrors (db_view db') R (Suc n)"
    unfolding db_mirrors_def
  proof (intro allI impI)
    fix k
    assume k: "log_key k"
    then have ka: "k \<noteq> ?a" by (intro not_list_key) simp
    show "flagless k (db_view db' k) = log_val R (Suc n) k"
    proof (cases "k = ?k")
      case True
      then show ?thesis using kk n by (simp add: v log_val_def klast_Suc)
    next
      case False
      then show ?thesis using mir k ka log_val_Suc_other [of R n k] by (simp add: v db_mirrors_def)
    qed
  qed
  moreover have "index_ok (db_view db') R (Suc n)"
    unfolding index_ok_def
  proof (intro conjI allI impI)
    show "db_view db' marker_key \<noteq> None" using ix by (simp add: v index_ok_def)
  next
    fix a t
    assume t: "t = MC_PTP_ADMIN \<or> t = MC_PTP_MINE" and "klast (DbKey null_entity a t) R (Suc n) \<noteq> 0"
    then have "klast (DbKey null_entity a t) R n \<noteq> 0 \<or> am \<and> l_Address ?r = a \<and> l_Type ?r = t"
      by (auto simp: klast_Suc am_def row_key_def split: if_splits)
    then show "a \<noteq> 0" and "db_view db' (DbKey adminminerlist_entity a t) \<noteq> None"
      using ix t z by (auto simp: index_ok_def v zero_admin_def am_def)
  qed
  ultimately show ?thesis
    using db1 db2 kk by (intro exI [of _ db']) (simp add: v, simp add: db'_def)
qed

lemma commit_entries_view:
  assumes wf: "wf_log R" and L: "0 < L" and h: "db_healthy db"
    and mir: "db_mirrors (db_view db) R L" and ix: "index_ok (db_view db) R L"
    and z: "\<And>i. L \<le> i \<Longrightarrow> i < length R \<Longrightarrow> \<not> zero_admin (R ! i)"
  shows "L + n \<le> length R \<Longrightarrow>
    \<exists>db'. fold commit_entry (map (\<lambda>i. R ! (L + i)) [0..<n]) (MC_ERR_NOERROR, db) = (MC_ERR_NOERROR, db') \<and>
      db_healthy db' \<and> db_Store db' = db_Store db \<and> db_mirrors (db_view db') R (L + n) \<and>
      index_ok (db_view db') R (L + n) \<and>
      (0 < n \<longrightarrow> db_view db' (row_key (R ! (L + n - 1))) = Some (PermVal (row_val (R ! (L + n - 1))))) \<and>
      (\<forall>k. \<not> log_key k \<longrightarrow> dk_Entity k \<noteq> adminminerlist_entity \<longrightarrow>
        (\<forall>i. L \<le> i \<longrightarrow> i < L + n \<longrightarrow> row_key (R ! i) \<noteq> k) \<longrightarrow> db_view db' k = db_view db k)"
proof (induction n)
  case 0
  then show ?case using h mir ix by simp
next
  case (Suc n)
  then obtain db1 where db1: "fold commit_entry (map (\<lambda>i. R ! (L + i)) [0..<n]) (MC_ERR_NOERROR, db) = (MC_ERR_NOERROR, db1)"
    "db_healthy db1" "db_Store db1 = db_Store db" "db_mirrors (db_view db1) R (L + n)" "index_ok (db_view db1) R (L + n)"
    and o: "\<And>k. \<not> log_key k \<Longrightarrow> dk_Entity k \<noteq> adminminerlist_entity \<Longrightarrow>
        (\<And>i. L \<le> i \<Longrightarrow> i < L + n \<Longrightarrow> row_key (R ! i) \<noteq> k) \<Longrightarrow> db_view db1 k = db_view db k"
    by auto
  have ln: "0 < L + n" "L + n < length R" using L Suc.prems by simp_all
  from commit_entry_view [OF wf this db1(2,4,5) z [OF le_add1 ln(2)]]
  obtain db' where db': "commit_entry (R ! (L + n)) (MC_ERR_NOERROR, db1) = (MC_ERR_NOERROR, db')" "db_healthy db'"
    "db_Store db' = db_Store db1" "db_mirrors (db_view db') R (Suc (L + n))" "index_ok (db_view db') R (Suc (L + n))"
    "db_view db' (row_key (R ! (L + n))) = Some (PermVal (row_val (R ! (L + n))))"
    and o': "\<And>k. \<not> log_key k \<Longrightarrow> dk_Entity k \<noteq> adminminerlist_entity \<Longrightarrow> k \<noteq> row_key (R ! (L + n)) \<Longrightarrow>
        db_view db' k = db_view db1 k" by auto
  have "db_view db' k = db_view db k"
    if "\<not> log_key k" "dk_Entity k \<noteq> adminminerlist_entity" "\<forall>i. L \<le> i \<longrightarrow> i < L + Suc n \<longrightarrow> row_key (R ! i) \<noteq> k" for k
  proof -
    have "k \<noteq> row_key (R ! (L + n))" using that(3) [rule_format, of "L + n"] by auto
    from o' [OF that(1,2) this] show ?thesis using o [OF that(1,2)] that(3) by auto
  qed
  then show ?case using db' db1 by (intro exI [of _ db']) simp
qed

section \<open>Writing the block\<close>

lemma commit_write_good:
  assumes good: "perm_good s" and R: "R = p_log s" and nb: "db_Batch (p_Database s) = []"
    and ix: "index_ok (db_get (p_Database s)) R (ledger_used s)"
    and z: "\<And>i. ledger_used s \<le> i \<Longrightarrow> i < length R \<Longrightarrow> \<not> zero_admin (R ! i)"
    and items: "items \<le> m_Count (p_MemPool s)" and some: "0 < m_Count (p_MemPool s)"
  shows "\<exists>db lg h. commit_write s items = (MC_ERR_NOERROR, db, lg) \<and> db_healthy db \<and> store_ok (db_Store db) \<and>
     db_Batch db = [] \<and> db_mirrors (db_get db) R (p_Row s) \<and> index_ok (db_get db) R (p_Row s) \<and>
     lg_CanOpen lg \<and> p_Row s \<le> length (lg_Rows lg) \<and> take (p_Row s) (lg_Rows lg) = R[0 := h] \<and>
     db_get db (row_key (R ! (p_Row s - 1))) = Some (PermVal (row_val (R ! (p_Row s - 1)))) \<and>
     (\<exists>v. db_get db (DbKey 0 0 0) = Some (PermVal v) \<and> v_BlockTo v = word_of_int (p_Block s + 1) \<and> v_LedgerRow v = p_Row s) \<and>
     l_BlockTo h = word_of_int (p_Block s + 1) \<and> l_PrevRow h = p_Row s \<and>
     drop (p_Row s) (lg_Rows lg) = drop (p_Row s) (lg_Rows (p_Ledger s)) \<and>
     (\<forall>k. \<not> log_key k \<longrightarrow> dk_Entity k \<noteq> adminminerlist_entity \<longrightarrow> k \<noteq> DbKey 0 0 0 \<longrightarrow>
        (\<forall>i. ledger_used s \<le> i \<longrightarrow> i < p_Row s \<longrightarrow> row_key (R ! i) \<noteq> k) \<longrightarrow> db_get db k = db_get (p_Database s) k)"
proof -
  let ?L = "ledger_used s" and ?n = "m_Count (p_MemPool s)" and ?N = "p_Row s"
  have wf: "perm_wf s" and hl: "perm_healthy s" using good by (simp_all add: perm_good_def)
  note len = perm_wf_length [OF wf]
  have h0: "db_healthy (p_Database s)" "lg_CanOpen (p_Ledger s)" using hl by (simp_all add: perm_healthy_def)
  have wfR: "wf_log R" and lenR: "length R = ?N" using wf len(1) by (simp_all add: perm_wf_def R)
  have view: "db_view (p_Database s) = db_get (p_Database s)" by (rule ext) (simp add: db_view_empty [OF nb])
  have mem: "map (buf_GetRow (p_MemPool s)) [0..<?n] = map (\<lambda>i. R ! (?L + i)) [0..<?n]"
    using wf len p_log_mem [of s] by (auto simp: R buf_GetRow_nth perm_wf_def)
  obtain db1 where db1: "fold commit_entry (map (\<lambda>i. R ! (?L + i)) [0..<?n]) (MC_ERR_NOERROR, p_Database s) = (MC_ERR_NOERROR, db1)"
    "db_healthy db1" "db_Store db1 = db_Store (p_Database s)" "db_mirrors (db_view db1) R ?N"
    "index_ok (db_view db1) R ?N" "db_view db1 (row_key (R ! (?N - 1))) = Some (PermVal (row_val (R ! (?N - 1))))"
    "\<forall>k. \<not> log_key k \<longrightarrow> dk_Entity k \<noteq> adminminerlist_entity \<longrightarrow>
        (\<forall>i. ?L \<le> i \<longrightarrow> i < ?N \<longrightarrow> row_key (R ! i) \<noteq> k) \<longrightarrow> db_view db1 k = db_get (p_Database s) k"
    using commit_entries_view [OF wfR len(3) h0(1) _ _ z, of ?n] wf ix some lenR
    unfolding view len(2) by (auto simp: perm_wf_def R)
  obtain db2 v where db2: "write_header_entry db1 (p_Block s + 1) ?N = (MC_ERR_NOERROR, db2)" "db_healthy db2"
      "db_Store db2 = db_Store db1" "v_BlockTo v = word_of_int (p_Block s + 1)" "v_LedgerRow v = ?N"
    and v2: "\<And>j. db_view db2 j = (if j = DbKey 0 0 0 then Some (PermVal v) else db_view db1 j)"
    using write_header_entry_view [OF db1(2)] by blast
  have "store_ok (db_Store db2)" using wf db1(3) db2(3) by (simp add: perm_wf_def)
  then obtain db3 where db3: "db_Commit db2 True = (MC_ERR_NOERROR, db3)" "db_healthy db3"
      "store_ok (db_Store db3)" "db_Batch db3 = []" and v3: "\<And>k. db_get db3 k = db_view db2 k"
    using db_Commit_view [OF db2(2)] by blast
  have mir3: "db_mirrors (db_get db3) R ?N"
    using db1(4) by (auto simp: db_mirrors_def v2 v3 log_key_def)
  have ix3: "index_ok (db_get db3) R ?N"
    by (rule index_ok_cong [OF db1(5)]) (simp add: v2 v3)
  have last3: "db_get db3 (row_key (R ! (?N - 1))) = Some (PermVal (row_val (R ! (?N - 1))))"
  proof -
    have "0 < ?N - 1" "?N - 1 < length R" using len some lenR by simp_all
    from wf_logD [OF wfR this] have "row_key (R ! (?N - 1)) \<noteq> DbKey 0 0 0"
      by (auto simp: wf_row_def log_key_def index_key_def)
    then show ?thesis using db1(6) by (simp add: v3 v2)
  qed
  define lg2 where "lg2 = write_rows s (p_Ledger s) [0..<?n]"
  have lg2: "lg_CanOpen lg2" "?N \<le> length (lg_Rows lg2)" "take ?N (lg_Rows lg2) = R"
    "drop ?N (lg_Rows lg2) = drop ?N (lg_Rows (p_Ledger s))"
  proof -
    have L: "?L = p_Row s - m_Count (p_MemPool s)" by (simp add: ledger_used_def)
    have "?L \<le> length (lg_Rows (p_Ledger s))" using wf by (simp add: perm_wf_def)
    from write_rows_prefix [OF h0(2) L this order_refl]
    show "lg_CanOpen lg2" "?N \<le> length (lg_Rows lg2)" "take ?N (lg_Rows lg2) = R"
      "drop ?N (lg_Rows lg2) = drop ?N (lg_Rows (p_Ledger s))"
      by (simp_all add: Let_def lg2_def len(2) R p_log_def)
  qed
  let ?lg = "write_header_row lg2 (p_Block s + 1) ?N"
  have "lg_Rows lg2 \<noteq> []" using lg2(2) len by auto
  then obtain h where h: "lg_Rows ?lg = (lg_Rows lg2)[0 := h]" "lg_CanOpen ?lg"
    "l_BlockTo h = word_of_int (p_Block s + 1)" "l_PrevRow h = ?N"
    using write_header_row_rows [OF lg2(1)] by blast
  have "commit_write s items = (MC_ERR_NOERROR, db3, ?lg)"
    using db1(1) db2(1) db3(1) items
    by (simp add: commit_write_def Let_def buf_GetCount_def mem lg2_def write_rows_split)
  moreover have "take ?N (lg_Rows ?lg) = R[0 := h]" by (simp add: h(1) take_update_swap lg2(3))
  moreover have "\<forall>k. \<not> log_key k \<longrightarrow> dk_Entity k \<noteq> adminminerlist_entity \<longrightarrow> k \<noteq> DbKey 0 0 0 \<longrightarrow>
      (\<forall>i. ?L \<le> i \<longrightarrow> i < ?N \<longrightarrow> row_key (R ! i) \<noteq> k) \<longrightarrow> db_get db3 k = db_get (p_Database s) k"
    using db1(7) by (simp add: v2 v3)
  moreover have "db_get db3 (DbKey 0 0 0) = Some (PermVal v)" by (simp add: v2 v3)
  ultimately show ?thesis using db2(4,5) db3 mir3 ix3 last3 h lg2(2,4) len
    by (intro exI [of _ db3] exI [of _ ?lg] exI [of _ h]) (simp add: h(1))
qed

section \<open>The recount with the pool not yet cleared\<close>

text \<open>
  Once the database mirrors the whole log, the rows left in the pool change no answer: no row of the
  pool follows the last row of its key.
\<close>

lemma GetPermission5_mirrored:
  assumes good: "perm_good (s\<lparr>p_MemPool := buf_Clear mp\<rparr>)" and mp: "mp = p_MemPool s"
    and ok: "buf_ok mem_key mp" and k: "log_key (DbKey (lp_deref lp) a t)"
    and rows: "\<And>r. r \<in> set (buf_rows mp) \<Longrightarrow>
      \<exists>i. 0 < i \<and> i < p_Row s \<and> row_key (p_log (s\<lparr>p_MemPool := buf_Clear mp\<rparr>) ! i) = row_key r \<and>
        l_PrevRow r < i"
  shows "GetPermission5 s lp a t True = GetPermission5 (s\<lparr>p_MemPool := buf_Clear mp\<rparr>) lp a t True"
proof -
  let ?c = "s\<lparr>p_MemPool := buf_Clear mp\<rparr>" and ?k = "DbKey (lp_deref lp) a t"
  have used: "ledger_used ?c = p_Row s" by (simp add: ledger_used_def)
  obtain row pld where st: "GetPermission_stored ?c (lp_deref lp) a t (base_row (lp_deref lp) a t) = Some (row, pld)"
    and pld: "row_key pld = ?k" "l_PrevRow pld = klast ?k (p_log ?c) (p_Row s)"
    using GetPermission_stored_log [OF _ _ _ refl k, of ?c] good unfolding used by (auto simp: perm_good_def)
  have st': "GetPermission_stored s (lp_deref lp) a t (base_row (lp_deref lp) a t) = Some (row, pld)"
    using st GetPermission_stored_cong [of ?c s] by simp
  have "mem_key r \<noteq> (?k, l_PrevRow pld)" if "r \<in> set (buf_rows mp)" for r
  proof
    assume "mem_key r = (?k, l_PrevRow pld)"
    then have rk: "row_key r = ?k" "l_PrevRow r = klast ?k (p_log ?c) (p_Row s)"
      using pld by (simp_all add: mem_key_def)
    from rows [OF that] obtain i where i: "0 < i" "i < p_Row s" "row_key (p_log ?c ! i) = row_key r" "l_PrevRow r < i"
      by blast
    with klast_max [OF i(2,1), of "p_log ?c" ?k] rk show False by simp
  qed
  then have "buf_Seek mem_key mp (?k, l_PrevRow pld) = None"
    using ok by (simp add: buf_Seek_find find_idx_None)
  moreover have "buf_Seek mem_key (buf_Clear mp) q = None" for q
    by (simp add: buf_Seek_find find_idx_None)
  ultimately show ?thesis
    using st st' pld(1) by (simp add: GetPermission5_def GetPermissionRow_def Let_def next_block_def flip: mp)
qed

section \<open>The counters in the block rows\<close>

definition with_counts :: "mc_Permissions \<Rightarrow> ledger_row \<Rightarrow> ledger_row" where
  "with_counts s r = r\<lparr>l_Consensus := word_of_int (p_AdminCount s), l_Flags := word_of_int (p_MinerCount s)\<rparr>"

lemma with_counts_fields [simp]:
  "row_key (with_counts s r) = row_key r" "l_ThisRow (with_counts s r) = l_ThisRow r"
  "l_Address (with_counts s r) = l_Address r" "l_Type (with_counts s r) = l_Type r"
  "l_PrevRow (with_counts s r) = l_PrevRow r" "l_BlockReceived (with_counts s r) = l_BlockReceived r"
  "bl_CommitHash (with_counts s r) = bl_CommitHash r"
  "bl_AdminCount (with_counts s r) = word_of_int (p_AdminCount s)"
  "bl_MinerCount (with_counts s r) = word_of_int (p_MinerCount s)"
  by (simp_all add: with_counts_def row_key_def bl_CommitHash_def bl_AdminCount_def bl_MinerCount_def)

lemma set_block_counts_open:
  assumes "lg_CanOpen lg" and "p_Row s - m_Count (p_MemPool s) + i = n" and "n < length (lg_Rows lg)"
  shows "set_block_counts s lg i = lg\<lparr>lg_Rows := (lg_Rows lg)[n := with_counts s (lg_Rows lg ! n)], lg_Pos := Suc n\<rparr>"
  using assms by (simp add: set_block_counts_def ledger_GetRow_def ledger_SetRow_open write_at_def with_counts_def
      buf_GetCount_def Let_def)

lemma set_block_counts_two:
  assumes op: "lg_CanOpen lg" and n: "m_Count (p_MemPool s) = items + 2" "m_Count (p_MemPool s) \<le> p_Row s"
    and len: "p_Row s \<le> length (lg_Rows lg)" and tk: "take (p_Row s) (lg_Rows lg) = R @ [b1, b2]"
  shows "\<exists>lg'. foldl (set_block_counts s) lg [items..<m_Count (p_MemPool s)] = lg' \<and> lg_CanOpen lg' \<and>
     p_Row s \<le> length (lg_Rows lg') \<and> take (p_Row s) (lg_Rows lg') = R @ [with_counts s b1, with_counts s b2]"
proof -
  have N: "p_Row s = Suc (Suc (length R))" using arg_cong [OF tk, of length] len by simp
  let ?n = "length R"
  have at: "lg_Rows lg ! ?n = b1" "lg_Rows lg ! Suc ?n = b2"
    using nth_take [of ?n "p_Row s" "lg_Rows lg"] nth_take [of "Suc ?n" "p_Row s" "lg_Rows lg"]
    unfolding tk by (simp_all add: N nth_append)
  have i: "p_Row s - m_Count (p_MemPool s) + items = ?n" "p_Row s - m_Count (p_MemPool s) + Suc items = Suc ?n"
    using n N by simp_all
  have l: "[items..<m_Count (p_MemPool s)] = [items, Suc items]" using n(1) by (simp add: upt_rec)
  let ?lg1 = "lg\<lparr>lg_Rows := (lg_Rows lg)[?n := with_counts s b1], lg_Pos := Suc ?n\<rparr>"
  let ?lg2 = "?lg1\<lparr>lg_Rows := (lg_Rows ?lg1)[Suc ?n := with_counts s b2], lg_Pos := Suc (Suc ?n)\<rparr>"
  have s1: "set_block_counts s lg items = ?lg1"
    using set_block_counts_open [OF op i(1)] len N at by simp
  have "set_block_counts s ?lg1 (Suc items) = ?lg2"
    using set_block_counts_open [of ?lg1, OF _ i(2)] op len N at by simp
  then have "foldl (set_block_counts s) lg [items..<m_Count (p_MemPool s)] = ?lg2"
    by (simp add: l s1)
  moreover have "take (p_Row s) (lg_Rows ?lg2) = (R @ [b1, b2])[?n := with_counts s b1, Suc ?n := with_counts s b2]"
    by (simp add: take_update_swap tk)
  ultimately show ?thesis using op len by (intro exI [of _ ?lg2]) (simp add: list_update_append)
qed

section \<open>The information about the block\<close>

lemma StoreBlockInfo_good:
  assumes h: "db_healthy (p_Database s)" "store_ok (db_Store (p_Database s))" and nb: "db_Batch (p_Database s) = []"
    and empty: "m_Count (p_MemPool s) = 0"
  shows "\<exists>db. StoreBlockInfoInternal np s miner hash False = Some (MC_ERR_NOERROR, s\<lparr>p_Database := db\<rparr>) \<and>
     db_healthy db \<and> store_ok (db_Store db) \<and> db_Batch db = [] \<and>
     (\<forall>k. k \<noteq> DbKey hash 0 MC_PTP_BLOCK_MINER \<longrightarrow> db_get db k = db_get (p_Database s) k)"
proof (cases "\<not> CachedInputScript np \<or> np_Int64 np ''supportminerprecheck'' = 0 \<or> np_ANYONE_CAN_MINE np")
  case True
  then show ?thesis using h nb by (intro exI [of _ "p_Database s"]) (simp add: StoreBlockInfoInternal_def)
next
  case False
  obtain db1 where db1: "db_Commit (p_Database s) True = (MC_ERR_NOERROR, db1)" "db_healthy db1"
      "store_ok (db_Store db1)" "db_Batch db1 = []" and v: "\<And>k. db_get db1 k = db_get (p_Database s) k"
    using db_Commit_view [OF h] by (auto simp: db_view_empty [OF nb])
  have g: "store_grants s hash = db1"
    using empty db1(1) by (simp add: store_grants_def Let_def buf_GetCount_def)
  let ?s = "s\<lparr>p_Database := db1\<rparr>" and ?k = "DbKey hash 0 MC_PTP_BLOCK_MINER"
  let ?db = "db1\<lparr>db_Store := store_put ?k (MinerVal miner (admin_miner_count ?s)) (db_Store db1)\<rparr>"
  have "db_Write db1 ?k (MinerVal miner (admin_miner_count ?s)) False = (MC_ERR_NOERROR, ?db)"
    and "db_Commit ?db False = (MC_ERR_NOERROR, ?db)"
    using db1(2) by (simp_all add: db_Write_def db_Commit_def db_healthy_def)
  then have "StoreBlockInfoInternal np s miner hash False = Some (MC_ERR_NOERROR, s\<lparr>p_Database := ?db\<rparr>)"
    using False g by (simp add: StoreBlockInfoInternal_def Let_def)
  moreover have "db_get ?db k = db_get (p_Database s) k" if "k \<noteq> ?k" for k
    using that by (simp add: db_get_def store_get_put v [unfolded db_get_def])
  ultimately show ?thesis using db1 by (intro exI [of _ ?db]) (simp add: store_ok_put)
qed

section \<open>The search for the next row in consensus stops\<close>

lemma mem_row:
  assumes wf: "perm_wf s" and i: "i < m_Count (p_MemPool s)"
  shows "l_ThisRow (buf_rows (p_MemPool s) ! i) = ledger_used s + i"
    and "l_PrevRow (buf_rows (p_MemPool s) ! i) < ledger_used s + i"
    and "buf_rows (p_MemPool s) ! i = p_log s ! (ledger_used s + i)"
proof -
  note len = perm_wf_length [OF wf]
  let ?j = "ledger_used s + i"
  have j: "0 < ?j" "?j < length (p_log s)" using len i by simp_all
  show eq: "buf_rows (p_MemPool s) ! i = p_log s ! ?j"
    using p_log_mem [of s ?j] wf i by (simp add: perm_wf_def)
  have "wf_row (p_log s) ?j" using wf j by (auto simp: perm_wf_def intro: wf_logD)
  then show "l_ThisRow (buf_rows (p_MemPool s) ! i) = ?j" and "l_PrevRow (buf_rows (p_MemPool s) ! i) < ?j"
    using klast_less [OF j(1), of _ "p_log s"] by (auto simp: eq wf_row_def)
qed

lemma next_consensus_total:
  assumes wf: "perm_wf s"
  shows "p_Row s - l_PrevRow pld < n \<Longrightarrow> next_consensus n (p_MemPool s) pld \<noteq> None"
proof (induction n arbitrary: pld)
  case 0
  then show ?case by simp
next
  case (Suc n)
  show ?case
  proof (cases "buf_Seek mem_key (p_MemPool s) (mem_key pld)")
    case None
    then show ?thesis by simp
  next
    case (Some i)
    have ok: "buf_ok mem_key (p_MemPool s)" using wf by (simp add: perm_wf_def)
    have i: "i < m_Count (p_MemPool s)" and mk: "mem_key (buf_rows (p_MemPool s) ! i) = mem_key pld"
      using mcb.seek_nth [OF ok Some] by simp_all
    let ?r = "buf_rows (p_MemPool s) ! i"
    have "l_PrevRow pld < l_ThisRow ?r" "l_ThisRow ?r < p_Row s"
      using mem_row [OF wf i] mk i perm_wf_length(2) [OF wf] by (auto simp: mem_key_def)
    then have "p_Row s - l_PrevRow (?r\<lparr>l_PrevRow := l_ThisRow ?r\<rparr>) < n" using Suc.prems by simp
    from Suc.IH [OF this] Some i show ?thesis by (simp add: buf_GetRow_nth Let_def)
  qed
qed

lemma CalculateBlockFlags_total:
  assumes wf: "perm_wf s"
  shows "\<exists>flags. CalculateBlockFlags s = Some flags"
proof -
  have row: "row_flags s r fl \<noteq> None" if r: "r \<in> set (buf_rows (p_MemPool s))" for r fl
  proof -
    obtain i where i: "i < m_Count (p_MemPool s)" "r = buf_rows (p_MemPool s) ! i"
      using r by (auto simp: in_set_conv_nth)
    have "p_Row s - l_PrevRow (r\<lparr>l_PrevRow := l_ThisRow r\<rparr>) < Suc (m_Count (p_MemPool s))"
      using mem_row(1) [OF wf i(1)] i perm_wf_length(2) [OF wf] by simp
    from next_consensus_total [OF wf this] show ?thesis
      unfolding row_flags_def by (auto split: option.split)
  qed
  have "\<exists>flags'. rows_flags s rs fl = Some flags'" if "set rs \<subseteq> set (buf_rows (p_MemPool s))" for rs fl
    using that
  proof (induction rs arbitrary: fl)
    case (Cons r rs)
    then obtain fl' where "row_flags s r fl = Some fl'" using row [of r fl] by auto
    with Cons show ?case by simp
  qed simp
  moreover have "map (buf_GetRow (p_MemPool s)) [0..<buf_GetCount (p_MemPool s)] = buf_rows (p_MemPool s)"
    by (auto simp: buf_GetCount_def buf_GetRow_nth intro: nth_equalityI)
  ultimately show ?thesis by (simp add: CalculateBlockFlags_def)
qed

section \<open>Commit\<close>

lemma index_ok_store:
  assumes "index_ok get R n" and "\<And>k. dk_Type k \<noteq> MC_PTP_BLOCK_MINER \<Longrightarrow> get' k = get k"
  shows "index_ok get' R n"
  using assms by (auto simp: index_ok_def marker_key_def)

lemma wf_mirrored:
  assumes "p_MemPool s = buf_Clear mp" and "0 < p_Row s" and "p_Row s \<le> length (lg_Rows (p_Ledger s))"
    and "store_ok (db_Store (p_Database s))" and "wf_log (take (p_Row s) (lg_Rows (p_Ledger s)))"
    and "db_mirrors (db_get (p_Database s)) (take (p_Row s) (lg_Rows (p_Ledger s))) (p_Row s)"
    and "db_healthy (p_Database s)" and "lg_CanOpen (p_Ledger s)" and "p_CopiedRow s = 0"
  shows "perm_good s" and "p_log s = take (p_Row s) (lg_Rows (p_Ledger s))" and "ledger_used s = p_Row s"
proof -
  show u: "ledger_used s = p_Row s" using assms(1) by (simp add: ledger_used_def)
  show l: "p_log s = take (p_Row s) (lg_Rows (p_Ledger s))" by (simp add: p_log_def u assms(1))
  show "perm_good s" unfolding perm_good_def perm_wf_def perm_healthy_def l u using assms by simp
qed

lemma recount_mirrored:
  assumes good1: "perm_good s1" and pool: "p_MemPool s = p_MemPool s1" "p_Row s = p_Row s1"
    and c: "c = s\<lparr>p_MemPool := buf_Clear (p_MemPool s)\<rparr>" and cleared: "perm_good c"
    and keys: "\<And>i. 0 < i \<Longrightarrow> i < p_Row s \<Longrightarrow> row_key (p_log c ! i) = row_key (p_log s1 ! i)"
    and ix: "index_ok (db_get (p_Database s)) (p_log c) (p_Row s)"
  shows "UpdateCounts s = Some (MC_ERR_NOERROR,
    s\<lparr>p_AdminCount := int (card (allowed_set c MC_PTP_ADMIN)), p_MinerCount := int (card (allowed_set c MC_PTP_MINE))\<rparr>)"
proof (rule UpdateCounts_counts)
  have wf1: "perm_wf s1" using good1 by (simp add: perm_good_def)
  have gp: "GetPermission s None a t \<noteq> 0 \<longleftrightarrow> a \<in> allowed_set c t" if t: "t = MC_PTP_ADMIN \<or> t = MC_PTP_MINE" for a t
  proof -
    have "GetPermission5 s None a t True = GetPermission5 c None a t True"
    proof (unfold c, rule GetPermission5_mirrored [OF cleared [unfolded c] refl])
      show "buf_ok mem_key (p_MemPool s)" using wf1 pool by (simp add: perm_wf_def)
      show "log_key (DbKey (lp_deref None) a t)" using admin_log_key [OF t] by (simp add: lp_deref_def)
    next
      fix r
      assume "r \<in> set (buf_rows (p_MemPool s))"
      then obtain i where i: "i < m_Count (p_MemPool s1)" "r = buf_rows (p_MemPool s1) ! i"
        using pool by (auto simp: in_set_conv_nth)
      let ?j = "ledger_used s1 + i"
      have "0 < ?j" "?j < p_Row s" using perm_wf_length [OF wf1] i pool by simp_all
      then show "\<exists>j. 0 < j \<and> j < p_Row s \<and> row_key (p_log (s\<lparr>p_MemPool := buf_Clear (p_MemPool s)\<rparr>) ! j) = row_key r \<and> l_PrevRow r < j"
        using mem_row [OF wf1 i(1)] i(2) keys [of ?j] by (intro exI [of _ ?j]) (simp add: c)
    qed
    then have "GetPermission s None a t = GetPermission c None a t" by (simp add: GetPermission_def)
    then show ?thesis using GetPermission_allowed [OF cleared t] by simp
  qed
  then show "GetPermission s None a MC_PTP_ADMIN \<noteq> 0 \<longleftrightarrow> a \<in> allowed_set c MC_PTP_ADMIN"
    and "GetPermission s None a MC_PTP_MINE \<noteq> 0 \<longleftrightarrow> a \<in> allowed_set c MC_PTP_MINE" for a by simp_all
  show "index_covers (p_Database s) (allowed_set c MC_PTP_ADMIN) (allowed_set c MC_PTP_MINE)"
    using index_covers_allowed [of c] ix by (simp add: c)
qed (use cleared in \<open>simp_all add: c perm_good_def perm_wf_def perm_healthy_def db_healthy_def\<close>)

lemma commit_finish_good:
  assumes good: "perm_good s1"
    and s: "s = s1\<lparr>p_Database := db, p_Ledger := lg\<rparr>"
    and db: "db_healthy db" "store_ok (db_Store db)" "db_Batch db = []"
    and mir: "db_mirrors (db_get db) (p_log s1) (p_Row s1)" and ix: "index_ok (db_get db) (p_log s1) (p_Row s1)"
    and lg: "lg_CanOpen lg" "p_Row s1 \<le> length (lg_Rows lg)" "take (p_Row s1) (lg_Rows lg) = (p_log s1)[0 := h]"
    and log: "p_log s1 = R @ [b1, b2]" "R \<noteq> []" and items: "m_Count (p_MemPool s1) = items + 2"
    and types: "l_Type b1 = MC_PTP_BLOCK_MINER" "l_Type b2 = MC_PTP_BLOCK_INDEX" and hash: "hash \<noteq> 0"
  shows "\<exists>s'. commit_finish np s items miner hash = Some (MC_ERR_NOERROR, s') \<and> perm_chain s' \<and> counts_ok s' \<and>
     p_Block s' = p_Block s1 + 1 \<and> m_Count (p_MemPool s') = 0 \<and> p_Row s' = p_Row s1 \<and> counts_saved s' \<and>
     p_log s' = R[0 := h] @ [with_counts s' b1, with_counts s' b2] \<and>
     (\<forall>k. k \<noteq> DbKey hash 0 MC_PTP_BLOCK_MINER \<longrightarrow> db_get (p_Database s') k = db_get db k)"
proof -
  have wf1: "perm_wf s1" using good by (simp add: perm_good_def)
  note len = perm_wf_length [OF wf1]
  have N: "0 < p_Row s1" using len by simp
  let ?s = "s\<lparr>p_Block := p_Block s + 1\<rparr>"
  let ?c = "?s\<lparr>p_MemPool := buf_Clear (p_MemPool ?s)\<rparr>"
  have cg: "perm_good ?c" and cl: "p_log ?c = (p_log s1)[0 := h]" and cu: "ledger_used ?c = p_Row s1"
    using wf_mirrored [of ?c "p_MemPool s"] N lg db mir wf1 good by (simp_all add: s perm_wf_def perm_good_def)
  define A where "A = int (card (allowed_set ?c MC_PTP_ADMIN))"
  define M where "M = int (card (allowed_set ?c MC_PTP_MINE))"
  have up: "UpdateCounts ?s = Some (MC_ERR_NOERROR, ?s\<lparr>p_AdminCount := A, p_MinerCount := M\<rparr>)"
    unfolding A_def M_def
  proof (rule recount_mirrored [OF good _ _ refl cg])
    show "index_ok (db_get (p_Database ?s)) (p_log ?c) (p_Row ?s)" unfolding cl using ix by (simp add: s)
  next
    fix i :: nat
    assume "0 < i"
    then show "row_key (p_log ?c ! i) = row_key (p_log s1 ! i)" unfolding cl by simp
  qed (simp_all add: s)
  let ?s2 = "s\<lparr>p_AdminCount := A, p_MinerCount := M, p_ClearedAdminCount := A, p_ClearedMinerCount := M,
      p_ClearedMinerCountForMinerVerification := M\<rparr>"
  have tk: "take (p_Row ?s2) (lg_Rows lg) = R[0 := h] @ [b1, b2]"
    using lg(3) log by (cases R) (simp_all add: s)
  have cnt: "m_Count (p_MemPool ?s2) = items + 2" "m_Count (p_MemPool ?s2) \<le> p_Row ?s2" "p_Row ?s2 \<le> length (lg_Rows lg)"
    using items len(2) lg(2) by (simp_all add: s)
  obtain lg' where lg': "foldl (set_block_counts ?s2) lg [items..<m_Count (p_MemPool ?s2)] = lg'"
    "lg_CanOpen lg'" "p_Row ?s2 \<le> length (lg_Rows lg')"
    "take (p_Row ?s2) (lg_Rows lg') = R[0 := h] @ [with_counts ?s2 b1, with_counts ?s2 b2]"
    using set_block_counts_two [OF lg(1) cnt tk] by blast
  let ?s3 = "?s2\<lparr>p_Ledger := lg', p_MemPool := buf_Clear (p_MemPool ?s2)\<rparr>"
  obtain db' where db': "StoreBlockInfoInternal np ?s3 miner hash False = Some (MC_ERR_NOERROR, ?s3\<lparr>p_Database := db'\<rparr>)"
    "db_healthy db'" "store_ok (db_Store db')" "db_Batch db' = []"
    and get: "\<And>k. k \<noteq> DbKey hash 0 MC_PTP_BLOCK_MINER \<Longrightarrow> db_get db' k = db_get db k"
    using StoreBlockInfo_good [of ?s3 np miner hash] db by (auto simp: s)
  let ?f = "?s3\<lparr>p_Database := db', p_Block := p_Block s + 1\<rparr>"
  have res: "commit_finish np s items miner hash = Some (MC_ERR_NOERROR, ?f)"
    using up lg'(1) db'(1) unfolding commit_finish_def by (simp add: Let_def buf_GetCount_def s)
  have sim: "log_sim (p_log ?c) (take (p_Row ?f) (lg_Rows (p_Ledger ?f)))"
    unfolding cl using lg'(4) log types
    by (auto simp: log_sim_def row_sim_def s with_counts_def row_key_def nth_append less_Suc_eq nth_Cons')
  have fwf: "wf_log (take (p_Row ?f) (lg_Rows (p_Ledger ?f)))"
    using log_sim_wf [OF sim] cg by (simp add: perm_good_def perm_wf_def)
  have nlen: "p_Row ?f \<le> length (p_log ?c)" unfolding cl using len(1) by (simp add: s)
  have fmir: "db_mirrors (db_get (p_Database ?f)) (take (p_Row ?f) (lg_Rows (p_Ledger ?f))) (p_Row ?f)"
  proof -
    have "db_get db' k = db_get db k" if "log_key k" for k
      by (rule get) (use that hash in \<open>auto simp: log_key_def null_entity_def\<close>)
    with mir show ?thesis unfolding log_sim_mirrors [OF sim nlen] unfolding cl by (simp add: db_mirrors_def s)
  qed
  have fg: "perm_good ?f" and fl: "p_log ?f = take (p_Row ?f) (lg_Rows (p_Ledger ?f))" and fu: "ledger_used ?f = p_Row ?f"
    using wf_mirrored [of ?f "p_MemPool s"] N lg'(2,3) db' fwf fmir good by (simp_all add: s perm_good_def)
  have "index_ok (db_get (p_Database ?f)) (p_log ?f) (ledger_used ?f)"
    unfolding fu fl log_sim_index [OF sim nlen] unfolding cl
    by (rule index_ok_store [where get = "db_get db"])
      (use ix in \<open>simp add: s\<close>, simp, rule get, auto)
  then have "perm_chain ?f" using fg db'(4) by (simp add: perm_chain_def)
  moreover have al: "allowed_set ?f t = allowed_set ?c t" for t
    unfolding allowed_set_def log_allowed_def fl log_sim_range [OF sim nlen] by (simp add: next_block_def s)
  have "counts_ok ?f" unfolding counts_ok_def al by (simp add: A_def M_def)
  moreover have "p_log ?f = R[0 := h] @ [with_counts ?f b1, with_counts ?f b2]"
    unfolding fl using lg'(4) by (simp add: with_counts_def s)
  ultimately show ?thesis using res get by (intro exI [of _ ?f]) (simp add: s counts_saved_def)
qed

lemma Commit_parts:
  assumes ch: "perm_chain s" and hash: "hash \<noteq> 0"
    and z: "\<And>r. r \<in> set (buf_rows (p_MemPool s)) \<Longrightarrow> \<not> zero_admin r"
  shows "\<exists>s' h b1 b2. Commit np s (Some miner) hash = Some (MC_ERR_NOERROR, s') \<and> perm_chain s' \<and> counts_ok s' \<and>
     p_Block s' = p_Block s + 1 \<and> m_Count (p_MemPool s') = 0 \<and> p_Row s' = p_Row s + 2 \<and>
     block_rows s miner hash b1 b2 \<and>
     p_log s' = (p_log s)[0 := h] @ [with_counts s' b1, with_counts s' b2] \<and>
     db_get (p_Database s') (row_key b2) = Some (PermVal (row_val b2)) \<and> headers_ok s' \<and> counts_saved s' \<and>
     (\<forall>k. \<not> log_key k \<longrightarrow> dk_Entity k = 0 \<longrightarrow> k \<noteq> DbKey 0 0 0 \<longrightarrow> k \<noteq> row_key b2 \<longrightarrow>
        (\<forall>r\<in>set (buf_rows (p_MemPool s)). row_key r \<noteq> k) \<longrightarrow> db_get (p_Database s') k = db_get (p_Database s) k)"
proof -
  have good: "perm_good s" and nb: "db_Batch (p_Database s) = []"
    and ix: "index_ok (db_get (p_Database s)) (p_log s) (ledger_used s)"
    using ch by (simp_all add: perm_chain_def)
  have wf: "perm_wf s" using good by (simp add: perm_good_def)
  note len = perm_wf_length [OF wf]
  obtain flags where fl: "CalculateBlockFlags s = Some flags" using CalculateBlockFlags_total [OF wf] by blast
  obtain b1 b2 where s1: "add_block_rows s miner hash flags = push_row (push_row s b1) b2"
    "perm_good (push_row (push_row s b1) b2)" and b: "block_rows s miner hash b1 b2"
    using add_block_rows_good [OF good fl] by blast
  let ?s1 = "push_row (push_row s b1) b2" and ?items = "m_Count (p_MemPool s)"
  have log1: "p_log ?s1 = p_log s @ [b1, b2]" by simp
  have types: "l_Type b1 = MC_PTP_BLOCK_MINER" "l_Type b2 = MC_PTP_BLOCK_INDEX"
    using b by (simp_all add: block_rows_def row_key_def)
  have z1: "\<not> zero_admin (p_log ?s1 ! i)" if i: "ledger_used ?s1 \<le> i" "i < length (p_log ?s1)" for i
  proof (cases "i < p_Row s")
    case True
    then have "p_log s ! i \<in> set (buf_rows (p_MemPool s))"
      using p_log_mem [of s i] i(1) wf len by (auto simp: perm_wf_def intro!: nth_mem)
    then show ?thesis using z True len(1) by (simp add: nth_append)
  next
    case False
    then have "i = p_Row s \<or> i = Suc (p_Row s)" using i(2) len(1) by auto
    then show ?thesis using types len(1) by (auto simp: zero_admin_def nth_append)
  qed
  have "index_ok (db_get (p_Database ?s1)) (p_log ?s1) (ledger_used ?s1)"
    using ix len by (simp add: index_ok_def)
  then obtain db lg h where w: "commit_write ?s1 ?items = (MC_ERR_NOERROR, db, lg)"
    and db: "db_healthy db" "store_ok (db_Store db)" "db_Batch db = []"
    and mi: "db_mirrors (db_get db) (p_log ?s1) (p_Row ?s1)" "index_ok (db_get db) (p_log ?s1) (p_Row ?s1)"
    and lg: "lg_CanOpen lg" "p_Row ?s1 \<le> length (lg_Rows lg)" "take (p_Row ?s1) (lg_Rows lg) = (p_log ?s1)[0 := h]"
    and get: "db_get db (row_key (p_log ?s1 ! (p_Row ?s1 - 1))) = Some (PermVal (row_val (p_log ?s1 ! (p_Row ?s1 - 1))))"
    and hd: "\<exists>v. db_get db (DbKey 0 0 0) = Some (PermVal v) \<and> v_BlockTo v = word_of_int (p_Block ?s1 + 1) \<and> v_LedgerRow v = p_Row ?s1"
      "l_BlockTo h = word_of_int (p_Block ?s1 + 1)" "l_PrevRow h = p_Row ?s1"
    and oth: "\<And>k. \<not> log_key k \<Longrightarrow> dk_Entity k \<noteq> adminminerlist_entity \<Longrightarrow> k \<noteq> DbKey 0 0 0 \<Longrightarrow>
        (\<And>i. ledger_used ?s1 \<le> i \<Longrightarrow> i < p_Row ?s1 \<Longrightarrow> row_key (p_log ?s1 ! i) \<noteq> k) \<Longrightarrow> db_get db k = db_get (p_Database ?s1) k"
    using commit_write_good [OF s1(2) refl _ _ z1, of ?items] nb by auto
  have last: "p_log ?s1 ! (p_Row ?s1 - 1) = b2" using len(1) by (simp add: nth_append)
  have ne: "p_log s \<noteq> []" using wf by (simp add: perm_wf_def wf_log_def)
  obtain s' where s': "commit_finish np (?s1\<lparr>p_Database := db, p_Ledger := lg\<rparr>) ?items miner hash = Some (MC_ERR_NOERROR, s')"
    "perm_chain s'" "counts_ok s'" "p_Block s' = p_Block ?s1 + 1" "m_Count (p_MemPool s') = 0" "p_Row s' = p_Row ?s1"
    "p_log s' = (p_log s)[0 := h] @ [with_counts s' b1, with_counts s' b2]"
    "\<And>k. k \<noteq> DbKey hash 0 MC_PTP_BLOCK_MINER \<Longrightarrow> db_get (p_Database s') k = db_get db k"
    and saved: "counts_saved s'"
    using commit_finish_good [OF s1(2) refl db mi lg log1 ne _ types hash, of ?items np miner] by auto
  have op: "lg_CanOpen (p_Ledger s)" using good by (simp add: perm_good_def perm_healthy_def)
  have "Commit np s (Some miner) hash = Some (MC_ERR_NOERROR, s')"
    using fl s1(1) op w s'(1) by (simp add: Commit_def CommitInternal_def Let_def buf_GetCount_def)
  moreover have "db_get (p_Database s') (row_key b2) = Some (PermVal (row_val b2))"
    using get s'(8) [of "row_key b2"] b last by (simp add: block_rows_def)
  moreover have "headers_ok s'"
  proof -
    have "ledger_used s' = p_Row s'" using s'(5) by (simp add: ledger_used_def)
    moreover have "p_log s' ! 0 = h" using s'(7) ne by (simp add: nth_append)
    ultimately show ?thesis using hd s'(4,6,8) by (auto simp: headers_ok_def)
  qed
  moreover have "db_get (p_Database s') k = db_get (p_Database s) k"
    if k: "\<not> log_key k" "dk_Entity k = 0" "k \<noteq> DbKey 0 0 0" "k \<noteq> row_key b2" "\<forall>r\<in>set (buf_rows (p_MemPool s)). row_key r \<noteq> k" for k
  proof -
    have ne: "dk_Entity k \<noteq> adminminerlist_entity" using k(2) special_entities_distinct by (simp add: null_entity_def)
    have "db_get db k = db_get (p_Database ?s1) k"
    proof (rule oth [OF k(1) ne k(3)])
      fix i
      assume i: "ledger_used ?s1 \<le> i" "i < p_Row ?s1"
      have k1: "row_key b1 \<noteq> k" using b k(1) miner_log_key [of miner] by (auto simp: block_rows_def)
      show "row_key (p_log ?s1 ! i) \<noteq> k"
      proof (cases "i < p_Row s")
        case True
        then have "p_log s ! i \<in> set (buf_rows (p_MemPool s))"
          using p_log_mem [of s i] i(1) wf len by (auto simp: perm_wf_def intro!: nth_mem)
        then show ?thesis using k(5) True len(1) by (simp add: nth_append)
      next
        case False
        then have "i = p_Row s \<or> i = Suc (p_Row s)" using i(2) by auto
        then show ?thesis using k(4) k1 len(1) by (auto simp: nth_append)
      qed
    qed
    moreover have "k \<noteq> DbKey hash 0 MC_PTP_BLOCK_MINER" using k(2) hash by auto
    ultimately show ?thesis using s'(8) by simp
  qed
  ultimately show ?thesis using s' b saved by (intro exI [of _ s'] exI [of _ h] exI [of _ b1] exI [of _ b2]) auto
qed

end
