(* ===== verification/Perm_Init.thy ===== *)
theory Perm_Init
  imports Perm_Blocks
begin

text \<open>
  \<open>Initialize\<close>: reading the database and the ledger at the start, with the repair of a ledger that is
  ahead of the database (\<^verbatim>\<open>src/src/permissions/permission.cpp\<close>). A commit writes the ledger first and the
  database last, so a stop in between leaves rows of a block the database does not know.
\<close>

section \<open>The code\<close>

definition zero_state :: "perm_db \<Rightarrow> mc_PermissionLedger \<Rightarrow> (nat \<Rightarrow> ledger_row) \<Rightarrow>
    (nat \<Rightarrow> mempool_permission) \<Rightarrow> mc_Permissions" where
  "zero_state db lg mem mem' =
     \<lparr>p_Database = db, p_Ledger = lg, p_MemPool = buf_Initialize mem True, p_Block = -1, p_Row = 0,
      p_AdminCount = 0, p_MinerCount = 0, p_CheckPointRow = 0, p_CheckPointAdminCount = 0,
      p_CheckPointMinerCount = 0, p_CheckPointMemPoolSize = 0, p_CopiedBlock = 0, p_ForkBlock = 0,
      p_CopiedRow = 0, p_CopiedAdminCount = 0, p_CopiedMinerCount = 0, p_ClearedAdminCount = 0,
      p_ClearedMinerCount = 0, p_ClearedMinerCountForMinerVerification = 0, p_TmpSavedAdminCount = 0,
      p_TmpSavedMinerCount = 0, p_CopiedMemPool = buf_Initialize mem False, p_CheckForMempoolFlag = False,
      p_MempoolPermissions = buf_Initialize mem' False,
      p_MempoolPermissionsToReplay = buf_Initialize mem' False\<rparr>"

text \<open>The height and the number of rows the database knows, written there when it is new.\<close>

definition init_database :: "perm_db \<Rightarrow> int \<times> int \<times> nat \<times> perm_db" where
  "init_database db =
     (case db_Read db (DbKey 0 0 0) of (found, err) \<Rightarrow>
        if err \<noteq> MC_ERR_NOERROR then (err, -1, 1, db)
        else case found of
          Some v \<Rightarrow> (MC_ERR_NOERROR, sint (v_BlockTo (perm_view v)), v_LedgerRow (perm_view v), db)
        | None \<Rightarrow>
            (let w = db_Write db (DbKey 0 0 0) (PermVal (zero_val\<lparr>v_BlockTo := -1, v_LedgerRow := 1\<rparr>)) False
             in if fst w \<noteq> MC_ERR_NOERROR then (fst w, -1, 1, snd w)
                else (let c = db_Commit (snd w) False in (fst c, -1, 1, snd c))))"

definition init_ledger :: "mc_PermissionLedger \<Rightarrow> int \<times> nat \<times> mc_PermissionLedger" where
  "init_ledger lg =
     (case ledger_GetRow lg 0 zero_row of (err, row) \<Rightarrow>
        if err = MC_ERR_NOERROR then (sint (l_BlockTo row), l_PrevRow row, lg)
        else (-1, 1, snd (ledger_SetRow lg 0 (zero_row\<lparr>l_BlockTo := -1, l_PrevRow := 1\<rparr>))))"

fun repair_scan :: "mc_PermissionLedger \<Rightarrow> int \<Rightarrow> nat \<Rightarrow> nat" where
  "repair_scan lg block 0 = 0"
| "repair_scan lg block (Suc n) =
     (if sint (l_BlockReceived (snd (ledger_GetRow lg (Suc n) zero_row))) \<le> block then Suc n
      else repair_scan lg block n)"

definition repair_ledger :: "mc_PermissionLedger \<Rightarrow> int \<Rightarrow> nat \<Rightarrow> nat \<times> mc_PermissionLedger" where
  "repair_ledger lg pdbBlock rows =
     (let this_row = repair_scan lg pdbBlock (rows - 1) + 1
      in (this_row, write_header_row lg pdbBlock this_row))"

definition set_last_counts :: "mc_Permissions \<Rightarrow> mc_PermissionLedger \<Rightarrow> nat \<Rightarrow> mc_PermissionLedger" where
  "set_last_counts s lg n = snd (ledger_SetRow lg n (with_counts s (snd (ledger_GetRow lg n zero_row))))"

text \<open>The counters, and the last block's rows, which a hard stop may have left with wrong ones.\<close>

definition init_counts :: "mc_Permissions \<Rightarrow> (int \<times> mc_Permissions) option" where
  "init_counts s =
     (case UpdateCounts s of
        None \<Rightarrow> None
      | Some (err, s1) \<Rightarrow>
          if err \<noteq> MC_ERR_NOERROR then Some (MC_ERR_DBOPEN_ERROR, s1)
          else
            (let s2 = s1\<lparr>p_ClearedAdminCount := p_AdminCount s1, p_ClearedMinerCount := p_MinerCount s1,
                   p_ClearedMinerCountForMinerVerification := p_MinerCount s1\<rparr>;
                 lg = p_Ledger s2
             in if \<not> lg_CanOpen lg then Some (MC_ERR_DBOPEN_ERROR, s2)
                else if p_Row s2 = 1 then Some (MC_ERR_NOERROR, s2)
                else if p_Row s2 = 0 then Some (MC_ERR_DBOPEN_ERROR, s2)
                else
                  (let row = snd (ledger_GetRow lg (p_Row s2 - 1) zero_row)
                   in if (drop_bit 16 (l_Address row) :: address) \<noteq>
                         drop_bit 16 (block_address (word_of_int (p_Block s2)))
                      then Some (MC_ERR_DBOPEN_ERROR, s2)
                      else Some (MC_ERR_NOERROR,
                        s2\<lparr>p_Ledger := set_last_counts s2 (set_last_counts s2 lg (p_Row s2 - 1)) (p_Row s2 - 2)\<rparr>))))"

definition Initialize ::
    "perm_db \<Rightarrow> mc_PermissionLedger \<Rightarrow> int \<Rightarrow> (nat \<Rightarrow> ledger_row) \<Rightarrow> (nat \<Rightarrow> mempool_permission) \<Rightarrow> bool \<Rightarrow>
     (int \<times> mc_Permissions) option" where
  "Initialize db lg open_err mem mem' semaphore =
     (let s0 = zero_state db lg mem mem'
      in if open_err \<noteq> MC_ERR_NOERROR then Some (open_err, s0)
         else case init_database db of (err, pdbBlock, pdbLastRow, db1) \<Rightarrow>
           if err \<noteq> MC_ERR_NOERROR then Some (err, s0\<lparr>p_Database := db1\<rparr>)
           else if \<not> lg_CanOpen lg then Some (MC_ERR_DBOPEN_ERROR, s0\<lparr>p_Database := db1\<rparr>)
           else case init_ledger lg of (block1, row1, lg1) \<Rightarrow>
             let size = ledger_GetSize lg1;
                 fixed = (if pdbBlock < block1
                          then (case repair_ledger lg1 pdbBlock size of (r, lg2) \<Rightarrow> (pdbBlock, r, lg2))
                          else (block1, row1, lg1))
             in case fixed of (pldBlock, pldLastRow, lg2) \<Rightarrow>
               let s1 = s0\<lparr>p_Database := db1, p_Ledger := lg2, p_Row := size\<rparr>
               in if pdbBlock \<noteq> pldBlock then Some (MC_ERR_CORRUPTED, s1)
                  else if pdbLastRow \<noteq> pldLastRow then Some (MC_ERR_CORRUPTED, s1)
                  else if size < pldLastRow then Some (MC_ERR_CORRUPTED, s1)
                  else case init_counts (s1\<lparr>p_Block := pdbBlock, p_Row := pdbLastRow\<rparr>) of
                    None \<Rightarrow> None
                  | Some (err, s2) \<Rightarrow>
                      if err \<noteq> MC_ERR_NOERROR then Some (err, s2)
                      else if \<not> semaphore then Some (MC_ERR_INTERNAL_ERROR, s2)
                      else Some (MC_ERR_NOERROR, s2))"

end
