(* ===== verification/Perm_Mining.thy ===== *)
theory Perm_Mining
  imports Perm_Counts
begin

text \<open>
  Who may mine a given block: \<open>CanMineBlock\<close> and \<open>CanMineBlockOnFork\<close>
  (\<^verbatim>\<open>src/src/permissions/permission.cpp\<close>), and what the diversity rule promises.
\<close>

section \<open>The code\<close>

text \<open>The row of a key that was in force before \<open>block\<close> was received, found along the links.\<close>

definition row_before :: "mc_Permissions \<Rightarrow> u32 \<Rightarrow> ledger_row \<Rightarrow> ledger_row" where
  "row_before s block row =
     ledger_walk (p_Ledger s) (\<lambda>r. block \<le> l_BlockReceived r) (snd (ledger_GetRow (p_Ledger s) (l_ThisRow row) row))"

definition CanMineBlock :: "net_params \<Rightarrow> mc_Permissions \<Rightarrow> address \<Rightarrow> u32 \<Rightarrow> u32" where
  "CanMineBlock np s a block =
     (if \<not> np_IsProtocolMultichain np then MC_PTP_MINE
      else if np_ANYONE_CAN_MINE np then MC_PTP_MINE
      else if block = 0 then 0
      else if \<not> lg_CanOpen (p_Ledger s) then 0
      else
        (let row = snd (GetPermission5 s None a MC_PTP_MINE False);
             r = row_before s block row;
             allowed = l_ThisRow row \<noteq> 0 \<and> l_BlockReceived r < block \<and>
               \<not> (block < l_BlockFrom r \<or> l_BlockTo r \<le> block)
         in if \<not> allowed then 0
            else
              (let mined = snd (GetPermission5 s None a MC_PTP_BLOCK_MINER False);
                   m = row_before s block mined;
                   last_mined = l_BlockFrom m;
                   index = snd (GetPermission3 s (block_address (block - 1)) MC_PTP_BLOCK_INDEX);
                   miner_count = sint (bl_MinerCount (snd (ledger_GetRow (p_Ledger s) (l_ThisRow index) index)))
               in if l_ThisRow mined \<noteq> 0 \<and> l_BlockReceived m < block \<and> last_mined \<noteq> 0 \<and>
                     IsBarredByDiversity np block last_mined miner_count
                  then 0 else 1)))"

definition CanMineBlockOnFork ::
    "net_params \<Rightarrow> mc_Permissions \<Rightarrow> address \<Rightarrow> u32 \<Rightarrow> u32 \<Rightarrow> u32 option" where
  "CanMineBlockOnFork np s a block last_after_fork =
     (if \<not> np_IsProtocolMultichain np then Some MC_PTP_MINE
      else if np_ANYONE_CAN_MINE np then Some MC_PTP_MINE
      else if block = 0 then Some 0
      else
        (let miner_count = p_ClearedMinerCountForMinerVerification s
         in case GetPermission5 s None a MC_PTP_MINE True of (r0, row) \<Rightarrow>
           (case FindLastAllowedMinerRow s row block r0 of
              None \<Rightarrow> None
            | Some result \<Rightarrow>
                Some (if result \<noteq> 0 then
                  (let mined = snd (GetPermission5 s None a MC_PTP_BLOCK_MINER False);
                       last_mined = (if last_after_fork = 0
                         then (if l_ThisRow mined \<noteq> 0 then l_BlockFrom mined else 0) else last_after_fork)
                   in if last_mined \<noteq> 0 \<and> IsBarredByDiversity np block last_mined miner_count then 0
                      else result)
                  else result))))"

end
