(* ===== verification/Perm_Query.thy ===== *)
theory Perm_Query
  imports Perm_Consensus
begin

text \<open>
  The queries behind the listing of permissions: \<open>FillPermissionDetails\<close>, \<open>GetPermissionDetails\<close>,
  \<open>GetUpgradeList\<close> and \<open>GetPermissionList\<close> (\<^verbatim>\<open>src/src/permissions/permission.cpp\<close>). Bytes of a local row
  that the code reads without having set them are a parameter.
\<close>

section \<open>Details of one permission\<close>

record perm_details =
  d_Entity :: entity
  d_Address :: address
  d_Type :: u32
  d_BlockFrom :: u32
  d_BlockTo :: u32
  d_Flags :: u32
  d_RequiredAdmins :: int
  d_LastAdmin :: address
  d_BlockReceived :: u32
  d_LastRow :: nat

definition zero_details :: perm_details where
  "zero_details = \<lparr>d_Entity = 0, d_Address = 0, d_Type = 0, d_BlockFrom = 0, d_BlockTo = 0, d_Flags = 0,
     d_RequiredAdmins = 0, d_LastAdmin = 0, d_BlockReceived = 0, d_LastRow = 0\<rparr>"

definition details_key :: "perm_details \<Rightarrow> db_key" where
  "details_key d = DbKey (d_Entity d) (d_Address d) (d_Type d)"

definition details_grant :: "perm_details \<Rightarrow> ledger_row \<Rightarrow> bool" where
  "details_grant d r \<longleftrightarrow> l_GrantFrom r = d_BlockFrom d \<and> l_GrantTo r = d_BlockTo d"

text \<open>The row to look at next; the checks of \<open>VerifyConsensus\<close> on a ledger row are repeated here.\<close>

definition details_fetch :: "mc_Permissions \<Rightarrow> db_key \<Rightarrow> nat \<Rightarrow> ledger_row \<Rightarrow> int \<times> ledger_row" where
  "details_fetch s key prevRow pld =
     (let countLedgerRows = ledger_used s
      in if countLedgerRows \<le> prevRow
         then (MC_ERR_NOERROR, buf_GetRow (p_MemPool s) (prevRow - countLedgerRows))
         else case ledger_GetRow (p_Ledger s) prevRow pld of (err, row) \<Rightarrow>
           if err \<noteq> MC_ERR_NOERROR then (MC_ERR_DBOPEN_ERROR, row)
           else if row_key row \<noteq> key then (MC_ERR_DBOPEN_ERROR, row)
           else if prevRow \<noteq> l_ThisRow row then (MC_ERR_DBOPEN_ERROR, row)
           else (MC_ERR_NOERROR, row))"

text \<open>
  One row: the temporary pool (the admin's address in place of the row's, and whether the row is in
  consensus in place of its type) and the number of admins still required.
\<close>

definition details_tally ::
    "perm_details \<Rightarrow> nat \<Rightarrow> ledger_row \<Rightarrow> tmp_pool \<Rightarrow> int \<Rightarrow> tmp_pool \<times> int" where
  "details_tally d phase pld tmp required =
     (let in_consensus = details_grant d pld \<and> phase = 2
      in if phase = 1 \<or> in_consensus then
           (let adm = pld\<lparr>l_Address := l_Admin pld, l_Type := (if in_consensus then 1 else 0)\<rparr>
            in case buf_Seek row_key tmp (row_key adm) of
                 Some found \<Rightarrow>
                   (let old = buf_GetRow tmp found
                    in if l_Timestamp old < l_Timestamp adm
                       then (let req = (if details_grant d old then required + 1 else required)
                             in (snd (buf_PutRow row_key tmp found adm), if in_consensus then req - 1 else req))
                       else (tmp, required))
               | None \<Rightarrow> (buf_Add row_key tmp adm, if in_consensus then required - 1 else required))
         else (tmp, required))"

text \<open>
  The loop after the first row. \<open>phase\<close> 1 looks for the row in consensus, 2 fills the list of its
  admins. \<open>None\<close> is a loop still running when the fuel is gone.
\<close>

fun details_loop ::
    "nat \<Rightarrow> mc_Permissions \<Rightarrow> perm_details \<Rightarrow> nat \<Rightarrow> nat \<Rightarrow> ledger_row \<Rightarrow> tmp_pool \<Rightarrow> int \<Rightarrow>
     (int \<times> tmp_pool) option" where
  "details_loop 0 s d phase prevRow old tmp required = None"
| "details_loop (Suc n) s d phase prevRow old tmp required =
     (if prevRow = 0 then Some (MC_ERR_INVALID_PARAMETER_VALUE, tmp)
      else case details_fetch s (details_key d) prevRow old of (err, pld) \<Rightarrow>
        if err \<noteq> MC_ERR_NOERROR then Some (err, tmp)
        else if 0 < l_Consensus pld \<and> phase \<noteq> 1 then Some (MC_ERR_NOERROR, tmp)
        else
          (let phase' = (if 0 < l_Consensus pld then 2 else phase)
           in case details_tally d phase' pld tmp required of (tmp', required') \<Rightarrow>
             if required' \<le> 0 \<or> l_PrevRow pld = 0
             then Some (MC_ERR_NOERROR, tmp')
             else details_loop n s d phase' (l_PrevRow pld) pld tmp' required'))"

definition details_row :: "perm_details \<Rightarrow> u32 \<Rightarrow> ledger_row \<Rightarrow> perm_details" where
  "details_row d unset r =
     \<lparr>d_Entity = d_Entity d, d_Address = d_Address d, d_Type = d_Type d, d_BlockFrom = l_GrantFrom r,
      d_BlockTo = l_GrantTo r, d_Flags = l_Flags r, d_RequiredAdmins = sint (l_Type r),
      d_LastAdmin = l_Address r, d_BlockReceived = unset, d_LastRow = l_ThisRow r\<rparr>"

definition required_admins :: "net_params \<Rightarrow> mc_Permissions \<Rightarrow> perm_details \<Rightarrow> int" where
  "required_admins np s d =
     (if mc_IsUpgradeEntity (Some (d_Entity d)) then AdminConsensus np s (Some (d_Entity d)) MC_PTP_UPGRADE
      else AdminConsensus np s (Some (d_Entity d)) (d_Type d))"

text \<open>
  \<open>want\<close> is \<^verbatim>\<open>plsDetailsBuffer != NULL\<close>. The result is the error, the row with its fields filled and the
  rows added to the buffer.
\<close>

definition FillPermissionDetails ::
    "net_params \<Rightarrow> mc_Permissions \<Rightarrow> u32 \<Rightarrow> perm_details \<Rightarrow> bool \<Rightarrow>
     (int \<times> perm_details \<times> perm_details list) option" where
  "FillPermissionDetails np s unset row want =
     (let required = required_admins np s row; d = row\<lparr>d_RequiredAdmins := required\<rparr>
      in if d_LastRow d = 0 then Some (MC_ERR_INVALID_PARAMETER_VALUE, d, [])
         else case details_fetch s (details_key d) (d_LastRow d) zero_row of (err, pld) \<Rightarrow>
           if err \<noteq> MC_ERR_NOERROR then Some (err, d, [])
           else
             (let consensus = 0 < l_Consensus pld;
                  d1 = (if consensus then d\<lparr>d_LastAdmin := l_Admin pld\<rparr>
                        else d\<lparr>d_Flags := d_Flags d OR MC_PFL_HAVE_PENDING\<rparr>)
              in if consensus \<and> required \<le> 1 then Some (MC_ERR_NOERROR, d1, [])
                 else
                   (let d2 = d1\<lparr>d_BlockReceived := l_BlockReceived pld\<rparr>;
                        phase = (if consensus then 2 else 1)
                    in if \<not> want then Some (MC_ERR_NOERROR, d2, [])
                       else case details_tally d2 phase pld empty_pool required of (tmp, req) \<Rightarrow>
                         (case (if req \<le> 0 \<or> l_PrevRow pld = 0 then Some (MC_ERR_NOERROR, tmp)
                                else details_loop (Suc (p_Row s)) s d2 phase (l_PrevRow pld) pld tmp req) of
                            None \<Rightarrow> None
                          | Some (err, tmp') \<Rightarrow>
                              (if err \<noteq> MC_ERR_NOERROR then Some (err, d2, [])
                               else Some (MC_ERR_NOERROR, d2, map (details_row d2 unset) (buf_rows tmp')))))))"

text \<open>The buffer is empty when the ledger cannot be opened, and NULL when filling it fails.\<close>

definition GetPermissionDetails ::
    "net_params \<Rightarrow> mc_Permissions \<Rightarrow> u32 \<Rightarrow> perm_details \<Rightarrow> perm_details list option option" where
  "GetPermissionDetails np s unset row =
     (if \<not> lg_CanOpen (p_Ledger s) then Some (Some [])
      else map_option (\<lambda>(err, d, rows). if err \<noteq> MC_ERR_NOERROR then None else Some rows)
             (FillPermissionDetails np s unset row True))"

section \<open>Lists of permissions\<close>

type_synonym details_buffer = "(db_key, perm_details) mc_Buffer"

definition stored_details :: "lp_entity \<Rightarrow> address \<Rightarrow> ledger_row \<Rightarrow> perm_details" where
  "stored_details lp a r =
     zero_details\<lparr>d_Entity := lp_deref lp, d_Address := a, d_Type := l_Type r, d_BlockFrom := l_BlockFrom r,
       d_BlockTo := l_BlockTo r, d_Flags := l_Flags r, d_LastRow := l_ThisRow r,
       d_BlockReceived := l_BlockReceived r\<rparr>"

text \<open>For one address: the 32 types in order, each looked up.\<close>

definition list_address ::
    "mc_Permissions \<Rightarrow> lp_entity \<Rightarrow> address \<Rightarrow> u32 \<Rightarrow> details_buffer \<Rightarrow> details_buffer" where
  "list_address s lp a type result =
     foldl (\<lambda>b i.
       let cur_type = push_bit i 1
       in if cur_type AND type \<noteq> 0 then
            (let row = snd (GetPermission5 s lp a cur_type True)
             in if l_ThisRow row \<noteq> 0 then buf_Add details_key b (stored_details lp a row) else b)
          else b) result [0..<32]"

text \<open>
  For all addresses: the database rows of the entity after the first one, then the rows of the memory
  pool. \<open>unset\<close> is what the local ledger row held before anything was read into it.
\<close>

definition db_details :: "mc_Permissions \<Rightarrow> lp_entity \<Rightarrow> u32 \<Rightarrow> db_key \<Rightarrow> perm_val \<Rightarrow> perm_details" where
  "db_details s lp unset k v =
     zero_details\<lparr>d_Entity := dk_Entity k, d_Address := dk_Address k, d_Type := dk_Type k,
       d_BlockFrom := v_BlockFrom v, d_BlockTo := v_BlockTo v, d_Flags := v_Flags v,
       d_LastRow := v_LedgerRow v,
       d_BlockReceived := (if mc_IsUpgradeEntity lp
         then l_BlockReceived (snd (ledger_GetRow (p_Ledger s) (v_LedgerRow v) (zero_row\<lparr>l_BlockReceived := unset\<rparr>)))
         else unset)\<rparr>"

fun list_db ::
    "mc_Permissions \<Rightarrow> lp_entity \<Rightarrow> u32 \<Rightarrow> u32 \<Rightarrow> (db_key \<times> db_val) list \<Rightarrow> details_buffer \<Rightarrow> details_buffer" where
  "list_db s lp type unset [] b = b"
| "list_db s lp type unset ((k, v) # rows) b =
     (if dk_Entity k \<noteq> lp_deref lp then b
      else list_db s lp type unset rows
             (if type AND dk_Type k \<noteq> 0
              then buf_Add details_key b (db_details s lp unset k (perm_view v)) else b))"

definition mem_details :: "ledger_row \<Rightarrow> perm_details \<Rightarrow> perm_details" where
  "mem_details r d = d\<lparr>d_BlockFrom := l_BlockFrom r, d_BlockTo := l_BlockTo r, d_Flags := l_Flags r,
     d_LastRow := l_ThisRow r\<rparr>"

text \<open>The state of this loop is the flag \<open>first\<close>, still set when the database had no row, and the buffer.\<close>

definition list_mem_row :: "lp_entity \<Rightarrow> u32 \<Rightarrow> bool \<times> details_buffer \<Rightarrow> ledger_row \<Rightarrow> bool \<times> details_buffer" where
  "list_mem_row lp type st r =
     (case st of (first, b) \<Rightarrow>
        if l_Entity r = lp_deref lp then
          (if type AND l_Type r \<noteq> 0 then
             (case buf_Seek details_key b (row_key r) of
                Some i \<Rightarrow> (first, b\<lparr>m_Data := (m_Data b)(i := mem_details r (m_Data b i))\<rparr>)
              | None \<Rightarrow>
                  (False, if \<not> first then buf_Add details_key b (stored_details (Some (l_Entity r)) (l_Address r) r) else b))
           else (False, b))
        else (first, b))"

definition list_all ::
    "mc_Permissions \<Rightarrow> lp_entity \<Rightarrow> u32 \<Rightarrow> u32 \<Rightarrow> details_buffer \<Rightarrow> details_buffer option" where
  "list_all s lp type unset result =
     (let start = (case lp of None \<Rightarrow> DbKey 0 0 0 | Some e \<Rightarrow> DbKey e 0 MC_PTP_CONNECT)
      in case db_Seek (p_Database s) start of (found, err) \<Rightarrow>
        if err \<noteq> MC_ERR_NOERROR then None
        else
          (let b1 = (if found = None then result
                     else list_db s lp type unset (db_MoveNext_rows (p_Database s) start) result);
               rows = map (buf_GetRow (p_MemPool s)) [0..<buf_GetCount (p_MemPool s)]
           in Some (snd (foldl (list_mem_row lp type) (found = None, b1) rows))))"

fun fill_rows :: "net_params \<Rightarrow> mc_Permissions \<Rightarrow> nat list \<Rightarrow> details_buffer \<Rightarrow> details_buffer option" where
  "fill_rows np s [] b = Some b"
| "fill_rows np s (i # is) b =
     (case FillPermissionDetails np s 0 (m_Data b i) False of
        None \<Rightarrow> None
      | Some (err, d, rows) \<Rightarrow> fill_rows np s is (b\<lparr>m_Data := (m_Data b)(i := d)\<rparr>))"

text \<open>The outer \<open>None\<close> does not return; the inner one is the NULL result of a failed database read.\<close>

definition GetPermissionList ::
    "net_params \<Rightarrow> mc_Permissions \<Rightarrow> lp_entity \<Rightarrow> address option \<Rightarrow> u32 \<Rightarrow> u32 \<Rightarrow> details_buffer \<Rightarrow>
     details_buffer option option" where
  "GetPermissionList np s lp lpAddress type unset result =
     (case (case lpAddress of
              Some a \<Rightarrow> Some (list_address s lp a type result)
            | None \<Rightarrow> list_all s lp type unset result) of
        None \<Rightarrow> Some None
      | Some b \<Rightarrow>
          (if \<not> lg_CanOpen (p_Ledger s) then Some (Some b)
           else map_option Some (fill_rows np s [0..<m_Count b] b)))"

definition GetUpgradeList ::
    "net_params \<Rightarrow> mc_Permissions \<Rightarrow> upgrade_id option \<Rightarrow> u32 \<Rightarrow> details_buffer \<Rightarrow> details_buffer option option" where
  "GetUpgradeList np s lpUpgrade unset old_buffer =
     GetPermissionList np s (Some upgrade_entity) (map_option upgrade_address lpUpgrade)
       (MC_PTP_CONNECT OR MC_PTP_UPGRADE) unset old_buffer"

end
