(* ===== verification/Perm_Examples.thy ===== *)
theory Perm_Examples
  imports Perm_Init Perm_Mining Perm_Query
begin

text \<open>
  Concrete states: a new node's permissions, as \<open>Initialize\<close> makes them on an empty disk, and the
  network parameters of the examples.
\<close>

definition ex_np :: net_params where
  "ex_np = \<lparr>np_IsProtocolMultichain = True, np_ProtocolVersion = 20003,
     np_Int64 = (\<lambda>p. if p \<in> {''adminconsensusadmin'', ''adminconsensusmine''} then 1000000
       else if p = ''miningdiversity'' then 500000 else 0),
     np_ANYONE_CAN_ADMIN = False, np_ANYONE_CAN_MINE = False, np_ANYONE_CAN_CONNECT = False,
     np_ANYONE_CAN_SEND = False, np_ANYONE_CAN_RECEIVE = False, np_ANYONE_CAN_CREATE = False,
     np_ANYONE_CAN_ACTIVATE = False, np_ANYONE_CAN_RECEIVE_EMPTY = False\<rparr>"

definition empty_db :: perm_db where
  "empty_db = \<lparr>db_Open = True, db_Store = [], db_Batch = [], db_GetErr = False, db_PutErr = False,
     db_CommitErr = False\<rparr>"

definition empty_ledger :: mc_PermissionLedger where
  "empty_ledger = \<lparr>lg_CanOpen = True, lg_Rows = [], lg_Pos = 0\<rparr>"

definition no_permission :: mempool_permission where
  "no_permission = \<lparr>mp_Entity = 0, mp_Address = 0, mp_Type = 0\<rparr>"

definition fresh :: mc_Permissions where
  "fresh = (zero_state
     (empty_db\<lparr>db_Store := [(DbKey 0 0 0, PermVal (zero_val\<lparr>v_BlockTo := -1, v_LedgerRow := 1\<rparr>)),
                           (marker_key, PermVal zero_val)]\<rparr>)
     \<lparr>lg_CanOpen = True, lg_Rows = [zero_row\<lparr>l_BlockTo := -1, l_PrevRow := 1\<rparr>], lg_Pos = 1\<rparr>
     (\<lambda>_. zero_row) (\<lambda>_. no_permission))\<lparr>p_Row := 1\<rparr>"

lemma marker_above_header: "DbKey 0 0 0 < marker_key" "\<not> marker_key < DbKey 0 0 0" "marker_key \<noteq> DbKey 0 0 0"
  using special_entities_distinct
  by (simp_all add: less_db_key_def key_rank_def marker_key_def null_entity_def unat_gt_0)

lemma Initialize_fresh:
  "Initialize empty_db empty_ledger 0 (\<lambda>_. zero_row) (\<lambda>_. no_permission) True = Some (0, fresh)"
  by (simp add: Initialize_def init_database_def init_ledger_def empty_db_def empty_ledger_def db_Read_def db_Write_def
      db_Commit_def store_get_def ledger_GetRow_def ledger_SetRow_def ledger_WriteRow_def write_at_def ledger_GetSize_def
      init_counts_def UpdateCounts_def first_count_def db_Seek_def zero_state_def marker_above_header
      db_MoveNext_rows_def store_after_def index_row_def store_batch_def fresh_def zero_val_def)

lemma fresh_log [simp]: "p_log fresh = [zero_row\<lparr>l_BlockTo := -1, l_PrevRow := 1\<rparr>]" "ledger_used fresh = 1"
  "p_Row fresh = 1" "p_Block fresh = -1" "m_Count (p_MemPool fresh) = 0" "p_AdminCount fresh = 0"
  "p_MinerCount fresh = 0" "p_CopiedRow fresh = 0"
  by (simp_all add: fresh_def zero_state_def p_log_def ledger_used_def buf_Initialize_def buf_rows_def)

lemma fresh_db: "db_get (p_Database fresh) k = (if k = DbKey 0 0 0 then
    Some (PermVal (zero_val\<lparr>v_BlockTo := -1, v_LedgerRow := 1\<rparr>)) else if k = marker_key then Some (PermVal zero_val) else None)"
  by (simp add: fresh_def zero_state_def db_get_def store_get_def)

lemma fresh_chain: "perm_chain fresh"
proof -
  have "store_ok (db_Store (p_Database fresh))"
    by (simp add: fresh_def zero_state_def store_ok_def marker_above_header)
  moreover have "wf_log (p_log fresh)" by (simp add: wf_log_def)
  moreover have "klast k R (Suc 0) = 0" for k R using klast_less [of "Suc 0" k R] by simp
  moreover have "lg_CanOpen (p_Ledger fresh)" "db_healthy (p_Database fresh)" "db_Batch (p_Database fresh) = []"
    "length (lg_Rows (p_Ledger fresh)) = 1" "buf_ok mem_key (p_MemPool fresh)"
    by (simp_all add: fresh_def zero_state_def db_healthy_def empty_db_def)
  ultimately show ?thesis
    using not_list_key [of _ 0 MC_PTP_CONNECT]
    by (auto simp: perm_chain_def perm_good_def perm_wf_def perm_healthy_def db_mirrors_def log_val_def fresh_db
        index_ok_def flagless_def log_key_def marker_key_def)
qed

lemma fresh_allowed [simp]: "allowed_set fresh t = {}"
proof -
  have "klast k R (Suc 0) = 0" for k R using klast_less [of "Suc 0" k R] by simp
  then show ?thesis by (simp add: allowed_set_def log_allowed_def log_row_defs)
qed

lemma fresh_counts: "counts_ok fresh"
  by (simp add: counts_ok_def)

section \<open>Two admins and a pending grant\<close>

text \<open>
  Two admins, 11 and 22, and one row of admin 11 that asks for the mining permission of 33. With
  both admins required, the row waits for admin 22.
\<close>

definition ex_row :: "nat \<Rightarrow> address \<Rightarrow> u32 \<Rightarrow> address \<Rightarrow> u32 \<Rightarrow> u32 \<Rightarrow> ledger_row" where
  "ex_row n a t admin to consensus =
     zero_row\<lparr>l_Address := a, l_Type := t, l_BlockTo := to, l_Consensus := consensus, l_Admin := admin,
       l_GrantTo := 1000, l_Timestamp := of_nat n, l_ThisRow := n\<rparr>"

definition two_admins :: mc_Permissions where
  "two_admins = (push_row (push_row (push_row fresh (ex_row 1 11 MC_PTP_ADMIN 11 1000 1))
     (ex_row 2 22 MC_PTP_ADMIN 11 1000 1)) (ex_row 3 33 MC_PTP_MINE 11 0 0))\<lparr>p_AdminCount := 2\<rparr>"

lemma ex_row_fields [simp]:
  "row_key (ex_row n a t admin to c) = DbKey 0 a t" "l_ThisRow (ex_row n a t admin to c) = n"
  "l_PrevRow (ex_row n a t admin to c) = 0" "l_Consensus (ex_row n a t admin to c) = c"
  "l_Admin (ex_row n a t admin to c) = admin" "l_GrantFrom (ex_row n a t admin to c) = 0"
  "l_GrantTo (ex_row n a t admin to c) = 1000" "l_Timestamp (ex_row n a t admin to c) = of_nat n"
  "l_BlockFrom (ex_row n a t admin to c) = 0" "l_BlockTo (ex_row n a t admin to c) = to"
  "l_BlockReceived (ex_row n a t admin to c) = 0" "l_Address (ex_row n a t admin to c) = a"
  by (simp_all add: ex_row_def row_key_def zero_row_def)

lemma zero_log_key [simp]:
  "log_key (DbKey 0 a MC_PTP_ADMIN)" "log_key (DbKey 0 a MC_PTP_MINE)" "log_key (DbKey 0 a MC_PTP_CONNECT)"
  using special_entities_distinct by (auto simp: log_key_def null_entity_def)

lemma two_admins_log:
  "p_log two_admins = [zero_row\<lparr>l_BlockTo := -1, l_PrevRow := 1\<rparr>, ex_row 1 11 MC_PTP_ADMIN 11 1000 1,
     ex_row 2 22 MC_PTP_ADMIN 11 1000 1, ex_row 3 33 MC_PTP_MINE 11 0 0]"
  using state_eq_log(1) [of two_admins "two_admins\<lparr>p_AdminCount := 0\<rparr>"]
  by (simp add: two_admins_def p_log_def ledger_used_def push_row_def buf_rows_Add)
    (simp add: p_log_def [of fresh, simplified, symmetric])

lemma klast_numeral [simp]:
  "klast k R (numeral n) = (if 0 < (pred_numeral n) \<and> row_key (R ! pred_numeral n) = k then pred_numeral n
     else klast k R (pred_numeral n))"
  by (simp add: numeral_eq_Suc klast_Suc)

lemma two_admins_good: "perm_good two_admins"
proof -
  have f: "perm_good fresh" using fresh_chain by (simp add: perm_chain_def)
  let ?r1 = "ex_row 1 11 MC_PTP_ADMIN 11 1000 1" and ?r2 = "ex_row 2 22 MC_PTP_ADMIN 11 1000 1"
  let ?r3 = "ex_row 3 33 MC_PTP_MINE 11 0 0"
  have 1: "perm_good (push_row fresh ?r1)" by (rule push_row_good [OF f]) (simp_all add: klast_Suc)
  have 2: "perm_good (push_row (push_row fresh ?r1) ?r2)"
    by (rule push_row_good [OF 1]) (simp_all add: klast_Suc)
  have 3: "perm_good (push_row (push_row (push_row fresh ?r1) ?r2) ?r3)"
    by (rule push_row_good [OF 2]) (simp_all add: klast_Suc)
  then show ?thesis unfolding two_admins_def by (rule iffD2 [OF state_eq_log(2), rotated -1]) simp_all
qed

lemma two_admins_fields [simp]: "p_AdminCount two_admins = 2" "p_Row two_admins = 4" "p_Block two_admins = -1"
  by (simp_all add: two_admins_def)

lemma two_admins_consensus: "AdminConsensus ex_np two_admins (Some 0) MC_PTP_MINE = 2"
  by (simp add: AdminConsensus_def GetAdminCount_def ex_np_def mc_IsNullEntity_def null_entity_def IsSetupPeriod_def
      consensus_param_def to_i32_id admins_for_share_bounded)

lemma two_admins_pending:
  "klast (DbKey 0 33 MC_PTP_MINE) (p_log two_admins) 4 = 3"
  "pending_rows (p_log two_admins) (DbKey 0 33 MC_PTP_MINE) 4 = [ex_row 3 33 MC_PTP_MINE 11 0 0]"
  by (simp_all add: two_admins_log pending_rows_def numeral_eq_Suc klast_Suc)

end
