(* ===== verification/Perm_Facts.thy ===== *)
theory Perm_Facts
  imports Perm_Examples
begin

text \<open>
  Facts about the whole component that its properties rest on: who decides a grant, what a commit
  followed by a roll-back gives, and the round trips of the memory pool.
\<close>

section \<open>The range of a permission\<close>

text \<open>The block range the last row of a key gives.\<close>

definition perm_range :: "mc_Permissions \<Rightarrow> db_key \<Rightarrow> u32 \<times> u32" where
  "perm_range s k = (log_from (p_log s) (p_Row s) k, log_to (p_log s) (p_Row s) k)"

text \<open>The admins with a pending row for a range, and those whose newest pending row is for it.\<close>

definition grant_admins :: "ledger_row list \<Rightarrow> u32 \<Rightarrow> u32 \<Rightarrow> address set" where
  "grant_admins rs from to = l_Admin ` {r \<in> set rs. l_GrantFrom r = from \<and> l_GrantTo r = to}"

definition newest_admins :: "ledger_row list \<Rightarrow> u32 \<Rightarrow> u32 \<Rightarrow> address set" where
  "newest_admins rs from to =
     {b. \<exists>r. List.find (\<lambda>r. l_Admin r = b) rs = Some r \<and> l_GrantFrom r = from \<and> l_GrantTo r = to}"

lemma new_row_grant [simp]:
  "l_GrantFrom (new_row s lp a t adm from to ts fl off prev) = from"
  "l_GrantTo (new_row s lp a t adm from to ts fl off prev) = to"
  "l_Timestamp (new_row s lp a t adm from to ts fl off prev) = ts"
  "l_Admin (new_row s lp a t adm from to ts fl off prev) = (if p_AdminCount s \<noteq> 0 then adm else a)"
  by (simp_all add: new_row_def)

lemma perm_range_snoc:
  assumes "perm_wf s" and "perm_wf s'" and "p_log s' = p_log s @ [row]" and "row_key row = k"
  shows "perm_range s' k = (l_BlockFrom row, l_BlockTo row)"
proof -
  have len: "length (p_log s) = p_Row s" "length (p_log s') = p_Row s'" "0 < p_Row s"
    using perm_wf_length [OF assms(1)] perm_wf_length [OF assms(2)] by simp_all
  then have "p_Row s' = Suc (p_Row s)" using assms(3) by simp
  then have "klast k (p_log s') (p_Row s') = p_Row s" using len assms(3,4) by (simp add: klast_Suc nth_append)
  then show ?thesis using len assms(3) by (simp add: perm_range_def log_row_defs nth_append)
qed

text \<open>Writing one type: the new range, and whether the row takes effect.\<close>

lemma SetPermission_one_range:
  assumes good: "perm_good s" and t: "t \<in> set (set_types np)" and e: "lp_deref lp \<noteq> adminminerlist_entity"
    and k: "k = DbKey (lp_deref lp) a t"
    and new: "new = new_row s lp a t admin from to ts flags offset (klast k (p_log s) (p_Row s))"
  shows "\<exists>s'. SetPermissionInternal np s lp a t admin from to ts flags True offset = Some (MC_ERR_NOERROR, s') \<and>
     grants {k} s s' \<and> perm_range s' k = (if granted np s new then (from, to) else perm_range s k)"
proof -
  have lk: "log_key (DbKey (lp_deref lp) a t)" by (rule set_types_log_key [OF t e])
  obtain s' where s': "SetPermissionInternal np s lp a t admin from to ts flags True offset = Some (MC_ERR_NOERROR, s')"
    "grants {k} s s'" "p_log s' = p_log s @ [voted_row np s new]"
    using SetPermission_single_log [OF good lk refl refl, of np admin "from" to ts flags True offset]
    unfolding SetPermissionInternal_one [OF t] k new by auto
  have "row_key (voted_row np s new) = k" by (simp add: new k)
  then have "perm_range s' k = (l_BlockFrom (voted_row np s new), l_BlockTo (voted_row np s new))"
    using perm_range_snoc [OF _ _ s'(3)] good s'(2) by (simp add: perm_good_def grants_def)
  also have "\<dots> = (if granted np s new then (from, to) else perm_range s k)"
    by (simp add: voted_row_def perm_range_def new k)
  finally show ?thesis using s' by blast
qed

lemma granted_admins:
  assumes "granted np s new" and "c = AdminConsensus np s (Some (l_Entity new)) (l_Type new)"
  shows "c \<le> 1 \<or> c \<le> int (card (insert (l_Admin new)
     (grant_admins (pending_rows (p_log s) (row_key new) (p_Row s)) (l_GrantFrom new) (l_GrantTo new))))"
proof (cases "c \<le> 1")
  case False
  let ?row = "new\<lparr>l_Consensus := word_of_int c\<rparr>" and ?p = "pending_rows (p_log s) (row_key new) (p_Row s)"
  have "row_key ?row = row_key new" by (simp add: row_key_def)
  then have "reached c ?row [] (?row # ?p)" using assms False by (simp add: granted_def Let_def)
  then have "c \<le> int (card (l_Admin ` {r \<in> set (?row # ?p). same_grant ?row r}))" by (rule reached_admins)
  also have "{r \<in> set (?row # ?p). same_grant ?row r} = insert ?row {r \<in> set ?p. same_grant ?row r}"
    by (auto simp: same_grant_def)
  also have "l_Admin ` \<dots> = insert (l_Admin new) (grant_admins ?p (l_GrantFrom new) (l_GrantTo new))"
    by (simp add: same_grant_def grant_admins_def)
  finally show ?thesis by simp
qed simp

lemma granted_newest:
  assumes c: "c = AdminConsensus np s (Some (l_Entity new)) (l_Type new)" "1 < c"
    and ts: "newest_first (new # pending_rows (p_log s) (row_key new) (p_Row s))"
  shows "granted np s new \<longleftrightarrow> c \<le> int (card (newest_admins
     (new # pending_rows (p_log s) (row_key new) (p_Row s)) (l_GrantFrom new) (l_GrantTo new)))"
proof -
  let ?row = "new\<lparr>l_Consensus := word_of_int c\<rparr>" and ?p = "pending_rows (p_log s) (row_key new) (p_Row s)"
  have "newest_first (?row # ?p)" using ts by (simp add: newest_first_def)
  moreover have "row_key ?row = row_key new" by (simp add: row_key_def)
  ultimately have "granted np s new \<longleftrightarrow> c \<le> int (support ?row (?row # ?p))"
    using c reached_newest_first [of "?row # ?p" c ?row] by (simp add: granted_def Let_def)
  also have "in_favour ?row (votes (?row # ?p)) = newest_admins (new # ?p) (l_GrantFrom new) (l_GrantTo new)"
    using \<open>newest_first (?row # ?p)\<close>
    by (auto simp: in_favour_def newest_admins_def votes_newest_first same_grant_def split: if_splits)
  then have "support ?row (?row # ?p) = card (newest_admins (new # ?p) (l_GrantFrom new) (l_GrantTo new))"
    by (simp add: support_def)
  finally show ?thesis .
qed

section \<open>Commit and roll back\<close>

text \<open>
  Rows know the height of the block that received them: at most the current one in the chain part,
  the next one in the memory pool.
\<close>

definition received_ok :: "mc_Permissions \<Rightarrow> bool" where
  "received_ok s \<longleftrightarrow> - 1 \<le> p_Block s \<and> p_Block s < 2 ^ 31 - 1 \<and>
     (\<forall>i. 0 < i \<longrightarrow> i < ledger_used s \<longrightarrow> sint (l_BlockReceived (p_log s ! i)) \<le> p_Block s) \<and>
     (\<forall>r\<in>set (buf_rows (p_MemPool s)). l_BlockReceived r = next_block s)"

lemma last_received_cut:
  assumes "m \<le> n" and "\<And>i. m < i \<Longrightarrow> i \<le> n \<Longrightarrow> block < sint (l_BlockReceived (R ! i))"
    and "0 < m \<Longrightarrow> sint (l_BlockReceived (R ! m)) \<le> block"
  shows "last_received R block n = m"
  using assms
proof (induction n)
  case (Suc n)
  show ?case
  proof (cases "m = Suc n")
    case False
    then show ?thesis using Suc by simp
  qed (use Suc.prems in simp)
qed simp

lemma sint_next_block:
  assumes "- 1 \<le> p_Block s" and "p_Block s < 2 ^ 31 - 1"
  shows "sint (next_block s) = p_Block s + 1"
  using assms to_i32_id [of "p_Block s + 1"] by (simp add: next_block_def to_i32_def)

lemma RollBack_after_Commit:
  assumes ch: "perm_chain s" and rc: "received_ok s" and ch': "perm_chain s'"
    and mp: "m_Count (p_MemPool s') = 0" and row: "p_Row s' = p_Row s + 2"
    and log: "p_log s' = (p_log s)[0 := h] @ [b1, b2]"
    and b: "l_BlockReceived b1 = next_block s" "l_BlockReceived b2 = next_block s"
  shows "\<exists>s'' h. RollBack s' (p_Block s) = Some (MC_ERR_NOERROR, s'') \<and> perm_chain s'' \<and> counts_ok s'' \<and>
     p_Block s'' = p_Block s \<and> p_Row s'' = ledger_used s \<and> p_log s'' = (take (ledger_used s) (p_log s))[0 := h]"
proof -
  have wf: "perm_wf s" using ch by (simp add: perm_chain_def perm_good_def)
  note len = perm_wf_length [OF wf]
  let ?L = "ledger_used s"
  have nb: "p_Block s < sint (next_block s)" using rc sint_next_block [of s] by (simp add: received_ok_def)
  have used: "ledger_used s' = p_Row s + 2" using mp row by (simp add: ledger_used_def)
  have recv: "l_BlockReceived (p_log s' ! i) = (if i < p_Row s then l_BlockReceived (p_log s ! i) else next_block s)"
    if "0 < i" "i < p_Row s + 2" for i
    using that b len(1) by (auto simp: log nth_append nth_Cons' less_Suc_eq)
  have "last_received (p_log s') (p_Block s) (p_Row s + 1) = ?L - 1"
  proof (rule last_received_cut)
    fix i
    assume i: "?L - 1 < i" "i \<le> p_Row s + 1"
    have "l_BlockReceived (p_log s' ! i) = next_block s"
    proof (cases "i < p_Row s")
      case True
      then have "p_log s ! i \<in> set (buf_rows (p_MemPool s))"
        using p_log_mem [of s i] i wf len by (auto simp: perm_wf_def intro!: nth_mem)
      then show ?thesis using rc recv [of i] i True by (simp add: received_ok_def)
    qed (use recv [of i] i in simp)
    then show "p_Block s < sint (l_BlockReceived (p_log s' ! i))" using nb by simp
  next
    assume "0 < ?L - 1"
    then show "sint (l_BlockReceived (p_log s' ! (?L - 1))) \<le> p_Block s"
      using rc recv [of "?L - 1"] len by (auto simp: received_ok_def)
  qed (use len in simp)
  with RollBackInternal_chain [OF ch', of "p_Block s"] used len(3,4)
  obtain s'' h' where "RollBack s' (p_Block s) = Some (MC_ERR_NOERROR, s'')" "perm_chain s''" "counts_ok s''"
    "p_Block s'' = p_Block s" "p_Row s'' = ?L" "p_log s'' = (take ?L (p_log s'))[0 := h']"
    by (auto simp: RollBack_def)
  moreover have "(take ?L (p_log s'))[0 := h'] = (take ?L (p_log s))[0 := h']"
    using len by (simp add: log take_update_swap)
  ultimately show ?thesis by auto
qed

section \<open>The rows of a committed block\<close>

lemma seek_none:
  assumes "buf_ok mem_key mp" and "\<And>r. r \<in> set (buf_rows mp) \<Longrightarrow> row_key r \<noteq> k"
  shows "buf_Seek mem_key mp (k, prev) = None"
  using assms(2) by (auto simp: buf_Seek_find [OF assms(1)] find_idx_None mem_key_def)

lemma index_lookup:
  assumes good: "perm_good s"
    and none: "\<And>r. r \<in> set (buf_rows (p_MemPool s)) \<Longrightarrow> row_key r \<noteq> DbKey 0 a MC_PTP_BLOCK_INDEX"
    and v: "db_get (p_Database s) (DbKey 0 a MC_PTP_BLOCK_INDEX) = Some (PermVal v)"
  shows "l_ThisRow (snd (GetPermission3 s a MC_PTP_BLOCK_INDEX)) = v_LedgerRow v"
proof -
  have "buf_ok mem_key (p_MemPool s)" using good by (simp add: perm_good_def perm_wf_def)
  note none = seek_none [OF this none]
  have op: "db_Open (p_Database s)" and hl: "db_healthy (p_Database s)" and nc: "p_CopiedRow s = 0"
    using good by (simp_all add: perm_good_def perm_healthy_def db_healthy_def)
  have nu: "\<not> mc_IsUpgradeEntity (Some 0)"
    using special_entities_distinct by (simp add: mc_IsUpgradeEntity_def null_entity_def)
  show ?thesis
    using op nc nu v
    by (simp add: GetPermission3_def GetPermission5_def GetPermissionRow_def GetPermission_stored_def lp_deref_def
        null_entity_def db_Read_healthy [OF hl] Let_def row_key_def none)
qed

lemma block_queries:
  assumes ch: "perm_chain s" and ch': "perm_chain s'" and empty: "m_Count (p_MemPool s') = 0"
    and log: "p_log s' = (p_log s)[0 := h] @ [with_counts s' b1, with_counts s' b2]"
    and row: "p_Row s' = p_Row s + 2"
    and b: "block_rows s miner hash b1 b2" and v: "db_get (p_Database s') (row_key b2) = Some (PermVal (row_val b2))"
  shows "GetBlockMiner_height s' (next_block s) = (MC_ERR_NOERROR, Some miner)"
    and "VerifyBlockHash s' (p_Block s + 1) hash' \<longleftrightarrow> hash' = hash"
proof -
  have good': "perm_good s'" and wf': "perm_wf s'" and op: "lg_CanOpen (p_Ledger s')"
    using ch' by (simp_all add: perm_chain_def perm_good_def perm_healthy_def)
  have lenR: "length (p_log s) = p_Row s" "0 < p_Row s" using ch perm_wf_length [of s] by (auto simp: perm_chain_def perm_good_def)
  have used: "ledger_used s' = p_Row s + 2" using empty row by (simp add: ledger_used_def)
  have key2: "row_key b2 = DbKey 0 (block_address (next_block s)) MC_PTP_BLOCK_INDEX" and n2: "l_ThisRow b2 = Suc (p_Row s)"
    using b by (simp_all add: block_rows_def)
  have this2: "l_ThisRow (snd (GetPermission3 s' (block_address (next_block s)) MC_PTP_BLOCK_INDEX)) = Suc (p_Row s)"
    using index_lookup [OF good' _ v [unfolded key2]] n2 empty by (simp add: row_val_def buf_rows_def)
  have rd: "snd (ledger_GetRow (p_Ledger s') i old) = p_log s' ! i" if "i < p_Row s + 2" for i old
    using that wf' used op p_log_ledger [of i s'] by (auto simp: ledger_GetRow_def perm_wf_def)
  have r1: "p_log s' ! p_Row s = with_counts s' b1" and r2: "p_log s' ! Suc (p_Row s) = with_counts s' b2"
    using lenR by (simp_all add: log nth_append)
  have b1: "l_Type b1 = MC_PTP_BLOCK_MINER" "l_Address b1 = miner" and h2: "bl_CommitHash b2 = hash"
    using b by (simp_all add: block_rows_def row_key_def)
  show "GetBlockMiner_height s' (next_block s) = (MC_ERR_NOERROR, Some miner)"
    using this2 op b1 lenR rd [of "p_Row s"] r1 by (simp add: GetBlockMiner_height_def Let_def)
  have nb: "word_of_int (p_Block s + 1) = next_block s" by (simp add: next_block_def)
  show "VerifyBlockHash s' (p_Block s + 1) hash' \<longleftrightarrow> hash' = hash"
    unfolding VerifyBlockHash_def nb using this2 op h2 rd [of "Suc (p_Row s)"] r2 by (auto simp: Let_def)
qed

section \<open>Copies of the memory pool\<close>

lemma foldl_rows:
  "foldl (\<lambda>c i. buf_Add kf c (buf_GetRow src i)) b [0..<m_Count src] = foldl (buf_Add kf) b (buf_rows src)"
proof -
  have "foldl (buf_Add kf) b (map (m_Data src) [0..<m_Count src]) =
      foldl (\<lambda>c i. buf_Add kf c (m_Data src i)) b [0..<m_Count src]"
    by (rule foldl_map)
  then show ?thesis by (simp add: buf_rows_def buf_GetRow_def)
qed

lemma buf_CopyFrom_rows:
  "buf_rows (buf_CopyFrom kf b src) = buf_rows src" "buf_ok kf (buf_CopyFrom kf b src)"
  by (simp_all add: buf_CopyFrom_def buf_GetCount_def foldl_rows mcb.rows_addl mcb.ok_addl)

lemma add_copied_log:
  assumes mp: "m_Count (p_MemPool s) = 0" and ok: "buf_ok mem_key (p_MemPool s)"
  shows "buf_rows (p_MemPool (add_copied s)) = buf_rows (p_CopiedMemPool s)"
    and "buf_ok mem_key (p_MemPool (add_copied s))" and "ledger_used (add_copied s) = p_Row s"
    and "p_Row (add_copied s) = p_Row s + m_Count (p_CopiedMemPool s)"
proof -
  have e: "buf_rows (p_MemPool s) = []" using mp by (simp add: buf_rows_def)
  have m: "p_MemPool (add_copied s) = foldl (buf_Add mem_key) (p_MemPool s) (buf_rows (p_CopiedMemPool s))"
    by (simp add: add_copied_def buf_GetCount_def foldl_rows)
  show r: "buf_rows (p_MemPool (add_copied s)) = buf_rows (p_CopiedMemPool s)"
    by (simp add: m mcb.rows_addl e)
  show "buf_ok mem_key (p_MemPool (add_copied s))" by (simp add: m mcb.ok_addl ok)
  show row: "p_Row (add_copied s) = p_Row s + m_Count (p_CopiedMemPool s)"
    by (simp add: add_copied_def buf_GetCount_def)
  have "m_Count (p_MemPool (add_copied s)) = m_Count (p_CopiedMemPool s)"
    using arg_cong [OF r, of length] by simp
  then show "ledger_used (add_copied s) = p_Row s" by (simp add: ledger_used_def row)
qed

text \<open>The pool's rows and the chain part determine the state's log.\<close>

lemma perm_good_eq:
  assumes "perm_good s" and "buf_rows (p_MemPool s') = buf_rows (p_MemPool s)" and "buf_ok mem_key (p_MemPool s')"
    and "ledger_used s' = ledger_used s" and "p_Row s' = p_Row s" and "p_Ledger s' = p_Ledger s"
    and "p_Database s' = p_Database s" and "p_CopiedRow s' = 0"
  shows "p_log s' = p_log s" and "perm_good s'"
proof -
  show log: "p_log s' = p_log s" using assms by (simp add: p_log_def)
  have "m_Count (p_MemPool s') = m_Count (p_MemPool s)" using arg_cong [OF assms(2), of length] by simp
  then show "perm_good s'"
    using assms unfolding perm_good_def perm_wf_def perm_healthy_def log by simp
qed

section \<open>Mining diversity\<close>

lemma diversity_window_le: "0 < n \<Longrightarrow> diversity_window np n \<le> n"
  by (simp add: diversity_window_def Let_def)

lemma not_barred_after:
  assumes "0 < n" and "n \<le> sint (block - last_mined)"
  shows "\<not> IsBarredByDiversity np block last_mined n"
  using diversity_window_le [OF assms(1), of np] assms by (simp add: IsBarredByDiversity_def)

lemma sint_diff:
  fixes block last_mined :: u32
  assumes "last_mined \<le> block" and "uint block < 2 ^ 31"
  shows "sint (block - last_mined) = uint block - uint last_mined"
proof -
  have le: "uint last_mined \<le> uint block" using assms(1) by (simp add: word_le_def)
  then have "uint (block - last_mined) = uint block - uint last_mined" by (simp add: uint_sub_lem)
  moreover have "sint w = to_i32 (uint w)" for w :: u32 by (simp add: to_i32_def)
  moreover have "to_i32 (uint block - uint last_mined) = uint block - uint last_mined"
    by (rule to_i32_id) (use assms(2) le uint_ge_0 [of last_mined] in linarith)+
  ultimately show ?thesis by simp
qed

section \<open>Loops that stop\<close>

lemma consensus_loop_total:
  assumes wf: "perm_wf s"
  shows "l_PrevRow pld < n \<Longrightarrow> l_PrevRow pld < p_Row s \<Longrightarrow>
     consensus_loop n s counting new lastRow pld tmp required \<noteq> None"
proof (induction n arbitrary: pld tmp required)
  case (Suc n)
  let ?p = "pld\<lparr>l_Address := l_Admin pld\<rparr>" and ?j = "l_PrevRow pld"
  note len = perm_wf_length [OF wf]
  have row: "l_PrevRow row < ?j" if j: "0 < ?j" and f: "consensus_fetch s new ?j ?p = (MC_ERR_NOERROR, row)" for row
  proof -
    have "row = p_log s ! ?j"
      using f Suc.prems(2) wf len p_log_mem [of s ?j] p_log_ledger [of ?j s]
      by (auto simp: consensus_fetch_def Let_def ledger_GetRow_def buf_GetRow_nth perm_wf_def split: if_splits)
    moreover have "wf_row (p_log s) ?j"
      using wf len j Suc.prems(2) by (auto simp: perm_wf_def intro: wf_logD)
    ultimately show ?thesis using klast_less [OF j, of _ "p_log s"] by (auto simp: wf_row_def)
  qed
  obtain tmp' req where t: "consensus_tally counting new ?p tmp required = (tmp', req)"
    by (cases "consensus_tally counting new ?p tmp required")
  obtain err row' where f: "consensus_fetch s new ?j ?p = (err, row')"
    by (cases "consensus_fetch s new ?j ?p")
  have "consensus_loop n s counting new lastRow row' tmp' req \<noteq> None" if "0 < ?j" "err = MC_ERR_NOERROR"
    using Suc.IH [of row'] row [of row'] that f Suc.prems by simp
  then show ?case using t f by (auto simp: Let_def)
qed simp

section \<open>Small facts\<close>

lemma and_mask_part:
  fixes t type m :: u32
  assumes "t AND type \<noteq> 0" and "t AND m = t"
  shows "type AND m \<noteq> 0"
proof
  assume "type AND m = 0"
  then have "t AND (type AND m) = 0" by simp
  then have "(t AND m) AND type = 0" by (simp only: ac_simps)
  with assms show False by simp
qed

lemma perm_good_block: "perm_good (s\<lparr>p_Block := b\<rparr>) = perm_good s"
  by (simp add: perm_good_def perm_wf_def perm_healthy_def p_log_def ledger_used_def)

lemma perm_range_frame:
  assumes "perm_wf s" and "perm_wf s'" and "p_log s' = (p_log s)[0 := h] @ rs" and "k \<notin> row_key ` set rs"
  shows "perm_range s' k = perm_range s k"
proof -
  let ?R = "p_log s"
  have len: "p_Row s = length ?R" "p_Row s' = length ?R + length rs" "?R \<noteq> []"
    using perm_wf_length(1) [OF assms(1)] perm_wf_length(1) [OF assms(2)] assms(1,3)
    by (simp_all add: perm_wf_def wf_log_def)
  have kl: "klast k (p_log s') (p_Row s') = klast k ?R (p_Row s)"
    unfolding len assms(3) using klast_frame [of "?R[0 := h]" k rs] assms(4) len(3) by simp
  have "klast k ?R (p_Row s) < length ?R" using len by (simp add: klast_less)
  then show ?thesis using kl by (auto simp: perm_range_def log_row_defs assms(3) nth_append)
qed

lemma perm_range_chain:
  assumes "perm_wf s" and "perm_wf s'" and "p_log s' = (take (ledger_used s) (p_log s))[0 := h]"
  shows "perm_range s' k = perm_range (chain_part s) k"
proof -
  have "p_log s' = (p_log (chain_part s))[0 := h] @ []" using assms(1,3) by (simp add: chain_part_take)
  moreover have "perm_wf (chain_part s)"
  proof -
    have "wf_log (p_log (chain_part s))"
      using assms(1) perm_wf_length(3) [OF assms(1)] by (simp add: chain_part_take perm_wf_def wf_log_take)
    then show ?thesis
      using assms(1) perm_wf_length(3) [OF assms(1)]
      by (simp add: perm_wf_def chain_part_take [OF assms(1)] db_mirrors_take)
  qed
  ultimately show ?thesis using perm_range_frame [of "chain_part s" s' h "[]" k] assms(2) by simp
qed

lemma two_admins_chain: "perm_chain two_admins"
proof -
  have "klast k R (Suc 0) = 0" for k R using klast_less [of "Suc 0" k R] by simp
  moreover have "ledger_used two_admins = 1" "p_Database two_admins = p_Database fresh"
    by (simp_all add: two_admins_def ledger_used_def)
  ultimately show ?thesis
    using two_admins_good fresh_chain by (simp add: perm_chain_def index_ok_def)
qed

lemma two_admins_pool: "buf_rows (p_MemPool two_admins) =
    [ex_row 1 11 MC_PTP_ADMIN 11 1000 1, ex_row 2 22 MC_PTP_ADMIN 11 1000 1, ex_row 3 33 MC_PTP_MINE 11 0 0]"
  by (simp add: two_admins_def push_row_def buf_rows_Add fresh_def zero_state_def buf_rows_Initialize)

lemma two_admins_received: "received_ok two_admins"
proof -
  have u: "ledger_used two_admins = 1" and n: "next_block two_admins = 0" and b: "p_Block two_admins = - 1"
    by (simp_all add: two_admins_def ledger_used_def next_block_def)
  show ?thesis by (simp add: received_ok_def two_admins_pool u n b)
qed

lemma two_admins_no_zero: "r \<in> set (buf_rows (p_MemPool two_admins)) \<Longrightarrow> \<not> zero_admin r"
  by (auto simp: two_admins_pool zero_admin_def)

section \<open>The state put aside while a fork is verified\<close>

definition aside :: "mc_Permissions \<Rightarrow> mc_Permissions \<Rightarrow> bool" where
  "aside s t \<longleftrightarrow> buf_rows (p_CopiedMemPool t) = buf_rows (p_MemPool s) \<and> p_CopiedAdminCount t = p_AdminCount s \<and>
     p_CopiedMinerCount t = p_MinerCount s \<and> p_CopiedBlock t = p_Block s \<and> p_CopiedRow t = ledger_used s \<and>
     p_Database t = p_Database s \<and> p_Ledger t = p_Ledger s"

lemma RollBackBefore_aside:
  assumes wf: "perm_wf s" and op: "lg_CanOpen (p_Ledger s)" and b: "0 \<le> block" "block \<le> p_Block s" "p_Block s < 2 ^ 31"
  shows "\<exists>s1. RollBackBeforeMinerVerification s (word_of_int block) = (MC_ERR_NOERROR, s1) \<and> aside s s1 \<and> p_Block s1 = block"
proof -
  let ?b = "word_of_int block :: u32"
  have u: "uint (word_of_int x :: u32) = x" if "0 \<le> x" "x < 2 ^ 31" for x
    using that by (simp only: uint_word_of_int) (simp add: take_bit_int_eq_self)
  have sb: "sint ?b = block" using b to_i32_id [of block] by (simp add: to_i32_def)
  have "\<not> word_of_int (p_Block s) < ?b" using b u by (simp add: word_less_def)
  moreover have e: "?b = word_of_int (p_Block s) \<longleftrightarrow> block = p_Block s" using b u by (simp add: word_uint_eq_iff)
  ultimately show ?thesis
    using op sb perm_wf_length [OF wf]
    by (auto simp: RollBackBeforeMinerVerification_def CopyMemPool_def Let_def aside_def buf_CopyFrom_rows
        buf_GetCount_def ledger_used_def)
qed

lemma IncrementBlock_aside:
  assumes "aside s t" and "c \<noteq> 0"
  shows "\<exists>t'. IncrementBlock t c = Some (MC_ERR_NOERROR, t') \<and> aside s t' \<and> p_Block t' = p_Block t + 1"
  using assms by (auto simp: IncrementBlock_def aside_def Let_def)

lemma IncrementBlocks_aside:
  assumes "aside s t" and "0 \<notin> set counts"
  shows "\<exists>t'. fold (\<lambda>c st. Option.bind st (\<lambda>(e, t). IncrementBlock t c)) counts (Some (MC_ERR_NOERROR, t)) =
      Some (MC_ERR_NOERROR, t') \<and> aside s t' \<and> p_Block t' = p_Block t + int (length counts)"
  using assms
proof (induction counts arbitrary: t)
  case (Cons c counts)
  obtain t1 where t1: "IncrementBlock t c = Some (MC_ERR_NOERROR, t1)" "aside s t1" "p_Block t1 = p_Block t + 1"
    using IncrementBlock_aside [OF Cons.prems(1), of c] Cons.prems(2) by auto
  from Cons.IH [OF t1(2)] Cons.prems(2) show ?case by (auto simp: t1(1,3))
qed simp

lemma RestoreAfter_aside:
  assumes ch: "perm_chain s" and a: "aside s t"
  shows "\<exists>s3. RestoreAfterMinerVerification t = (MC_ERR_NOERROR, s3) \<and> perm_chain s3 \<and> p_log s3 = p_log s \<and>
    p_Block s3 = p_Block s \<and> p_AdminCount s3 = p_AdminCount s \<and> p_MinerCount s3 = p_MinerCount s"
proof -
  have good: "perm_good s" and wf: "perm_wf s" using ch by (simp_all add: perm_chain_def perm_good_def)
  define t1 where "t1 = t\<lparr>p_MemPool := buf_Clear (p_MemPool t), p_Block := p_CopiedBlock t,
      p_ForkBlock := 0, p_Row := p_CopiedRow t, p_CopiedRow := 0, p_CopiedBlock := 0\<rparr>"
  define s3 where "s3 = add_copied t1"
  note add = add_copied_log [of t1]
  have t1: "m_Count (p_MemPool t1) = 0" "buf_ok mem_key (p_MemPool t1)" "p_CopiedMemPool t1 = p_CopiedMemPool t"
    "p_Row t1 = ledger_used s" using a by (simp_all add: t1_def aside_def)
  have rows: "buf_rows (p_MemPool s3) = buf_rows (p_MemPool s)" using add(1) t1 a by (simp add: s3_def aside_def)
  have cnt: "m_Count (p_CopiedMemPool t) = m_Count (p_MemPool s)"
    using a by (simp add: aside_def flip: length_buf_rows)
  have f: "p_Database s3 = p_Database s" "p_Ledger s3 = p_Ledger s" "p_Block s3 = p_Block s" "p_AdminCount s3 = p_AdminCount s"
    "p_MinerCount s3 = p_MinerCount s" "p_CopiedRow s3 = 0"
    using a by (simp_all add: s3_def add_copied_def t1_def aside_def)
  have r: "p_Row s3 = p_Row s" "ledger_used s3 = ledger_used s"
    using add(3,4) t1 cnt perm_wf_length(2) [OF wf] by (simp_all add: s3_def)
  have g: "p_log s3 = p_log s" "perm_good s3"
    by (rule perm_good_eq [OF good rows _ r(2,1) f(2,1,6)]; use add(2) t1 in \<open>simp add: s3_def\<close>)+
  then have "perm_chain s3" using ch by (simp add: perm_chain_def f(1) r(2))
  moreover have "RestoreAfterMinerVerification t = (MC_ERR_NOERROR, s3)"
    by (simp add: RestoreAfterMinerVerification_def s3_def t1_def)
  ultimately show ?thesis using g f by blast
qed

end
