(* ===== verification/Perm_History.thy ===== *)
theory Perm_History
  imports Perm_Facts
begin

text \<open>
  The log as a history. A history lists the blocks committed so far, newest first; \<open>chain_log\<close> says
  which rows of the log and which entries of the database hold it. It only looks at rows above the
  header and at the index entries of its own heights, so what changes neither keeps the history.
\<close>

section \<open>Addresses of block rows\<close>

lemma fold_bytes_less: "foldl (\<lambda>x b. x * 256 + uint b) 0 (bs :: u8 list) < 256 ^ length bs"
  and fold_bytes_nonneg: "0 \<le> foldl (\<lambda>x b. x * 256 + uint b) 0 (bs :: u8 list)"
proof -
  have "0 \<le> foldl (\<lambda>x b. x * 256 + uint b) 0 bs \<and> foldl (\<lambda>x b. x * 256 + uint b) 0 bs < 256 ^ length bs"
  proof (induction bs rule: rev_induct)
    case (snoc b bs)
    have "0 \<le> uint b" "uint b < 256" using uint_lt2p [of b] by simp_all
    with snoc show ?case by simp
  qed simp
  then show "foldl (\<lambda>x b. x * 256 + uint b) 0 bs < 256 ^ length bs"
    and "0 \<le> foldl (\<lambda>x b. x * 256 + uint b) 0 bs" by simp_all
qed

lemma base_256_inj:
  fixes x y a b :: int
  assumes "x * 256 + a = y * 256 + b" and "0 \<le> a" "a < 256" and "0 \<le> b" "b < 256"
  shows "x = y" and "a = b"
proof -
  have "x = (x * 256 + a) div 256" and "y = (y * 256 + b) div 256" using assms by simp_all
  then show "x = y" using assms(1) by simp
  then show "a = b" using assms(1) by simp
qed

lemma fold_bytes_inj:
  "length as = length bs \<Longrightarrow>
   foldl (\<lambda>x b. x * 256 + uint b) 0 (as :: u8 list) = foldl (\<lambda>x b. x * 256 + uint b) 0 bs \<Longrightarrow> as = bs"
proof (induction as arbitrary: bs rule: rev_induct)
  case (snoc a as)
  then obtain b cs where bs: "bs = cs @ [b]" "length cs = length as" by (cases bs rule: rev_cases) auto
  let ?x = "foldl (\<lambda>x b. x * 256 + uint b) 0 as" and ?y = "foldl (\<lambda>x b. x * 256 + uint b) 0 cs"
  have e: "?x * 256 + uint a = ?y * 256 + uint b" using snoc.prems(2) bs by simp
  have b: "0 \<le> uint a" "uint a < 256" "0 \<le> uint b" "uint b < 256"
    using uint_lt2p [of a] uint_lt2p [of b] by simp_all
  have "?x = ?y" and "uint a = uint b" by (rule base_256_inj [OF e b])+
  then show ?case using snoc.IH [of cs] bs by (simp add: word_uint_eq_iff)
qed simp

lemma address_of_bytes_inj:
  assumes "length as = 20" and "length bs = 20" and "address_of_bytes as = address_of_bytes bs"
  shows "as = bs"
proof (rule fold_bytes_inj)
  have "uint (address_of_bytes cs) = foldl (\<lambda>x b. x * 256 + uint b) 0 cs" if "length cs = 20" for cs
    using fold_bytes_less [of cs] fold_bytes_nonneg [of cs] that
    by (simp add: address_of_bytes_def uint_word_of_int)
  then show "foldl (\<lambda>x b. x * 256 + uint b) 0 as = foldl (\<lambda>x b. x * 256 + uint b) 0 bs"
    using assms by metis
qed (use assms in simp)

lemma hex_digit_inj:
  assumes "a < 16" and "b < 16" and "hex_digit a = hex_digit b"
  shows "a = b"
proof -
  have d: "unat (hex_digit c) = (if unat c < 10 then 48 + unat c else 55 + unat c)" if "c < 16" for c
  proof -
    have "unat c < 16" using that by (simp add: word_less_nat_alt)
    then have "unat (ucast c :: u8) = unat c" by (simp add: unsigned_ucast_eq take_bit_nat_eq_self_iff)
    then show ?thesis
      using \<open>unat c < 16\<close> by (auto simp: hex_digit_def word_less_nat_alt unat_word_ariths)
  qed
  have "unat a = unat b" using d [OF assms(1)] d [OF assms(2)] assms(3) by (auto split: if_splits)
  then show ?thesis by (simp add: word_unat_eq_iff)
qed

lemma hex8_inj:
  assumes "hex8 a = hex8 b"
  shows "a = b"
proof (rule bit_word_eqI)
  fix n :: nat
  assume n: "n < LENGTH(32)"
  define i where "i = n div 4"
  have i: "i \<in> {0, 1, 2, 3, 4, 5, 6, 7}" using n by (auto simp: i_def)
  have less: "take_bit 4 (drop_bit (4 * i) w) < 16" for w :: u32
  proof -
    have "unat (take_bit 4 (drop_bit (4 * i) w)) < 2 ^ 4" unfolding unsigned_take_bit_eq by (rule take_bit_nat_less_exp)
    then show ?thesis by (simp add: word_less_nat_alt)
  qed
  have "hex_digit (take_bit 4 (drop_bit (4 * i) a)) = hex_digit (take_bit 4 (drop_bit (4 * i) b))"
    using assms i unfolding hex8_def by auto
  then have "take_bit 4 (drop_bit (4 * i) a) = take_bit 4 (drop_bit (4 * i) b)"
    using hex_digit_inj less by blast
  then have "bit (take_bit 4 (drop_bit (4 * i) a)) (n mod 4) = bit (take_bit 4 (drop_bit (4 * i) b)) (n mod 4)"
    by simp
  moreover have "4 * i + n mod 4 = n" by (simp add: i_def)
  ultimately show "bit a n = bit b n" by (simp add: bit_simps)
qed

lemma block_address_inj [simp]: "block_address a = block_address b \<longleftrightarrow> a = b"
proof
  assume "block_address a = block_address b"
  then have "[66, 108, 111, 99, 107, 32] @ hex8 a @ [32, 114, 111, 119] @ [0, 0] =
      [66, 108, 111, 99, 107, 32] @ hex8 b @ [32, 114, 111, 119] @ [0, 0 :: u8]"
    unfolding block_address_def by (rule address_of_bytes_inj [rotated -1]) (simp_all add: hex8_def)
  then have "hex8 a = hex8 b" by simp
  then show "a = b" by (rule hex8_inj)
qed simp

section \<open>A history in the log\<close>

text \<open>A committed block: who mined it, its hash, and whether it changed who governs.\<close>

record block_info =
  b_Miner :: address
  b_Hash :: hash256
  b_Governance :: bool

definition allowed_at :: "ledger_row list \<Rightarrow> nat \<Rightarrow> u32 \<Rightarrow> u32 \<Rightarrow> address set" where
  "allowed_at R n block t =
     {a. log_from R n (DbKey null_entity a t) \<le> block \<and> block < log_to R n (DbKey null_entity a t)}"

text \<open>The rows \<open>m\<close> to \<open>n - 1\<close> are those of the block \<open>b\<close> at \<open>height\<close>.\<close>

definition block_log ::
    "(db_key \<Rightarrow> db_val option) \<Rightarrow> ledger_row list \<Rightarrow> nat \<Rightarrow> nat \<Rightarrow> u32 \<Rightarrow> block_info \<Rightarrow> bool" where
  "block_log get R m n height b \<longleftrightarrow>
     (\<forall>i. m \<le> i \<longrightarrow> i < n \<longrightarrow> l_BlockReceived (R ! i) = height) \<and>
     (\<forall>i. m \<le> i \<longrightarrow> i + 2 < n \<longrightarrow> l_Type (R ! i) \<noteq> MC_PTP_BLOCK_MINER \<and> l_Type (R ! i) \<noteq> MC_PTP_BLOCK_INDEX) \<and>
     row_key (R ! (n - 2)) = DbKey 0 (b_Miner b) MC_PTP_BLOCK_MINER \<and>
     row_key (R ! (n - 1)) = DbKey 0 (block_address height) MC_PTP_BLOCK_INDEX \<and>
     l_PrevRow (R ! (n - 1)) = m - 1 \<and> l_BlockFrom (R ! (n - 2)) = height \<and>
     bl_CommitHash (R ! (n - 2)) = b_Hash b \<and> bl_CommitHash (R ! (n - 1)) = b_Hash b \<and>
     (bl_BlockFlags (R ! (n - 1)) AND MC_PFB_GOVERNANCE_CHANGE \<noteq> 0 \<longleftrightarrow> b_Governance b) \<and>
     (\<exists>v. get (DbKey 0 (block_address height) MC_PTP_BLOCK_INDEX) = Some (PermVal v) \<and> v_LedgerRow v = n - 1) \<and>
     (\<forall>i. n - 2 \<le> i \<longrightarrow> i < n \<longrightarrow> bl_AdminCount (R ! i) = of_nat (card (allowed_at R n (height + 1) MC_PTP_ADMIN)) \<and>
       bl_MinerCount (R ! i) = of_nat (card (allowed_at R n (height + 1) MC_PTP_MINE)))"

fun chain_log :: "(db_key \<Rightarrow> db_val option) \<Rightarrow> ledger_row list \<Rightarrow> nat \<Rightarrow> block_info list \<Rightarrow> bool" where
  "chain_log get R n [] \<longleftrightarrow> n = 1"
| "chain_log get R n (b # bs) \<longleftrightarrow>
     (\<exists>m. chain_log get R m bs \<and> m + 2 \<le> n \<and> block_log get R m n (of_nat (length bs)) b)"

lemma allowed_set_at: "allowed_set s t = allowed_at (p_log s) (p_Row s) (next_block s) t"
  by (simp add: allowed_set_def allowed_at_def log_allowed_def)

lemma klast_cong: "(\<And>i. 0 < i \<Longrightarrow> i < n \<Longrightarrow> R' ! i = R ! i) \<Longrightarrow> klast k R' n = klast k R n"
proof (induction n)
  case (Suc n)
  have "klast k R' n = klast k R n" by (rule Suc.IH) (use Suc.prems in auto)
  moreover have "R' ! n = R ! n" if "0 < n" using Suc.prems [of n] that by simp
  ultimately show ?case by (auto simp: klast_Suc)
qed simp

lemma allowed_at_cong:
  assumes "\<And>i. 0 < i \<Longrightarrow> i < n \<Longrightarrow> R' ! i = R ! i"
  shows "allowed_at R' n block t = allowed_at R n block t"
proof -
  have "klast k R' n = klast k R n" for k using assms by (rule klast_cong)
  moreover have "R' ! klast k R n = R ! klast k R n" if "klast k R n \<noteq> 0" for k
    using assms [of "klast k R n"] that klast_less [of n k R] by (cases "n = 0") auto
  ultimately have "log_from R' n k = log_from R n k" "log_to R' n k = log_to R n k" for k
    by (simp_all add: log_row_defs)
  then show ?thesis by (simp add: allowed_at_def)
qed

lemma chain_log_pos: "chain_log get R n bs \<Longrightarrow> 0 < n"
  by (cases bs) auto

lemma block_log_cong:
  assumes "block_log get R m n height b" and "0 < m" and "m + 2 \<le> n"
    and "\<And>i. 0 < i \<Longrightarrow> i < n \<Longrightarrow> R' ! i = R ! i"
    and "get' (DbKey 0 (block_address height) MC_PTP_BLOCK_INDEX) = get (DbKey 0 (block_address height) MC_PTP_BLOCK_INDEX)"
  shows "block_log get' R' m n height b"
  using assms(1-3) allowed_at_cong [of n R' R, OF assms(4)]
  by (simp add: block_log_def assms(4,5))

lemma chain_log_cong:
  assumes "chain_log get R n bs"
    and "\<And>i. 0 < i \<Longrightarrow> i < n \<Longrightarrow> R' ! i = R ! i"
    and "\<And>h. h < length bs \<Longrightarrow> get' (DbKey 0 (block_address (of_nat h)) MC_PTP_BLOCK_INDEX) =
      get (DbKey 0 (block_address (of_nat h)) MC_PTP_BLOCK_INDEX)"
  shows "chain_log get' R' n bs"
  using assms
proof (induction bs arbitrary: n)
  case (Cons b bs)
  then obtain m where m: "chain_log get R m bs" "m + 2 \<le> n" "block_log get R m n (of_nat (length bs)) b" by auto
  have "chain_log get' R' m bs" by (rule Cons.IH [OF m(1)]) (use Cons.prems(2,3) m(2) in auto)
  moreover have "block_log get' R' m n (of_nat (length bs)) b"
    by (rule block_log_cong [OF m(3) chain_log_pos [OF m(1)] m(2)]) (use Cons.prems(2,3) in auto)
  ultimately show ?case using m(2) by auto
qed simp

text \<open>A row of a block's part of the log, by the block's height.\<close>

definition row_height :: "ledger_row \<Rightarrow> nat \<Rightarrow> bool" where
  "row_height r h \<longleftrightarrow> l_BlockReceived r = of_nat h \<and>
     (l_Type r = MC_PTP_BLOCK_INDEX \<longrightarrow> row_key r = DbKey 0 (block_address (of_nat h)) MC_PTP_BLOCK_INDEX)"

lemma block_log_height:
  assumes "block_log get R m n (of_nat h) b" and "m \<le> i" and "i < n"
  shows "row_height (R ! i) h"
proof -
  consider "i + 2 < n" | "i = n - 2" "i \<noteq> n - 1" | "i = n - 1" using assms(3) by linarith
  then show ?thesis
    using assms by cases (auto simp: block_log_def row_height_def row_key_def)
qed

lemma chain_log_heights:
  "chain_log get R n bs \<Longrightarrow> 0 < i \<Longrightarrow> i < n \<Longrightarrow> \<exists>h < length bs. row_height (R ! i) h"
proof (induction bs arbitrary: n)
  case (Cons b bs)
  then obtain m where m: "chain_log get R m bs" "block_log get R m n (of_nat (length bs)) b" by auto
  show ?case
  proof (cases "i < m")
    case True
    then show ?thesis using Cons.IH [OF m(1)] Cons.prems(2) by (auto intro: less_SucI)
  next
    case False
    then have "row_height (R ! i) (length bs)" using block_log_height [OF m(2)] Cons.prems(3) by simp
    then show ?thesis by auto
  qed
qed simp

text \<open>The older part of a history has its own, shorter log.\<close>

lemma chain_log_drop:
  assumes "chain_log get R n bs" and "j \<le> length bs"
  shows "\<exists>m \<le> n. chain_log get R m (drop j bs) \<and>
     (\<forall>i. 0 < i \<longrightarrow> i < m \<longrightarrow> (\<exists>h < length bs - j. row_height (R ! i) h)) \<and>
     (\<forall>i. m \<le> i \<longrightarrow> i < n \<longrightarrow> (\<exists>h. length bs - j \<le> h \<and> h < length bs \<and> row_height (R ! i) h))"
  using assms
proof (induction bs arbitrary: n j)
  case (Cons b bs)
  then obtain m where m: "chain_log get R m bs" "m + 2 \<le> n" "block_log get R m n (of_nat (length bs)) b" by auto
  have top: "row_height (R ! i) (length bs)" if "m \<le> i" "i < n" for i using block_log_height [OF m(3)] that .
  show ?case
  proof (cases j)
    case 0
    then show ?thesis using Cons.prems(1) chain_log_heights [OF Cons.prems(1)]
      by (intro exI [of _ n]) auto
  next
    case (Suc j')
    with Cons.IH [OF m(1), of j'] Cons.prems(2) obtain k where k: "k \<le> m" "chain_log get R k (drop j' bs)"
      "\<forall>i. 0 < i \<longrightarrow> i < k \<longrightarrow> (\<exists>h < length bs - j'. row_height (R ! i) h)"
      "\<forall>i. k \<le> i \<longrightarrow> i < m \<longrightarrow> (\<exists>h. length bs - j' \<le> h \<and> h < length bs \<and> row_height (R ! i) h)" by auto
    have "\<exists>h. length bs - j' \<le> h \<and> h < Suc (length bs) \<and> row_height (R ! i) h" if "k \<le> i" "i < n" for i
    proof (cases "i < m")
      case True
      then show ?thesis using k(4) that less_SucI by blast
    next
      case False
      then show ?thesis using top [of i] that by (intro exI [of _ "length bs"]) simp
    qed
    then show ?thesis using Suc k(1-3) m(2) by (intro exI [of _ k]) auto
  qed
qed auto

end
