(* ===== verification/Perm_Invariant.thy ===== *)
theory Perm_Invariant
  imports Perm_History
begin

text \<open>
  The invariant of the node's permissions between calls, with the history of the chain: \<open>perm_inv\<close>
  gives the hypotheses of the facts in the other theories, every call of the node keeps it, and under
  it the queries about blocks answer from the history.
\<close>

section \<open>The invariant\<close>

definition pool_ok :: "mc_Permissions \<Rightarrow> bool" where
  "pool_ok s \<longleftrightarrow> (\<forall>r\<in>set (buf_rows (p_MemPool s)). l_BlockReceived r = next_block s \<and> \<not> zero_admin r \<and>
     l_Type r \<noteq> MC_PTP_BLOCK_MINER \<and> l_Type r \<noteq> MC_PTP_BLOCK_INDEX)"

definition perm_inv :: "mc_Permissions \<Rightarrow> block_info list \<Rightarrow> bool" where
  "perm_inv s bs \<longleftrightarrow> perm_chain s \<and> counts_ok s \<and> cleared_ok s \<and> headers_ok s \<and> pool_ok s \<and>
     p_Block s = int (length bs) - 1 \<and> length bs < 2 ^ 31 - 1 \<and>
     chain_log (db_get (p_Database s)) (p_log s) (ledger_used s) bs"

lemma perm_inv_good:
  assumes "perm_inv s bs"
  shows "perm_good s" and "perm_wf s" and "perm_chain s"
  using assms by (simp_all add: perm_inv_def perm_chain_def perm_good_def)

lemma next_block_height: "p_Block s = int n - 1 \<Longrightarrow> next_block s = of_nat n"
  by (simp add: next_block_def)

lemma of_nat_height_eq: "a < 2 ^ 31 \<Longrightarrow> b < 2 ^ 31 \<Longrightarrow> (of_nat a :: u32) = of_nat b \<longleftrightarrow> a = b"
  by (simp add: word_unat_eq_iff unat_of_nat take_bit_nat_def unsigned_of_nat)

lemma sint_height: "a < 2 ^ 31 \<Longrightarrow> sint (of_nat a :: u32) = int a"
  by (simp add: signed_of_nat signed_take_bit_int_eq_self)

section \<open>Writing\<close>

text \<open>The keys of the rows that a write appends, when it does not grant the all-zero address.\<close>

definition perm_keys :: "db_key set" where
  "perm_keys = {k. dk_Type k \<noteq> MC_PTP_BLOCK_MINER \<and> dk_Type k \<noteq> MC_PTP_BLOCK_INDEX \<and>
     \<not> (dk_Entity k = null_entity \<and> dk_Address k = 0 \<and> (dk_Type k = MC_PTP_ADMIN \<or> dk_Type k = MC_PTP_MINE))}"

definition writable :: "lp_entity \<Rightarrow> address \<Rightarrow> u32 \<Rightarrow> bool" where
  "writable lp a type \<longleftrightarrow> lp_deref lp \<noteq> adminminerlist_entity \<and>
     (lp_deref lp = null_entity \<and> a = 0 \<longrightarrow> type AND (MC_PTP_ADMIN OR MC_PTP_MINE) = 0)"

inductive writes :: "net_params \<Rightarrow> mc_Permissions \<Rightarrow> mc_Permissions \<Rightarrow> bool" for np s where
  writes_refl: "writes np s s"
| writes_set: "writes np s s1 \<Longrightarrow> writable lp a type \<Longrightarrow>
    SetPermission np s1 lp a type admin bfrom bto ts flags upd offset = Some (err, s2) \<Longrightarrow> writes np s s2"
| writes_approve: "writes np s s1 \<Longrightarrow>
    SetApproval np s1 upgrade approval lpAdmin bfrom ts flags upd offset = Some (err, s2) \<Longrightarrow> writes np s s2"

inductive_cases writesE: "writes np s s2"

lemma set_keys_perm: "writable lp a type \<Longrightarrow> set_keys np lp a type \<subseteq> perm_keys"
proof -
  assume w: "writable lp a type"
  have "t \<noteq> MC_PTP_BLOCK_MINER" "t \<noteq> MC_PTP_BLOCK_INDEX" if "t \<in> set (set_types np)" for t
    using that by (auto simp: set_types_def split: if_splits)
  moreover have "type AND (MC_PTP_ADMIN OR MC_PTP_MINE) \<noteq> 0"
    if "t AND type \<noteq> 0" "t = MC_PTP_ADMIN \<or> t = MC_PTP_MINE" for t
    by (rule and_mask_part [OF that(1)]) (use that(2) in auto)
  ultimately show ?thesis using w unfolding set_keys_def perm_keys_def writable_def by force
qed

lemma SetPermission_perm:
  assumes "perm_good s" and "writable lp a type"
    and "SetPermission np s lp a type admin bfrom bto ts flags upd offset = Some (err, s')"
  shows "grants perm_keys s s'"
proof -
  have e: "lp_deref lp \<noteq> adminminerlist_entity" using assms(2) by (simp add: writable_def)
  obtain s2 where "SetPermissionInternal np s lp a type admin bfrom bto ts flags upd offset = Some (MC_ERR_NOERROR, s2)"
    "grants (set_keys np lp a type) s s2"
    using SetPermissionInternal_grants [OF assms(1) e] by blast
  then show ?thesis
    using assms(3) grants_refl [OF assms(1)] grants_mono [OF _ set_keys_perm [OF assms(2)]]
    by (auto simp: SetPermission_def split: if_splits)
qed

lemma SetInternal_upgrade:
  assumes "perm_good s"
    and "SetPermissionInternal np s (Some upgrade_entity) a type admin bfrom bto ts flags upd offset = Some (err, s')"
  shows "grants perm_keys s s'"
proof -
  have w: "writable (Some upgrade_entity) a type"
    using special_entities_distinct by (auto simp: writable_def lp_deref_def)
  have e: "lp_deref (Some upgrade_entity) \<noteq> adminminerlist_entity" using w by (simp add: writable_def)
  obtain s2 where "SetPermissionInternal np s (Some upgrade_entity) a type admin bfrom bto ts flags upd offset =
      Some (MC_ERR_NOERROR, s2)" "grants (set_keys np (Some upgrade_entity) a type) s s2"
    using SetPermissionInternal_grants [OF assms(1) e] by blast
  then show ?thesis using assms(2) grants_mono [OF _ set_keys_perm [OF w]] by auto
qed

lemma SetApproval_perm:
  assumes good: "perm_good s" and call: "SetApproval np s upgrade approval lpAdmin bfrom ts flags upd offset = Some (err, s')"
  shows "grants perm_keys s s'"
proof -
  let ?e = "Some upgrade_entity"
  define first where "first = (if fst (GetPermission5 s ?e 0 MC_PTP_CONNECT True) = 0
      then SetPermissionInternal np s ?e 0 MC_PTP_CONNECT 0 0 (-1) ts MC_PFL_ENTITY_GENESIS upd offset
      else Some (MC_ERR_NOERROR, s))"
  obtain e1 s1 where first: "first = Some (e1, s1)" and g1: "grants perm_keys s s1"
  proof (cases first)
    case None
    then show ?thesis using call by (simp add: SetApproval_def Let_def flip: first_def)
  next
    case (Some x)
    moreover have "grants perm_keys s (snd x)"
      using Some good grants_refl SetInternal_upgrade unfolding first_def by (cases x) (auto split: if_splits)
    ultimately show ?thesis using that by (cases x) simp
  qed
  have good1: "perm_good s1" using g1 by (simp add: grants_def)
  have "grants perm_keys s1 s'"
    using call first SetInternal_upgrade [OF good1] grants_refl [OF good1]
    by (auto simp: SetApproval_def Let_def simp flip: first_def split: if_splits option.splits)
  with g1 show ?thesis by (rule grants_trans)
qed

lemma writes_grants:
  assumes "writes np s s'" and "perm_good s"
  shows "grants perm_keys s s'"
  using assms(1)
proof induction
  case writes_refl
  show ?case using assms(2) by (rule grants_refl)
next
  case (writes_set s1 lp a type admin bfrom bto ts flags upd offset err s2)
  have "perm_good s1" using writes_set.IH by (simp add: grants_def)
  from grants_trans [OF writes_set.IH SetPermission_perm [OF this writes_set.hyps(2,3)]] show ?case .
next
  case (writes_approve s1 upgrade approval lpAdmin bfrom ts flags upd offset err s2)
  have "perm_good s1" using writes_approve.IH by (simp add: grants_def)
  from grants_trans [OF writes_approve.IH SetApproval_perm [OF this writes_approve.hyps(2)]] show ?case .
qed

lemma grants_pool:
  assumes "grants K s s'"
  shows "\<exists>rs. p_log s' = p_log s @ rs \<and> buf_rows (p_MemPool s') = buf_rows (p_MemPool s) @ rs \<and>
    (\<forall>r\<in>set rs. row_key r \<in> K \<and> l_BlockReceived r = next_block s)"
proof -
  obtain rs where rs: "p_log s' = p_log s @ rs" "row_key ` set rs \<subseteq> K" "\<forall>r\<in>set rs. l_BlockReceived r = next_block s"
    using assms by (auto simp: grants_def)
  moreover have "buf_rows (p_MemPool s') = buf_rows (p_MemPool s) @ rs"
    using rs(1) assms by (simp add: grants_def p_log_def)
  ultimately show ?thesis by blast
qed

lemma perm_inv_grants:
  assumes inv: "perm_inv s bs" and g: "grants perm_keys s s'"
  shows "perm_inv s' bs"
proof -
  obtain rs where rs: "p_log s' = p_log s @ rs" "buf_rows (p_MemPool s') = buf_rows (p_MemPool s) @ rs"
    "\<forall>r\<in>set rs. row_key r \<in> perm_keys \<and> l_BlockReceived r = next_block s" using grants_pool [OF g] by blast
  have s': "p_Block s' = p_Block s" "p_Database s' = p_Database s" "ledger_used s' = ledger_used s"
    using g by (simp_all add: grants_def)
  note wf = perm_inv_good(2) [OF inv]
  have ne: "p_log s \<noteq> []" using wf by (simp add: perm_wf_def wf_log_def)
  have hd: "headers_ok s" using inv by (simp add: perm_inv_def)
  have "perm_chain s'" using perm_chain_step g inv by (auto simp: perm_inv_def)
  moreover have "counts_ok s'" using inv g by (simp add: perm_inv_def grants_def)
  moreover have "cleared_ok s'" using inv g by (simp add: perm_inv_def grants_def)
  moreover have "headers_ok s'" using hd ne by (simp add: headers_ok_def s' rs(1) nth_append)
  moreover have "pool_ok s'"
    using inv rs(2,3) by (auto simp: perm_inv_def pool_ok_def next_block_def s' perm_keys_def row_key_def zero_admin_def)
  moreover have "chain_log (db_get (p_Database s')) (p_log s') (ledger_used s') bs"
  proof (rule chain_log_cong)
    show "chain_log (db_get (p_Database s)) (p_log s) (ledger_used s') bs" using inv by (simp add: perm_inv_def s')
    show "p_log s' ! i = p_log s ! i" if "i < ledger_used s'" for i
      using that perm_wf_length(1,4) [OF wf] by (simp add: rs(1) nth_append s')
  qed (simp add: s')
  ultimately show ?thesis using inv by (simp add: perm_inv_def s')
qed

section \<open>A new node\<close>

lemma fresh_saved: "counts_saved fresh"
  by (simp add: counts_saved_def) (simp add: fresh_def zero_state_def)

lemma perm_inv_fresh: "perm_inv fresh []"
  using fresh_chain fresh_counts counts_saved_cleared [OF fresh_saved fresh_counts]
  by (simp add: perm_inv_def headers_ok_def fresh_db zero_val_def pool_ok_def buf_rows_def)

section \<open>Commit\<close>

lemma with_counts_more [simp]:
  "l_BlockFrom (with_counts s r) = l_BlockFrom r" "bl_BlockFlags (with_counts s r) = bl_BlockFlags r"
  by (simp_all add: with_counts_def bl_BlockFlags_def)

definition governance_block :: "mc_Permissions \<Rightarrow> bool" where
  "governance_block s \<longleftrightarrow>
     (case CalculateBlockFlags s of None \<Rightarrow> False | Some fl \<Rightarrow> fl AND MC_PFB_GOVERNANCE_CHANGE \<noteq> 0)"

lemma log_at_pool:
  assumes wf: "perm_wf s" and i: "ledger_used s \<le> i" "i < p_Row s"
  shows "p_log s ! i \<in> set (buf_rows (p_MemPool s))"
  using p_log_mem [of s i] i wf perm_wf_length [OF wf] by (auto simp: perm_wf_def intro!: nth_mem)

lemma perm_inv_pool:
  assumes "perm_inv s bs" and "r \<in> set (buf_rows (p_MemPool s))"
  shows "\<not> zero_admin r" "l_BlockReceived r = of_nat (length bs)" "l_Type r \<noteq> MC_PTP_BLOCK_MINER" "l_Type r \<noteq> MC_PTP_BLOCK_INDEX"
  using assms next_block_height [of s "length bs"] by (auto simp: perm_inv_def pool_ok_def)

lemma perm_inv_Commit:
  assumes inv: "perm_inv s bs" and hash: "hash \<noteq> 0" and len: "length bs < 2 ^ 31 - 2"
  shows "\<exists>s'. Commit np s (Some miner) hash = Some (MC_ERR_NOERROR, s') \<and>
     perm_inv s' (\<lparr>b_Miner = miner, b_Hash = hash, b_Governance = governance_block s\<rparr> # bs)"
proof -
  let ?h = "of_nat (length bs) :: u32" and ?b = "\<lparr>b_Miner = miner, b_Hash = hash, b_Governance = governance_block s\<rparr>"
  note wf = perm_inv_good(2) [OF inv] and ch = perm_inv_good(3) [OF inv]
  note rows = perm_wf_length [OF wf]
  have blk: "p_Block s = int (length bs) - 1" and log: "chain_log (db_get (p_Database s)) (p_log s) (ledger_used s) bs"
    using inv by (simp_all add: perm_inv_def)
  have nb: "next_block s = ?h" using blk by (rule next_block_height)
  obtain s' h b1 b2 where c: "Commit np s (Some miner) hash = Some (MC_ERR_NOERROR, s')" "perm_chain s'" "counts_ok s'"
    "p_Block s' = p_Block s + 1" "m_Count (p_MemPool s') = 0" "p_Row s' = p_Row s + 2" and b: "block_rows s miner hash b1 b2"
    and R: "p_log s' = (p_log s)[0 := h] @ [with_counts s' b1, with_counts s' b2]"
    and get: "db_get (p_Database s') (row_key b2) = Some (PermVal (row_val b2))" and hd: "headers_ok s'" and saved: "counts_saved s'"
    and oth: "\<And>k. \<not> log_key k \<Longrightarrow> dk_Entity k = 0 \<Longrightarrow> k \<noteq> DbKey 0 0 0 \<Longrightarrow> k \<noteq> row_key b2 \<Longrightarrow>
        (\<forall>r\<in>set (buf_rows (p_MemPool s)). row_key r \<noteq> k) \<Longrightarrow> db_get (p_Database s') k = db_get (p_Database s) k"
    using Commit_parts [OF ch hash perm_inv_pool(1) [OF inv]] by metis
  have used: "ledger_used s' = p_Row s + 2" using c(5,6) by (simp add: ledger_used_def)
  have at: "p_log s' ! i = p_log s ! i" if "0 < i" "i < p_Row s" for i
    using that rows(1) by (simp add: R nth_append)
  have top: "p_log s' ! p_Row s = with_counts s' b1" "p_log s' ! Suc (p_Row s) = with_counts s' b2"
    using rows(1) by (simp_all add: R nth_append)
  have nb': "next_block s' = ?h + 1" using blk by (simp add: next_block_def c(4))
  have cnt: "word_of_int (p_AdminCount s') = (of_nat (card (allowed_at (p_log s') (p_Row s + 2) (?h + 1) MC_PTP_ADMIN)) :: u32)"
    "word_of_int (p_MinerCount s') = (of_nat (card (allowed_at (p_log s') (p_Row s + 2) (?h + 1) MC_PTP_MINE)) :: u32)"
    using c(3) by (simp_all add: counts_ok_def allowed_set_at c(6) nb' add.commute)
  have old: "chain_log (db_get (p_Database s')) (p_log s') (ledger_used s) bs"
  proof (rule chain_log_cong [OF log])
    show "p_log s' ! i = p_log s ! i" if "0 < i" "i < ledger_used s" for i using at that rows(4) by simp
    show "db_get (p_Database s') (DbKey 0 (block_address (of_nat n)) MC_PTP_BLOCK_INDEX) =
        db_get (p_Database s) (DbKey 0 (block_address (of_nat n)) MC_PTP_BLOCK_INDEX)" if n: "n < length bs" for n
    proof (rule oth)
      show "DbKey 0 (block_address (of_nat n)) MC_PTP_BLOCK_INDEX \<noteq> row_key b2"
        using b n len of_nat_height_eq [of n "length bs"] by (simp add: block_rows_def nb)
      show "\<forall>r\<in>set (buf_rows (p_MemPool s)). row_key r \<noteq> DbKey 0 (block_address (of_nat n)) MC_PTP_BLOCK_INDEX"
        using perm_inv_pool(4) [OF inv] by (auto simp: row_key_def)
    qed (simp_all add: log_key_def)
  qed
  have new: "block_log (db_get (p_Database s')) (p_log s') (ledger_used s) (p_Row s + 2) ?h ?b"
    unfolding block_log_def
  proof (intro conjI allI impI)
    fix i
    assume i: "ledger_used s \<le> i" "i < p_Row s + 2"
    consider "i < p_Row s" | "i = p_Row s" | "i = Suc (p_Row s)" using i(2) by linarith
    then show "l_BlockReceived (p_log s' ! i) = ?h"
    proof cases
      case 1
      then show ?thesis using at [of i] i(1) rows(3) perm_inv_pool(2) [OF inv log_at_pool [OF wf i(1)]] by simp
    qed (use b in \<open>simp_all add: top block_rows_def nb\<close>)
  next
    fix i
    assume i: "ledger_used s \<le> i" "i + 2 < p_Row s + 2"
    then show "l_Type (p_log s' ! i) \<noteq> MC_PTP_BLOCK_MINER" "l_Type (p_log s' ! i) \<noteq> MC_PTP_BLOCK_INDEX"
      using at [of i] rows(3) perm_inv_pool(3,4) [OF inv log_at_pool [OF wf i(1)]] by simp_all
  next
    fix i
    assume i: "p_Row s + 2 - 2 \<le> i" "i < p_Row s + 2"
    then have "i = p_Row s \<or> i = Suc (p_Row s)" by linarith
    then show "bl_AdminCount (p_log s' ! i) = of_nat (card (allowed_at (p_log s') (p_Row s + 2) (?h + 1) MC_PTP_ADMIN))"
      "bl_MinerCount (p_log s' ! i) = of_nat (card (allowed_at (p_log s') (p_Row s + 2) (?h + 1) MC_PTP_MINE))"
      using cnt by (auto simp: top)
  qed (use b get in \<open>auto simp: top block_rows_def nb governance_block_def row_val_def\<close>)
  have "chain_log (db_get (p_Database s')) (p_log s') (ledger_used s') (?b # bs)"
    using old new rows(4) by (auto simp: used)
  then have "perm_inv s' (?b # bs)"
    using c(2-5) counts_saved_cleared [OF saved] hd blk len by (simp add: perm_inv_def pool_ok_def buf_rows_def)
  with c(1) show ?thesis by blast
qed

section \<open>Roll back\<close>

lemma perm_inv_RollBack:
  assumes inv: "perm_inv s bs" and j: "j \<le> length bs" and block: "block = p_Block s - int j"
  shows "\<exists>s'. RollBack s block = Some (MC_ERR_NOERROR, s') \<and> perm_inv s' (drop j bs)"
proof -
  note wf = perm_inv_good(2) [OF inv] and ch = perm_inv_good(3) [OF inv]
  note rows = perm_wf_length [OF wf]
  have blk: "p_Block s = int (length bs) - 1" and len: "length bs < 2 ^ 31 - 1"
    and log: "chain_log (db_get (p_Database s)) (p_log s) (ledger_used s) bs"
    using inv by (simp_all add: perm_inv_def)
  obtain m where m: "m \<le> ledger_used s" "chain_log (db_get (p_Database s)) (p_log s) m (drop j bs)"
    and low: "\<And>i. 0 < i \<Longrightarrow> i < m \<Longrightarrow> \<exists>h < length bs - j. row_height (p_log s ! i) h"
    and high: "\<And>i. m \<le> i \<Longrightarrow> i < ledger_used s \<Longrightarrow> \<exists>h. length bs - j \<le> h \<and> h < length bs \<and> row_height (p_log s ! i) h"
    using chain_log_drop [OF log j] by metis
  have mpos: "0 < m" using chain_log_pos [OF m(2)] .
  have cut: "last_received (p_log s) block (ledger_used s - 1) = m - 1"
  proof (rule last_received_cut)
    show "block < sint (l_BlockReceived (p_log s ! i))" if "m - 1 < i" "i \<le> ledger_used s - 1" for i
    proof -
      have "m \<le> i" "i < ledger_used s" using that rows(3) mpos by linarith+
      then obtain h where "length bs - j \<le> h" "h < length bs" "row_height (p_log s ! i) h"
        using high by blast
      then show ?thesis using block blk len j by (auto simp: row_height_def sint_height)
    qed
    show "sint (l_BlockReceived (p_log s ! (m - 1))) \<le> block" if "0 < m - 1"
      using low [OF that] that block blk len j by (auto simp: row_height_def sint_height)
  qed (use m(1) in simp)
  obtain s' h where r: "RollBack s block = Some (MC_ERR_NOERROR, s')" "perm_chain s'" "counts_ok s'"
    "p_Block s' = block" "m_Count (p_MemPool s') = 0" "p_Row s' = m" and R: "p_log s' = (take m (p_log s))[0 := h]"
    and hd: "headers_ok s'" and saved: "counts_saved s'"
    and oth: "\<And>k. \<not> log_key k \<Longrightarrow> k \<noteq> DbKey 0 0 0 \<Longrightarrow>
        (\<forall>i. m \<le> i \<longrightarrow> i < ledger_used s \<longrightarrow> row_key (p_log s ! i) \<noteq> k) \<Longrightarrow> db_get (p_Database s') k = db_get (p_Database s) k"
    using RollBackInternal_chain [OF ch, of block] mpos unfolding RollBack_def cut by auto
  have used: "ledger_used s' = m" using r(5,6) by (simp add: ledger_used_def)
  have "chain_log (db_get (p_Database s')) (p_log s') m (drop j bs)"
  proof (rule chain_log_cong [OF m(2)])
    show "p_log s' ! i = p_log s ! i" if "0 < i" "i < m" for i using that by (simp add: R)
    show "db_get (p_Database s') (DbKey 0 (block_address (of_nat n)) MC_PTP_BLOCK_INDEX) =
        db_get (p_Database s) (DbKey 0 (block_address (of_nat n)) MC_PTP_BLOCK_INDEX)" if n: "n < length (drop j bs)" for n
    proof (rule oth)
      show "\<forall>i. m \<le> i \<longrightarrow> i < ledger_used s \<longrightarrow> row_key (p_log s ! i) \<noteq> DbKey 0 (block_address (of_nat n)) MC_PTP_BLOCK_INDEX"
      proof (intro allI impI notI)
        fix i
        assume i: "m \<le> i" "i < ledger_used s" and k: "row_key (p_log s ! i) = DbKey 0 (block_address (of_nat n)) MC_PTP_BLOCK_INDEX"
        obtain h where h: "length bs - j \<le> h" "h < length bs" "row_height (p_log s ! i) h" using high i by blast
        have "l_Type (p_log s ! i) = MC_PTP_BLOCK_INDEX" using k by (simp add: row_key_def)
        then have "(of_nat h :: u32) = of_nat n" using h(3) k by (simp add: row_height_def)
        then show False using of_nat_height_eq [of h n] h(1,2) n len by auto
      qed
    qed (simp_all add: log_key_def)
  qed
  then have "perm_inv s' (drop j bs)"
    using r(2-5) counts_saved_cleared [OF saved] hd blk len block j by (simp add: perm_inv_def pool_ok_def buf_rows_def used of_nat_diff)
  with r(1) show ?thesis by blast
qed

section \<open>The other calls\<close>

lemma perm_inv_ClearMemPool:
  assumes inv: "perm_inv s bs"
  shows "\<exists>s'. ClearMemPool s = Some (MC_ERR_NOERROR, s') \<and> perm_inv s' bs \<and> m_Count (p_MemPool s') = 0"
proof -
  note good = perm_inv_good(1) [OF inv] and wf = perm_inv_good(2) [OF inv]
  have ix: "index_ok (db_get (p_Database s)) (p_log s) (ledger_used s)" and nb: "db_Batch (p_Database s) = []"
    and c: "counts_ok s" and hd: "headers_ok s"
    using inv by (simp_all add: perm_inv_def perm_chain_def)
  obtain s' where s': "ClearMemPoolInternal s = Some (MC_ERR_NOERROR, s')" "perm_good s'" "counts_ok s'"
    "p_log s' = p_log (chain_part s)" "p_Row s' = ledger_used s" "p_Database s' = p_Database s"
    "p_Block s' = p_Block s" "m_Count (p_MemPool s') = 0" "counts_saved s'"
    using ClearMemPoolInternal_good [OF good ix] c by blast
  have log: "p_log s' = take (ledger_used s) (p_log s)" using s'(4) chain_part_take [OF wf] by simp
  have used: "ledger_used s' = ledger_used s" using s'(5,8) by (simp add: ledger_used_def)
  have pos: "0 < ledger_used s" using perm_wf_length [OF wf] by simp
  have "perm_chain s'" using s'(2,6) ix nb by (simp add: perm_chain_def used log klast_take_index)
  moreover have "headers_ok s'" using hd pos by (simp add: headers_ok_def s'(6,7) used log)
  moreover have "chain_log (db_get (p_Database s')) (p_log s') (ledger_used s') bs"
    by (rule chain_log_cong [where get = "db_get (p_Database s)" and R = "p_log s"])
      (use inv in \<open>simp_all add: perm_inv_def used log s'(6)\<close>)
  ultimately have "perm_inv s' bs" using inv s'(3,7,8) counts_saved_cleared [OF s'(9,3,8)] by (simp add: perm_inv_def pool_ok_def buf_rows_def)
  then show ?thesis using s'(1,8) by (simp add: ClearMemPool_def)
qed

text \<open>A state that differs only in what the invariant does not look at.\<close>

lemma perm_inv_eq:
  assumes inv: "perm_inv s bs" and good: "perm_good s'"
    and eq: "p_log s' = p_log s" "p_Row s' = p_Row s" "buf_rows (p_MemPool s') = buf_rows (p_MemPool s)"
      "p_Database s' = p_Database s" "p_Block s' = p_Block s" "p_AdminCount s' = p_AdminCount s"
      "p_MinerCount s' = p_MinerCount s"
    and cl: "cleared_ok s'"
  shows "perm_inv s' bs"
proof -
  have "m_Count (p_MemPool s') = m_Count (p_MemPool s)" using arg_cong [OF eq(3), of length] by simp
  then have used: "ledger_used s' = ledger_used s" by (simp add: ledger_used_def eq)
  have "headers_ok s" using inv by (simp add: perm_inv_def)
  then have "headers_ok s'" by (simp add: headers_ok_def eq(1,4,5) used)
  moreover have "counts_ok s'" using inv by (simp add: perm_inv_def counts_ok_def allowed_set_at next_block_def eq)
  moreover have "pool_ok s'" using inv by (simp add: perm_inv_def pool_ok_def next_block_def eq)
  ultimately show ?thesis using inv good cl by (simp add: perm_inv_def perm_chain_def eq used)
qed

lemma perm_inv_CheckPoint:
  assumes inv: "perm_inv s bs" and w: "writes np (SetCheckPoint s) s'"
  shows "perm_inv (RollBackToCheckPoint s') bs"
proof -
  note good = perm_inv_good(1) [OF inv]
  have "perm_good (SetCheckPoint s)" using good by (rule iffD2 [OF state_eq_log(2), rotated -1]) (simp_all add: SetCheckPoint_def)
  with w have g: "grants perm_keys (SetCheckPoint s) s'" by (rule writes_grants)
  note r = RollBackToCheckPoint_grants [OF good g]
  have ok: "counts_ok s" "cleared_ok s" using inv by (simp_all add: perm_inv_def)
  have e: "p_log (SetCheckPoint s) = p_log s" "ledger_used (SetCheckPoint s) = ledger_used s"
    "allowed_set (SetCheckPoint s) t = allowed_set s t" for t
    by (rule state_eq_log | simp add: SetCheckPoint_def)+
  have "chain_allowed (SetCheckPoint s) t = chain_allowed s t" for t
    by (simp add: chain_allowed_def log_allowed_def e next_block_def) (simp add: SetCheckPoint_def)
  then have "counts_ok (SetCheckPoint s)" "cleared_ok (SetCheckPoint s)"
    using ok by (simp_all add: counts_ok_def cleared_ok_def e) (simp_all add: SetCheckPoint_def)
  then have ok': "cleared_ok s'" using g by (simp add: grants_def)
  obtain rs where rs: "p_log s' = p_log (RollBackToCheckPoint s') @ rs" using g by (auto simp: grants_def r(1) e)
  have used: "ledger_used (RollBackToCheckPoint s') = ledger_used s"
    using arg_cong [OF r(6), of length] by (simp add: ledger_used_def r(3))
  have wf: "perm_wf (RollBackToCheckPoint s')" using r(2) by (simp add: perm_good_def)
  have "ledger_used s' = ledger_used (RollBackToCheckPoint s')" "p_Block s' = p_Block (RollBackToCheckPoint s')"
    using g by (simp_all add: grants_def used e(2) r(8)) (simp add: SetCheckPoint_def)
  then have "chain_allowed s' t = chain_allowed (RollBackToCheckPoint s') t" for t
    by (rule chain_allowed_append [OF wf rs])
  then have "cleared_ok (RollBackToCheckPoint s')"
    using ok' by (simp add: cleared_ok_def) (simp add: RollBackToCheckPoint_def)
  then show ?thesis
    by (intro perm_inv_eq [OF inv]) (simp_all only: r)
qed

section \<open>Queries about the history\<close>

text \<open>Where a block of the history lies in the log: its index row is the row \<open>n - 1\<close>.\<close>

lemma chain_log_block:
  assumes "chain_log get R n bs" and "h < length bs"
  shows "\<exists>m k. m + 2 \<le> k \<and> k \<le> n \<and> chain_log get R m (drop (length bs - h) bs) \<and>
     chain_log get R k (drop (length bs - h - 1) bs) \<and>
     block_log get R m k (of_nat h) (bs ! (length bs - 1 - h))"
proof -
  let ?j = "length bs - h - 1"
  obtain k where k: "k \<le> n" "chain_log get R k (drop ?j bs)"
    using chain_log_drop [OF assms(1), of ?j] by auto
  have d: "drop ?j bs = bs ! ?j # drop (Suc ?j) bs" using assms(2) by (simp add: Cons_nth_drop_Suc)
  have l: "length (drop (length bs - h) bs) = h" using assms(2) by simp
  have s: "Suc ?j = length bs - h" "length bs - 1 - h = ?j" using assms(2) by simp_all
  from k(2) obtain m where "chain_log get R m (drop (Suc ?j) bs)" "m + 2 \<le> k"
      "block_log get R m k (of_nat (length (drop (Suc ?j) bs))) (bs ! ?j)"
    unfolding d by auto
  then show ?thesis using k unfolding s l by (intro exI [of _ m] exI [of _ k]) simp
qed

definition block_at :: "block_info list \<Rightarrow> nat \<Rightarrow> block_info" where
  "block_at bs h = bs ! (length bs - 1 - h)"

lemma perm_inv_ledger:
  assumes "perm_inv s bs" and "i < ledger_used s"
  shows "ledger_GetRow (p_Ledger s) i old = (MC_ERR_NOERROR, p_log s ! i)"
  using assms(2) perm_inv_good(1,2) [OF assms(1)] p_log_ledger [of i s]
  by (simp add: ledger_GetRow_def perm_good_def perm_wf_def perm_healthy_def)

lemma block_index_row:
  assumes inv: "perm_inv s bs" and h: "h < length bs"
  shows "\<exists>m k. m + 2 \<le> k \<and> k \<le> ledger_used s \<and> 0 < m \<and>
     l_ThisRow (snd (GetPermission3 s (block_address (of_nat h)) MC_PTP_BLOCK_INDEX)) = k - 1 \<and>
     chain_log (db_get (p_Database s)) (p_log s) m (drop (length bs - h) bs) \<and>
     chain_log (db_get (p_Database s)) (p_log s) k (drop (length bs - h - 1) bs) \<and>
     block_log (db_get (p_Database s)) (p_log s) m k (of_nat h) (block_at bs h)"
proof -
  have "chain_log (db_get (p_Database s)) (p_log s) (ledger_used s) bs" using inv by (simp add: perm_inv_def)
  from chain_log_block [OF this h] obtain m k where mk: "m + 2 \<le> k" "k \<le> ledger_used s"
    "chain_log (db_get (p_Database s)) (p_log s) m (drop (length bs - h) bs)"
    "chain_log (db_get (p_Database s)) (p_log s) k (drop (length bs - h - 1) bs)"
    "block_log (db_get (p_Database s)) (p_log s) m k (of_nat h) (block_at bs h)" by (auto simp: block_at_def)
  then obtain v where v: "db_get (p_Database s) (DbKey 0 (block_address (of_nat h)) MC_PTP_BLOCK_INDEX) = Some (PermVal v)"
    "v_LedgerRow v = k - 1" by (auto simp: block_log_def)
  have none: "row_key r \<noteq> DbKey 0 (block_address (of_nat h)) MC_PTP_BLOCK_INDEX" if "r \<in> set (buf_rows (p_MemPool s))" for r
    using perm_inv_pool(4) [OF inv that] by (auto simp: row_key_def)
  show ?thesis
    using index_lookup [OF perm_inv_good(1) [OF inv] none v(1)] v(2) mk chain_log_pos [OF mk(3)]
    by (intro exI [of _ m] exI [of _ k]) simp
qed

theorem history_queries:
  assumes inv: "perm_inv s bs" and h: "h < length bs"
  shows "GetBlockMiner_height s (of_nat h) = (MC_ERR_NOERROR, Some (b_Miner (block_at bs h)))"
    and "VerifyBlockHash s (int h) hash \<longleftrightarrow> hash = b_Hash (block_at bs h)"
proof -
  obtain m k where k: "m + 2 \<le> k" "k \<le> ledger_used s" "0 < m"
    "l_ThisRow (snd (GetPermission3 s (block_address (of_nat h)) MC_PTP_BLOCK_INDEX)) = k - 1"
    and b: "block_log (db_get (p_Database s)) (p_log s) m k (of_nat h) (block_at bs h)"
    using block_index_row [OF inv h] by blast
  have op: "lg_CanOpen (p_Ledger s)" using perm_inv_good(1) [OF inv] by (simp add: perm_good_def perm_healthy_def)
  have e: "k - 1 - 1 = k - 2" using k by simp
  have t: "l_Type (p_log s ! (k - 2)) = MC_PTP_BLOCK_MINER" "l_Address (p_log s ! (k - 2)) = b_Miner (block_at bs h)"
    "bl_CommitHash (p_log s ! (k - 1)) = b_Hash (block_at bs h)"
    using b by (simp_all add: block_log_def row_key_def)
  have rd: "ledger_GetRow (p_Ledger s) (k - 2) old = (MC_ERR_NOERROR, p_log s ! (k - 2))"
    "ledger_GetRow (p_Ledger s) (k - 1) old = (MC_ERR_NOERROR, p_log s ! (k - 1))" for old
    using k by (auto intro: perm_inv_ledger [OF inv])
  show "GetBlockMiner_height s (of_nat h) = (MC_ERR_NOERROR, Some (b_Miner (block_at bs h)))"
    using k op unfolding GetBlockMiner_height_def Let_def k(4) e rd t by (simp add: t)
  show "VerifyBlockHash s (int h) hash \<longleftrightarrow> hash = b_Hash (block_at bs h)"
    using k op unfolding VerifyBlockHash_def Let_def of_int_of_nat_eq k(4) rd by (auto simp: t(3) [unfolded One_nat_def])
qed

text \<open>The walk from a height down along the links of the index rows.\<close>

lemma governance_scan_history:
  assumes inv: "perm_inv s bs" and lo: "0 < lo"
  shows "n < length bs \<Longrightarrow> chain_log (db_get (p_Database s)) (p_log s) k (drop (length bs - n - 1) bs) \<Longrightarrow>
    k \<le> ledger_used s \<Longrightarrow> r = governance_scan (p_Ledger s) lo n (k - 1) \<Longrightarrow>
    r = 0 \<and> (\<forall>x. lo \<le> x \<longrightarrow> x \<le> n \<longrightarrow> \<not> b_Governance (block_at bs x)) \<or>
    lo \<le> r \<and> r \<le> n \<and> b_Governance (block_at bs r) \<and> (\<forall>x. r < x \<longrightarrow> x \<le> n \<longrightarrow> \<not> b_Governance (block_at bs x))"
proof (induction n arbitrary: k r)
  case 0
  then show ?case using lo by simp
next
  case (Suc n)
  let ?j = "length bs - Suc n - 1"
  have "drop ?j bs = bs ! ?j # drop (Suc ?j) bs" using Suc.prems(1) by (simp add: Cons_nth_drop_Suc)
  moreover have j: "Suc ?j = length bs - n - 1" "bs ! ?j = block_at bs (Suc n)"
    using Suc.prems(1) by (simp_all add: block_at_def)
  ultimately obtain m where m: "chain_log (db_get (p_Database s)) (p_log s) m (drop (length bs - n - 1) bs)" "m + 2 \<le> k"
    and b: "block_log (db_get (p_Database s)) (p_log s) m k (of_nat (length (drop (Suc ?j) bs))) (block_at bs (Suc n))"
    using Suc.prems(2) by auto
  have row: "bl_BlockFlags (p_log s ! (k - 1)) AND MC_PFB_GOVERNANCE_CHANGE \<noteq> 0 \<longleftrightarrow> b_Governance (block_at bs (Suc n))"
    "l_PrevRow (p_log s ! (k - 1)) = m - 1" using b by (simp_all add: block_log_def)
  have rd: "ledger_GetRow (p_Ledger s) (k - 1) old = (MC_ERR_NOERROR, p_log s ! (k - 1))" for old
    using m(2) Suc.prems(3) by (auto intro: perm_inv_ledger [OF inv])
  show ?case
  proof (cases "lo \<le> Suc n \<and> \<not> b_Governance (block_at bs (Suc n))")
    case True
    then have "r = governance_scan (p_Ledger s) lo n (m - 1)" using Suc.prems(4) row rd by (simp add: Let_def)
    from Suc.IH [OF _ m(1) _ this] Suc.prems(1,3) m(2) True show ?thesis by (auto simp: le_Suc_eq)
  next
    case False
    then show ?thesis using Suc.prems(4) row rd by (cases "lo \<le> Suc n") (auto simp: Let_def)
  qed
qed

theorem governance_history:
  assumes inv: "perm_inv s bs" and bs: "bs \<noteq> []" and range: "bfrom < 2 ^ 31" "bto < 2 ^ 31"
    and lo: "lo = max 1 bfrom" and hi: "hi = min bto (length bs - 1)"
  shows "\<exists>r. FindGovernanceModelChange s (of_nat bfrom) (of_nat bto) = of_nat r \<and>
    (r = 0 \<and> (\<forall>x. lo \<le> x \<longrightarrow> x \<le> hi \<longrightarrow> \<not> b_Governance (block_at bs x)) \<or>
     lo \<le> r \<and> r \<le> hi \<and> b_Governance (block_at bs r) \<and> (\<forall>x. r < x \<longrightarrow> x \<le> hi \<longrightarrow> \<not> b_Governance (block_at bs x)))"
proof -
  have blk: "p_Block s = int (length bs) - 1" and len: "length bs < 2 ^ 31 - 1" using inv by (simp_all add: perm_inv_def)
  have un: "unat (of_nat x :: u32) = x" if "x < 2 ^ 31" for x using that by (simp add: unsigned_of_nat take_bit_nat_eq_self_iff)
  have hi_lt: "hi < length bs" "hi < 2 ^ 31" using bs hi len by (auto simp: min_def simp flip: length_greater_0_conv)
  define block :: u32 where "block = (if p_Block s < sint (of_nat bto :: u32) then word_of_int (p_Block s) else of_nat bto)"
  have block: "block = of_nat hi"
  proof (cases "length bs - 1 < bto")
    case True
    then have "p_Block s = int (length bs - 1)" using blk bs by (cases bs) auto
    then show ?thesis using True hi range by (simp add: block_def sint_height)
  next
    case False
    then show ?thesis using hi range blk bs by (cases bs) (auto simp: block_def sint_height min_def)
  qed
  define start :: u32 where "start = (if of_nat bfrom = (0 :: u32) then 1 else of_nat bfrom)"
  have z: "of_nat bfrom = (0 :: u32) \<longleftrightarrow> bfrom = 0" using of_nat_height_eq [of bfrom 0] range by simp
  have start: "unat start = lo" using z lo un [OF range(1)] by (auto simp: start_def max_def)
  have less: "block < of_nat bfrom \<longleftrightarrow> hi < bfrom" using un [OF range(1)] un [OF hi_lt(2)] by (simp add: block word_less_nat_alt)
  show ?thesis
  proof (cases "hi < bfrom")
    case True
    then have "FindGovernanceModelChange s (of_nat bfrom) (of_nat bto) = of_nat 0"
      unfolding FindGovernanceModelChange_def Let_def block_def [symmetric] less by simp
    then show ?thesis using True lo by (intro exI [of _ 0]) auto
  next
    case False
    obtain m k where k: "k \<le> ledger_used s" "chain_log (db_get (p_Database s)) (p_log s) k (drop (length bs - hi - 1) bs)"
      "l_ThisRow (snd (GetPermission3 s (block_address (of_nat hi)) MC_PTP_BLOCK_INDEX)) = k - 1"
      using block_index_row [OF inv hi_lt(1)] by blast
    have op: "lg_CanOpen (p_Ledger s)" using perm_inv_good(1) [OF inv] by (simp add: perm_good_def perm_healthy_def)
    have "FindGovernanceModelChange s (of_nat bfrom) (of_nat bto) = of_nat (governance_scan (p_Ledger s) lo hi (k - 1))"
      unfolding FindGovernanceModelChange_def Let_def block_def [symmetric] start_def [symmetric] less start
      using False op by (simp add: block k(3) un [OF hi_lt(2)])
    moreover have "0 < lo" using lo by simp
    ultimately show ?thesis using governance_scan_history [OF inv _ hi_lt(1) k(2,1) refl] by blast
  qed
qed

end
