(* ===== verification/Perm_Restart.thy ===== *)
theory Perm_Restart
  imports Perm_Invariant
begin

text \<open>
  Starting again. The database is the last committed one; the ledger file may be ahead of it, because
  a commit writes the file before it commits the database, and a roll back commits the database
  before it writes the file's header. \<open>Initialize\<close> finds the chain part again, when no older row lies
  behind it in the file.
\<close>

section \<open>What is on disk\<close>

text \<open>The file \<open>lg\<close> still has the chain part of \<open>s\<close>.\<close>

definition disk_rows :: "mc_Permissions \<Rightarrow> mc_PermissionLedger \<Rightarrow> bool" where
  "disk_rows s lg \<longleftrightarrow> lg_CanOpen lg \<and> ledger_used s \<le> length (lg_Rows lg) \<and>
     (\<forall>i. 0 < i \<longrightarrow> i < ledger_used s \<longrightarrow> lg_Rows lg ! i = p_log s ! i)"

text \<open>The header says what the database says.\<close>

definition header_current :: "mc_Permissions \<Rightarrow> mc_PermissionLedger \<Rightarrow> bool" where
  "header_current s lg \<longleftrightarrow>
     l_BlockTo (lg_Rows lg ! 0) = word_of_int (p_Block s) \<and> l_PrevRow (lg_Rows lg ! 0) = ledger_used s"

text \<open>The header is of a later block, and every row behind the chain part was received later.\<close>

definition header_ahead :: "mc_Permissions \<Rightarrow> mc_PermissionLedger \<Rightarrow> bool" where
  "header_ahead s lg \<longleftrightarrow> p_Block s < sint (l_BlockTo (lg_Rows lg ! 0)) \<and>
     (\<forall>i. ledger_used s \<le> i \<longrightarrow> i < length (lg_Rows lg) \<longrightarrow> p_Block s < sint (l_BlockReceived (lg_Rows lg ! i)))"

section \<open>The state that the disk gives\<close>

lemma restart_state:
  assumes inv: "perm_inv s bs" and disk: "disk_rows s (p_Ledger t)" and hd: "header_current s (p_Ledger t)"
    and t: "p_Database t = p_Database s" "p_Block t = p_Block s" "p_Row t = ledger_used s" "p_CopiedRow t = 0"
      "m_Count (p_MemPool t) = 0" "buf_ok mem_key (p_MemPool t)"
  shows "UpdateCounts t = Some (MC_ERR_NOERROR, t\<lparr>p_AdminCount := int (card (allowed_set t MC_PTP_ADMIN)),
      p_MinerCount := int (card (allowed_set t MC_PTP_MINE))\<rparr>)" (is ?counts)
    and "p_log t = (take (ledger_used s) (p_log s))[0 := lg_Rows (p_Ledger t) ! 0]" (is ?log)
    and "perm_inv (t\<lparr>p_AdminCount := int (card (allowed_set t MC_PTP_ADMIN)),
      p_MinerCount := int (card (allowed_set t MC_PTP_MINE)),
      p_ClearedAdminCount := int (card (allowed_set t MC_PTP_ADMIN)),
      p_ClearedMinerCount := int (card (allowed_set t MC_PTP_MINE))\<rparr>) bs" (is "perm_inv ?u bs")
proof -
  note wf = perm_inv_good(2) [OF inv] and good = perm_inv_good(1) [OF inv]
  note rows = perm_wf_length [OF wf]
  have used: "ledger_used t = ledger_used s" by (simp add: ledger_used_def t(3,5))
  have pt: "p_log t = take (ledger_used s) (lg_Rows (p_Ledger t))"
    by (simp add: p_log_def [of t] used buf_rows_def t(5))
  show log: ?log
  proof (rule nth_equalityI)
    show "length (p_log t) = length ((take (ledger_used s) (p_log s))[0 := lg_Rows (p_Ledger t) ! 0])"
      using disk rows by (simp add: pt disk_rows_def)
    show "p_log t ! i = (take (ledger_used s) (p_log s))[0 := lg_Rows (p_Ledger t) ! 0] ! i" if "i < length (p_log t)" for i
      using that disk rows by (cases i) (simp_all add: pt disk_rows_def)
  qed
  have ch: "perm_chain s" and h: "headers_ok s" using inv by (simp_all add: perm_inv_def)
  have "wf_log (p_log t)" using wf rows by (simp add: log perm_wf_def wf_log_take)
  moreover have "db_mirrors (db_get (p_Database t)) (p_log t) (ledger_used t)"
    using wf by (simp add: log used t(1) perm_wf_def db_mirrors_take)
  ultimately have good_t: "perm_good t"
    using disk good t rows(3) by (simp add: perm_good_def perm_wf_def perm_healthy_def used disk_rows_def)
  have ix: "index_ok (db_get (p_Database t)) (p_log t) (p_Row t)"
    using ch by (simp add: perm_chain_def log t(1,3) klast_take_index)
  show c: ?counts by (rule UpdateCounts_good [OF good_t ix])
  have log_u: "p_log ?u = p_log t" "perm_good ?u = perm_good t" "allowed_set ?u x = allowed_set t x"
    "ledger_used ?u = ledger_used t" for x
    by (rule state_eq_log(1) state_eq_log(2) state_eq_log(4) state_eq_log(5); simp)+
  have "chain_log (db_get (p_Database s)) (p_log t) (ledger_used s) bs"
    by (rule chain_log_cong [where get = "db_get (p_Database s)" and R = "p_log s"])
      (use inv in \<open>simp_all add: perm_inv_def log\<close>)
  moreover have "headers_ok ?u"
    using h hd rows by (simp add: headers_ok_def log_u used log header_current_def t(1,2))
  moreover have "cleared_ok ?u"
    by (rule counts_saved_cleared) (simp_all add: counts_saved_def counts_ok_def log_u t(5))
  ultimately show "perm_inv ?u bs"
    using inv good_t ix ch t(5) unfolding perm_inv_def perm_chain_def counts_ok_def pool_ok_def log_u
    by (simp add: t buf_rows_def log_u used)
qed

section \<open>Initialize\<close>

lemma repair_scan_cut:
  assumes "m \<le> n" and "\<And>i. m < i \<Longrightarrow> i \<le> n \<Longrightarrow> block < sint (l_BlockReceived (snd (ledger_GetRow lg i zero_row)))"
    and "0 < m \<Longrightarrow> sint (l_BlockReceived (snd (ledger_GetRow lg m zero_row))) \<le> block"
  shows "repair_scan lg block n = m"
  using assms
proof (induction n)
  case (Suc n)
  show ?case
  proof (cases "m = Suc n")
    case True
    then show ?thesis using Suc.prems(3) by simp
  next
    case False
    then have "repair_scan lg block n = m" using Suc.prems by (intro Suc.IH) auto
    then show ?thesis using Suc.prems(2) [of "Suc n"] Suc.prems(1) False by simp
  qed
qed simp

lemma set_last_counts_same:
  assumes "lg_CanOpen lg" and "n < length (lg_Rows lg)" and "with_counts s (lg_Rows lg ! n) = lg_Rows lg ! n"
  shows "lg_Rows (set_last_counts s lg n) = lg_Rows lg" and "lg_CanOpen (set_last_counts s lg n)"
  using assms by (simp_all add: set_last_counts_def ledger_SetRow_open ledger_GetRow_def write_at_def)

text \<open>The counters of the last block's rows are those of the recount, so writing them changes nothing.\<close>

lemma last_block_rows:
  assumes inv: "perm_inv s bs" and bs: "bs \<noteq> []"
  shows "3 \<le> ledger_used s"
    and "row_key (p_log s ! (ledger_used s - 1)) = DbKey 0 (block_address (word_of_int (p_Block s))) MC_PTP_BLOCK_INDEX"
    and "n = ledger_used s - 1 \<or> n = ledger_used s - 2 \<Longrightarrow>
      bl_AdminCount (p_log s ! n) = of_nat (card (allowed_at (p_log s) (ledger_used s) (next_block s) MC_PTP_ADMIN)) \<and>
      bl_MinerCount (p_log s ! n) = of_nat (card (allowed_at (p_log s) (ledger_used s) (next_block s) MC_PTP_MINE))"
proof -
  obtain b bs' where b: "bs = b # bs'" using bs by (cases bs) auto
  have blk: "p_Block s = int (length bs')" "next_block s = of_nat (length bs') + 1"
    using inv b next_block_height [of s "length bs"] by (simp_all add: perm_inv_def)
  obtain m where m: "chain_log (db_get (p_Database s)) (p_log s) m bs'" "m + 2 \<le> ledger_used s"
    "block_log (db_get (p_Database s)) (p_log s) m (ledger_used s) (of_nat (length bs')) b"
    using inv by (auto simp: perm_inv_def b)
  show "3 \<le> ledger_used s" using chain_log_pos [OF m(1)] m(2) by simp
  show "row_key (p_log s ! (ledger_used s - 1)) = DbKey 0 (block_address (word_of_int (p_Block s))) MC_PTP_BLOCK_INDEX"
    using m(3) by (simp add: block_log_def blk(1))
  show "bl_AdminCount (p_log s ! n) = of_nat (card (allowed_at (p_log s) (ledger_used s) (next_block s) MC_PTP_ADMIN)) \<and>
      bl_MinerCount (p_log s ! n) = of_nat (card (allowed_at (p_log s) (ledger_used s) (next_block s) MC_PTP_MINE))"
    if "n = ledger_used s - 1 \<or> n = ledger_used s - 2"
    using m(2,3) that by (auto simp: block_log_def blk(2))
qed

lemma Initialize_restart:
  assumes inv: "perm_inv s bs" and disk: "disk_rows s lg" and hd: "header_current s lg \<or> header_ahead s lg"
  shows "\<exists>s'. Initialize (p_Database s) lg MC_ERR_NOERROR mem mem' True = Some (MC_ERR_NOERROR, s') \<and> perm_inv s' bs \<and>
    p_log s' = (take (ledger_used s) (p_log s))[0 := p_log s' ! 0]"
proof -
  let ?pdb = "p_Block s" and ?used = "ledger_used s"
  note good = perm_inv_good(1) [OF inv] and wf = perm_inv_good(2) [OF inv]
  note rows = perm_wf_length [OF wf]
  have blk: "p_Block s = int (length bs) - 1" and len: "length bs < 2 ^ 31 - 1" and h: "headers_ok s"
    and log: "chain_log (db_get (p_Database s)) (p_log s) ?used bs" using inv by (simp_all add: perm_inv_def)
  have sb: "sint (word_of_int ?pdb :: u32) = ?pdb" 
  proof (cases bs)
    case (Cons b bs')
    then show ?thesis using blk len sint_height [of "length bs'"] by simp
  qed (simp add: blk)
  have op: "lg_CanOpen lg" "?used \<le> length (lg_Rows lg)" and at: "\<And>i. 0 < i \<Longrightarrow> i < ?used \<Longrightarrow> lg_Rows lg ! i = p_log s ! i"
    using disk by (simp_all add: disk_rows_def)
  have ne: "lg_Rows lg \<noteq> []" using op rows(3) by auto
  have db: "init_database (p_Database s) = (MC_ERR_NOERROR, ?pdb, ?used, p_Database s)"
    using h good sb by (auto simp: init_database_def headers_ok_def db_Read_healthy perm_good_def perm_healthy_def)
  have il: "init_ledger lg = (sint (l_BlockTo (lg_Rows lg ! 0)), l_PrevRow (lg_Rows lg ! 0), lg)"
    using op ne by (simp add: init_ledger_def ledger_GetRow_def)
  obtain lg2 where fixed: "(if ?pdb < sint (l_BlockTo (lg_Rows lg ! 0))
      then (case repair_ledger lg ?pdb (ledger_GetSize lg) of (r, lg2) \<Rightarrow> (?pdb, r, lg2))
      else (sint (l_BlockTo (lg_Rows lg ! 0)), l_PrevRow (lg_Rows lg ! 0), lg)) = (?pdb, ?used, lg2)"
    and lg2: "disk_rows s lg2" "header_current s lg2"
  proof (cases "header_ahead s lg")
    case True
    have scan: "repair_scan lg ?pdb (length (lg_Rows lg) - 1) = ?used - 1"
    proof (rule repair_scan_cut)
      show "?pdb < sint (l_BlockReceived (snd (ledger_GetRow lg i zero_row)))"
        if "?used - 1 < i" "i \<le> length (lg_Rows lg) - 1" for i
        using that True op rows(3) ne by (auto simp: header_ahead_def ledger_GetRow_def)
      show "sint (l_BlockReceived (snd (ledger_GetRow lg (?used - 1) zero_row))) \<le> ?pdb" if pos: "0 < ?used - 1"
      proof -
        obtain n where "n < length bs" "row_height (p_log s ! (?used - 1)) n" using chain_log_heights [OF log pos] rows(3) by auto
        then show ?thesis using op pos blk len at [OF pos] by (auto simp: ledger_GetRow_def row_height_def sint_height)
      qed
    qed (use op in simp)
    obtain h' where w: "lg_Rows (write_header_row lg ?pdb ?used) = (lg_Rows lg)[0 := h']" "l_BlockTo h' = word_of_int ?pdb"
      "l_PrevRow h' = ?used" "lg_CanOpen (write_header_row lg ?pdb ?used)"
      using write_header_row_rows [OF op(1) ne, of ?pdb ?used] by blast
    have "repair_ledger lg ?pdb (ledger_GetSize lg) = (?used, write_header_row lg ?pdb ?used)"
      using op rows(3) scan by (simp add: repair_ledger_def ledger_GetSize_def Let_def)
    moreover have "?pdb < sint (l_BlockTo (lg_Rows lg ! 0))" using True by (simp add: header_ahead_def)
    moreover have "disk_rows s (write_header_row lg ?pdb ?used)" using op at w by (simp add: disk_rows_def)
    moreover have "header_current s (write_header_row lg ?pdb ?used)" using ne w by (simp add: header_current_def)
    ultimately show ?thesis using that by simp
  next
    case False
    then have "header_current s lg" using hd by simp
    then show ?thesis using that disk sb by (simp add: header_current_def)
  qed
  have size: "?used \<le> ledger_GetSize lg" using op by (simp add: ledger_GetSize_def)
  define t where "t = (zero_state (p_Database s) lg mem mem')\<lparr>p_Database := p_Database s, p_Ledger := lg2,
      p_Block := ?pdb, p_Row := ?used\<rparr>"
  define u where "u = t\<lparr>p_AdminCount := int (card (allowed_set t MC_PTP_ADMIN)),
      p_MinerCount := int (card (allowed_set t MC_PTP_MINE))\<rparr>"
  have "m_Count (buf_Initialize mem True) = 0" by (simp add: buf_Initialize_def)
  then have t: "p_Database t = p_Database s" "p_Block t = ?pdb" "p_Row t = ?used" "p_CopiedRow t = 0"
    "m_Count (p_MemPool t) = 0" "buf_ok mem_key (p_MemPool t)" "p_Ledger t = lg2"
    by (simp_all add: t_def zero_state_def)
  have cnt: "UpdateCounts t = Some (MC_ERR_NOERROR, u)" and tlog: "p_log t = (take ?used (p_log s))[0 := lg_Rows lg2 ! 0]"
    and uinv: "perm_inv (u\<lparr>p_ClearedAdminCount := p_AdminCount u, p_ClearedMinerCount := p_MinerCount u\<rparr>) bs"
    using restart_state [OF inv _ _ t(1-6)] lg2 t(7) unfolding u_def by simp_all
  let ?w = "u\<lparr>p_ClearedAdminCount := p_AdminCount u, p_ClearedMinerCount := p_MinerCount u\<rparr>"
  define s2 where "s2 = u\<lparr>p_ClearedAdminCount := p_AdminCount u, p_ClearedMinerCount := p_MinerCount u,
      p_ClearedMinerCountForMinerVerification := p_MinerCount u\<rparr>"
  have s2: "p_Ledger s2 = lg2" "p_Row s2 = ?used" "p_Block s2 = ?pdb" "p_AdminCount s2 = p_AdminCount u"
    "p_MinerCount s2 = p_MinerCount u" "p_Ledger u = lg2" "p_Row u = ?used" "p_Block u = ?pdb"
    by (simp_all add: s2_def u_def t)
  have op2: "lg_CanOpen lg2" "?used \<le> length (lg_Rows lg2)" using lg2 by (simp_all add: disk_rows_def)
  have "\<exists>lg3. init_counts t = Some (MC_ERR_NOERROR, s2\<lparr>p_Ledger := lg3\<rparr>) \<and> lg_Rows lg3 = lg_Rows lg2 \<and> lg_CanOpen lg3"
  proof (cases bs)
    case Nil
    then have "?used = 1" using log by simp
    then show ?thesis using cnt op2 s2
      by (intro exI [of _ lg2]) (simp add: init_counts_def Let_def s2_def [symmetric])
  next
    case (Cons b bs')
    then have bs: "bs \<noteq> []" by simp
    note last = last_block_rows [OF inv bs]
    have same: "with_counts s2 (lg_Rows lg2 ! n) = lg_Rows lg2 ! n" if "n = ?used - 1 \<or> n = ?used - 2" for n
    proof -
      have "lg_Rows lg2 ! n = p_log s ! n" using lg2(1) last(1) that by (auto simp: disk_rows_def)
      moreover have "allowed_at (p_log t) ?used x y = allowed_at (p_log s) ?used x y" for x y
        by (rule allowed_at_cong) (simp add: tlog)
      then have "p_AdminCount u = int (card (allowed_at (p_log s) ?used (next_block s) MC_PTP_ADMIN))"
        "p_MinerCount u = int (card (allowed_at (p_log s) ?used (next_block s) MC_PTP_MINE))"
        by (simp_all add: u_def allowed_set_at t next_block_def)
      ultimately show ?thesis
        using last(3) [OF that] by (simp add: with_counts_def s2 bl_AdminCount_def bl_MinerCount_def)
    qed
    have r: "ledger_GetRow lg2 (?used - 1) zero_row = (MC_ERR_NOERROR, p_log s ! (?used - 1))"
      using lg2(1) last(1) by (auto simp: disk_rows_def ledger_GetRow_def)
    have k: "l_Address (p_log s ! (?used - 1)) = block_address (word_of_int ?pdb)"
      using last(2) by (simp add: row_key_def)
    let ?l1 = "set_last_counts s2 lg2 (?used - 1)"
    have l1: "lg_Rows ?l1 = lg_Rows lg2" "lg_CanOpen ?l1"
      using set_last_counts_same [OF op2(1) _ same [of "?used - 1"]] op2(2) last(1) by simp_all
    have l2: "lg_Rows (set_last_counts s2 ?l1 (?used - 2)) = lg_Rows lg2" "lg_CanOpen (set_last_counts s2 ?l1 (?used - 2))"
      using set_last_counts_same [OF l1(2), of "?used - 2" s2] same [of "?used - 2"] l1(1) op2(2) last(1) by simp_all
    have "init_counts t = Some (MC_ERR_NOERROR, s2\<lparr>p_Ledger := set_last_counts s2 ?l1 (?used - 2)\<rparr>)"
      using cnt op2 s2 last(1) r k by (simp add: init_counts_def Let_def s2_def [symmetric])
    then show ?thesis using l2 by blast
  qed
  then obtain lg3 where ic: "init_counts t = Some (MC_ERR_NOERROR, s2\<lparr>p_Ledger := lg3\<rparr>)"
    and lg3: "lg_Rows lg3 = lg_Rows lg2" "lg_CanOpen lg3" by blast
  let ?s' = "s2\<lparr>p_Ledger := lg3\<rparr>"
  have init: "Initialize (p_Database s) lg MC_ERR_NOERROR mem mem' True = Some (MC_ERR_NOERROR, ?s')"
    unfolding Initialize_def Let_def db il using op(1) fixed size ic by (simp add: t_def)
  have us: "p_log ?s' = p_log ?w" "p_Row ?s' = p_Row ?w" "p_MemPool ?s' = p_MemPool ?w" "p_Database ?s' = p_Database ?w"
    "p_Block ?s' = p_Block ?w" "p_AdminCount ?s' = p_AdminCount ?w" "p_MinerCount ?s' = p_MinerCount ?w"
    "ledger_used ?s' = ledger_used ?w" "p_CopiedRow ?s' = p_CopiedRow ?w" "p_ClearedAdminCount ?s' = p_ClearedAdminCount ?w"
    "p_ClearedMinerCount ?s' = p_ClearedMinerCount ?w"
    by (simp_all add: s2_def p_log_def ledger_used_def lg3 u_def t(7))
  have "perm_good ?s'"
    using perm_inv_good(1) [OF uinv] lg3 unfolding perm_good_def perm_wf_def perm_healthy_def us by (simp add: u_def t(7))
  moreover have "cleared_ok ?s'"
  proof -
    have "chain_allowed ?s' x = chain_allowed ?w x" for x by (simp only: chain_allowed_def log_allowed_def next_block_def us)
    moreover have "cleared_ok ?w" using uinv by (simp only: perm_inv_def)
    ultimately show ?thesis by (simp only: cleared_ok_def us)
  qed
  ultimately have fin: "perm_inv ?s' bs" by (intro perm_inv_eq [OF uinv]) (simp_all add: us)
  have "p_log ?w = (take ?used (p_log s))[0 := p_log ?w ! 0]"
  proof -
    have "p_log ?w = p_log t" by (rule state_eq_log(1)) (simp_all add: u_def)
    then show ?thesis using tlog rows by simp
  qed
  with init fin show ?thesis by (intro exI [of _ ?s']) (simp only: us)
qed

section \<open>A stop in the middle of a commit\<close>

text \<open>
  The ledger file with every row and the header of the new block, when the database is not committed:
  \<open>commit_write\<close> up to its last step. Behind the new rows the file is as it was.
\<close>

lemma commit_write_disk:
  assumes inv: "perm_inv s bs" and fl: "CalculateBlockFlags s = Some flags" and len: "length bs < 2 ^ 31 - 2"
    and lg: "lg = snd (snd (commit_write (add_block_rows s miner hash flags) (m_Count (p_MemPool s))))"
    and stale: "\<And>i. p_Row s + 2 \<le> i \<Longrightarrow> i < length (lg_Rows (p_Ledger s)) \<Longrightarrow>
      p_Block s < sint (l_BlockReceived (lg_Rows (p_Ledger s) ! i))"
  shows "disk_rows s lg" and "header_ahead s lg"
proof -
  note good = perm_inv_good(1) [OF inv] and wf = perm_inv_good(2) [OF inv] and ch = perm_inv_good(3) [OF inv]
  note rows = perm_wf_length [OF wf]
  have blk: "p_Block s = int (length bs) - 1" using inv by (simp add: perm_inv_def)
  have nb: "next_block s = of_nat (length bs)" using blk by (rule next_block_height)
  obtain b1 b2 where s1: "add_block_rows s miner hash flags = push_row (push_row s b1) b2"
    "perm_good (push_row (push_row s b1) b2)" and b: "block_rows s miner hash b1 b2"
    using add_block_rows_good [OF good fl] by blast
  let ?s1 = "push_row (push_row s b1) b2"
  have recv: "p_Block s < sint (l_BlockReceived (p_log ?s1 ! i))" and z: "\<not> zero_admin (p_log ?s1 ! i)"
    if i: "ledger_used s \<le> i" "i < p_Row s + 2" for i
  proof -
    consider "i < p_Row s" | "p_log ?s1 ! i = b1" | "p_log ?s1 ! i = b2"
      using i(2) rows(1) by (cases "i < p_Row s"; cases "i = p_Row s") (auto simp: nth_append)
    then have "l_BlockReceived (p_log ?s1 ! i) = of_nat (length bs) \<and> \<not> zero_admin (p_log ?s1 ! i)"
    proof cases
      case 1
      then show ?thesis using perm_inv_pool(1,2) [OF inv log_at_pool [OF wf i(1)]] rows(1) by (simp add: nth_append)
    qed (use b in \<open>simp_all add: block_rows_def nb row_key_def zero_admin_def\<close>)
    then show "p_Block s < sint (l_BlockReceived (p_log ?s1 ! i))" "\<not> zero_admin (p_log ?s1 ! i)"
      using blk len by (simp_all add: sint_height)
  qed
  have "index_ok (db_get (p_Database ?s1)) (p_log ?s1) (ledger_used ?s1)"
    using ch rows by (simp add: perm_chain_def index_ok_def)
  moreover have "db_Batch (p_Database ?s1) = []" using ch by (simp add: perm_chain_def)
  moreover have "\<not> zero_admin (p_log ?s1 ! i)" if "ledger_used ?s1 \<le> i" "i < length (p_log ?s1)" for i
    using z that rows(1) by simp
  ultimately obtain db h where w: "commit_write ?s1 (m_Count (p_MemPool s)) = (MC_ERR_NOERROR, db, lg)"
    and op: "lg_CanOpen lg" "p_Row ?s1 \<le> length (lg_Rows lg)" "take (p_Row ?s1) (lg_Rows lg) = (p_log ?s1)[0 := h]"
    and h: "l_BlockTo h = word_of_int (p_Block ?s1 + 1)"
    and rest: "drop (p_Row ?s1) (lg_Rows lg) = drop (p_Row ?s1) (lg_Rows (p_Ledger ?s1))"
    using commit_write_good [OF s1(2) refl, of "m_Count (p_MemPool s)"] lg s1(1) by auto
  have at: "lg_Rows lg ! i = (p_log ?s1)[0 := h] ! i" if "i < p_Row s + 2" for i
    using arg_cong [OF op(3), of "\<lambda>xs. xs ! i"] that by simp
  show "disk_rows s lg"
    using op at rows by (simp add: disk_rows_def nth_append)
  have "lg_Rows lg ! 0 = h" using at [of 0] rows by (simp add: nth_append)
  then have top: "p_Block s < sint (l_BlockTo (lg_Rows lg ! 0))" using h blk len by (simp add: sint_height)
  have "p_Block s < sint (l_BlockReceived (lg_Rows lg ! i))" if i: "ledger_used s \<le> i" "i < length (lg_Rows lg)" for i
  proof (cases "i < p_Row s + 2")
    case True
    then show ?thesis using recv [OF i(1) True] at [OF True] i rows by simp
  next
    case False
    have "length (drop (p_Row ?s1) (lg_Rows lg)) = length (drop (p_Row ?s1) (lg_Rows (p_Ledger s)))" using rest by simp
    then have l: "i < length (lg_Rows (p_Ledger s))" using False i(2) by simp
    obtain j where j: "i = p_Row ?s1 + j" using False by (metis le_Suc_ex not_less push_row_fields(2) add_2_eq_Suc')
    have "lg_Rows lg ! i = lg_Rows (p_Ledger s) ! i"
      using arg_cong [OF rest, of "\<lambda>xs. xs ! j"] i(2) l by (simp add: j)
    then show ?thesis using stale [of i] False l by simp
  qed
  then show "header_ahead s lg" using top by (simp add: header_ahead_def)
qed

text \<open>
  An older row at the end of the file, left there by a roll back, stops the repair at once: the node
  does not start again.
\<close>

lemma Initialize_stale:
  assumes inv: "perm_inv s bs" and op: "lg_CanOpen lg" and stale: "ledger_used s < length (lg_Rows lg)"
      "sint (l_BlockReceived (lg_Rows lg ! (length (lg_Rows lg) - 1))) \<le> p_Block s"
    and ahead: "p_Block s < sint (l_BlockTo (lg_Rows lg ! 0))"
  shows "\<exists>s'. Initialize (p_Database s) lg MC_ERR_NOERROR mem mem' True = Some (MC_ERR_CORRUPTED, s')"
proof -
  let ?n = "length (lg_Rows lg)"
  note good = perm_inv_good(1) [OF inv]
  have pos: "0 < ledger_used s" using perm_wf_length(3) [OF perm_inv_good(2) [OF inv]] .
  have h: "headers_ok s" and blk: "p_Block s = int (length bs) - 1" "length bs < 2 ^ 31 - 1"
    using inv by (simp_all add: perm_inv_def)
  have sb: "sint (word_of_int (p_Block s) :: u32) = p_Block s"
  proof (cases bs)
    case (Cons b bs')
    then show ?thesis using blk sint_height [of "length bs'"] by simp
  qed (simp add: blk)
  have db: "init_database (p_Database s) = (MC_ERR_NOERROR, p_Block s, ledger_used s, p_Database s)"
    using h good sb by (auto simp: init_database_def headers_ok_def db_Read_healthy perm_good_def perm_healthy_def)
  have il: "init_ledger lg = (sint (l_BlockTo (lg_Rows lg ! 0)), l_PrevRow (lg_Rows lg ! 0), lg)"
    using op stale by (cases "lg_Rows lg") (simp_all add: init_ledger_def ledger_GetRow_def)
  have n: "?n = Suc (Suc (?n - 2))" "?n - 1 = Suc (?n - 2)" using pos stale(1) by simp_all
  have "repair_scan lg (p_Block s) (Suc (?n - 2)) = Suc (?n - 2)"
    using stale(2) [unfolded n(2)] op n(1) by (auto simp: ledger_GetRow_def)
  then have "repair_scan lg (p_Block s) (?n - 1) = ?n - 1" unfolding n(2) .
  then have "repair_ledger lg (p_Block s) (ledger_GetSize lg) = (?n, write_header_row lg (p_Block s) ?n)"
    using op n by (simp add: repair_ledger_def ledger_GetSize_def Let_def)
  then show ?thesis using op ahead stale(1) unfolding Initialize_def Let_def db il by simp
qed

end
