(* ===== verification/Perm_Reach.thy ===== *)
theory Perm_Reach
  imports Perm_Restart
begin

text \<open>
  The component over time: \<open>reach\<close> is the step relation of the calls that the node makes, with the
  history of blocks they build.
\<close>

section \<open>The reachable states\<close>

text \<open>
  The calls between blocks, with the history. A new node starts from an empty disk; permissions are
  written, and written and taken back to a checkpoint; a commit adds a block; a roll back takes the
  newest \<open>j\<close> blocks off; the memory pool is cleared; the node stops, also in the middle of a commit, and
  starts again from what is on disk. Whatever the calls return, the state goes on from it.
\<close>

inductive reach :: "net_params \<Rightarrow> mc_Permissions \<Rightarrow> block_info list \<Rightarrow> bool" for np where
  reach_start: "Initialize empty_db empty_ledger MC_ERR_NOERROR (\<lambda>_. zero_row) (\<lambda>_. no_permission) True = Some (err, s) \<Longrightarrow>
    reach np s []"
| reach_write: "reach np s bs \<Longrightarrow> writes np s s' \<Longrightarrow> reach np s' bs"
| reach_try: "reach np s bs \<Longrightarrow> writes np (SetCheckPoint s) s' \<Longrightarrow> reach np (RollBackToCheckPoint s') bs"
| reach_commit: "reach np s bs \<Longrightarrow> hash \<noteq> 0 \<Longrightarrow> length bs < 2 ^ 31 - 2 \<Longrightarrow>
    Commit np s (Some miner) hash = Some (err, s') \<Longrightarrow>
    reach np s' (\<lparr>b_Miner = miner, b_Hash = hash, b_Governance = governance_block s\<rparr> # bs)"
| reach_rollback: "reach np s bs \<Longrightarrow> j \<le> length bs \<Longrightarrow> RollBack s (p_Block s - int j) = Some (err, s') \<Longrightarrow>
    reach np s' (drop j bs)"
| reach_clear: "reach np s bs \<Longrightarrow> ClearMemPool s = Some (err, s') \<Longrightarrow> reach np s' bs"
| reach_restart: "reach np s bs \<Longrightarrow> disk_rows s lg \<Longrightarrow> header_current s lg \<or> header_ahead s lg \<Longrightarrow>
    Initialize (p_Database s) lg MC_ERR_NOERROR mem mem' True = Some (err, s') \<Longrightarrow> reach np s' bs"

inductive_cases reachE: "reach np s bs"

theorem reach_inv: "reach np s bs \<Longrightarrow> perm_inv s bs"
proof (induction rule: reach.induct)
  case (reach_start err s)
  then show ?case using Initialize_fresh perm_inv_fresh by simp
next
  case (reach_write s bs s')
  show ?case using perm_inv_grants [OF reach_write.IH writes_grants [OF reach_write.hyps(2)]] perm_inv_good [OF reach_write.IH] by simp
next
  case (reach_try s bs s')
  then show ?case by (intro perm_inv_CheckPoint)
next
  case (reach_commit s bs hash miner err s')
  then show ?case using perm_inv_Commit [OF reach_commit.IH reach_commit.hyps(2,3), of np miner] by auto
next
  case (reach_rollback s bs j err s')
  then show ?case using perm_inv_RollBack [OF reach_rollback.IH reach_rollback.hyps(2) refl] by auto
next
  case (reach_clear s bs err s')
  then show ?case using perm_inv_ClearMemPool [OF reach_clear.IH] by auto
next
  case (reach_restart s bs lg mem mem' err s')
  then show ?case using Initialize_restart [OF reach_restart.IH reach_restart.hyps(2,3), of mem mem'] by auto
qed

end
