(* ===== verification/Perm_Fairness.thy ===== *)
theory Perm_Fairness
  imports Perm_Reach
begin

text \<open>
  Mining diversity over a history: who may mine the next block, as the history says it, and that the
  rule never locks out every miner.
\<close>

section \<open>The last block of a miner\<close>

text \<open>The height of the newest block mined by \<open>a\<close>; the first block and no block at all are 0.\<close>

fun last_block_of :: "block_info list \<Rightarrow> address \<Rightarrow> nat" where
  "last_block_of [] a = 0"
| "last_block_of (b # bs) a = (if b_Miner b = a then length bs else last_block_of bs a)"

lemma last_block_of_miner:
  assumes "last_block_of bs a \<noteq> 0"
  shows "last_block_of bs a < length bs" and "b_Miner (block_at bs (last_block_of bs a)) = a"
proof -
  have "last_block_of bs a < length bs \<and> b_Miner (block_at bs (last_block_of bs a)) = a"
    using assms
  proof (induction bs)
    case (Cons b bs)
    show ?case
    proof (cases "b_Miner b = a")
      case False
      then have "last_block_of bs a < length bs \<and> b_Miner (block_at bs (last_block_of bs a)) = a"
        using Cons by simp
      then show ?thesis using False by (auto simp: block_at_def nth_Cons')
    qed (simp add: block_at_def)
  qed simp
  then show "last_block_of bs a < length bs" and "b_Miner (block_at bs (last_block_of bs a)) = a" by simp_all
qed

lemma klast_skip:
  assumes "m \<le> n" and "\<And>i. m \<le> i \<Longrightarrow> i < n \<Longrightarrow> row_key (R ! i) \<noteq> k"
  shows "klast k R n = klast k R m"
  using assms by (induction n rule: nat_induct_at_least) (auto simp: klast_Suc)

lemma last_mined_history:
  assumes "chain_log get R n bs"
  shows "log_from R n (DbKey 0 a MC_PTP_BLOCK_MINER) = of_nat (last_block_of bs a)"
  using assms
proof (induction bs arbitrary: n)
  case Nil
  have "klast k R (Suc 0) = 0" for k using klast_less [of "Suc 0" k R] by simp
  then show ?case using Nil by (simp add: log_row_defs)
next
  case (Cons b bs)
  let ?k = "DbKey 0 a MC_PTP_BLOCK_MINER"
  obtain m where m: "chain_log get R m bs" "m + 2 \<le> n" and b: "block_log get R m n (of_nat (length bs)) b"
    using Cons.prems by auto
  have key: "row_key (R ! (n - 1)) \<noteq> ?k" "row_key (R ! (n - 2)) = ?k \<longleftrightarrow> b_Miner b = a"
    using b by (auto simp: block_log_def)
  have "klast ?k R n = (if 0 < n - 1 \<and> row_key (R ! (n - 1)) = ?k then n - 1 else klast ?k R (n - 1))"
    using klast_Suc [of ?k R "n - 1"] m(2) by simp
  also have "\<dots> = (if 0 < n - 2 \<and> row_key (R ! (n - 2)) = ?k then n - 2 else klast ?k R (n - 2))"
    using key(1) klast_Suc [of ?k R "n - 2"] m(2) by (simp add: Suc_diff_Suc numeral_2_eq_2)
  also have "klast ?k R (n - 2) = klast ?k R m"
    by (rule klast_skip) (use m(2) b in \<open>auto simp: block_log_def row_key_def\<close>)
  finally have kl: "klast ?k R n = (if b_Miner b = a then n - 2 else klast ?k R m)"
    using key(2) chain_log_pos [OF m(1)] m(2) by auto
  show ?case
  proof (cases "b_Miner b = a")
    case True
    then show ?thesis using kl b chain_log_pos [OF m(1)] m(2) by (simp add: log_row_defs block_log_def)
  next
    case False
    then show ?thesis using kl Cons.IH [OF m(1)] by (simp add: log_row_defs)
  qed
qed

section \<open>CanMine\<close>

text \<open>Who is barred: a miner whose newest block is fewer than \<open>window\<close> blocks back.\<close>

definition barred :: "net_params \<Rightarrow> int \<Rightarrow> block_info list \<Rightarrow> address \<Rightarrow> bool" where
  "barred np miners bs a \<longleftrightarrow> last_block_of bs a \<noteq> 0 \<and> miners \<noteq> 0 \<and>
     np_Int64 np ''setupfirstblocks'' \<le> int (length bs) \<and>
     int (length bs) - int (last_block_of bs a) \<le> diversity_window np miners - 1"

lemma CanMine_history:
  assumes inv: "perm_inv s bs" and mc: "np_IsProtocolMultichain np" and any: "\<not> np_ANYONE_CAN_MINE np"
  shows "CanMine np s None a =
    (if a \<in> chain_allowed s MC_PTP_MINE \<and> \<not> barred np (int (card (chain_allowed s MC_PTP_MINE))) bs a
     then MC_PTP_MINE else 0)"
proof -
  have good: "perm_wf s" "perm_healthy s" "p_CopiedRow s = 0"
    using perm_inv_good(1) [OF inv] by (simp_all add: perm_good_def)
  have log: "chain_log (db_get (p_Database s)) (p_log s) (ledger_used s) bs" and len: "length bs < 2 ^ 31 - 1"
    and blk: "p_Block s = int (length bs) - 1" and cl: "cleared_ok s" using inv by (simp_all add: perm_inv_def)
  have res: "fst (GetPermission5 s None a MC_PTP_MINE False) = (if a \<in> chain_allowed s MC_PTP_MINE then MC_PTP_MINE else 0)"
    using GetPermissionRow_log(2) [OF good, of _ null_entity a MC_PTP_MINE "ledger_used s" False]
    by (simp add: GetPermission5_def lp_deref_def chain_allowed_def null_entity_def)
  have "shows_log (p_log s) (ledger_used s) (DbKey 0 a MC_PTP_BLOCK_MINER) (snd (GetPermission5 s None a MC_PTP_BLOCK_MINER False))"
    using GetPermissionRow_log(1) [OF good, of _ null_entity a MC_PTP_BLOCK_MINER "ledger_used s" False] miner_log_key [of a]
    by (simp add: GetPermission5_def lp_deref_def null_entity_def)
  then have last: "l_BlockFrom (snd (GetPermission5 s None a MC_PTP_BLOCK_MINER False)) = of_nat (last_block_of bs a)"
    using last_mined_history [OF log, of a] by (simp add: shows_log_def)
  have le: "last_block_of bs a \<le> length bs" using last_block_of_miner(1) [of bs a] by (cases "last_block_of bs a = 0") auto
  then have lt: "last_block_of bs a < 2 ^ 31" using len by simp
  have nb: "next_block s = of_nat (length bs)" using blk by (rule next_block_height)
  have un: "uint (of_nat x :: u32) = int x" if "x < 2 ^ 31" for x
    using that by (simp add: unsigned_of_nat take_bit_int_eq_self take_bit_nat_eq_self_iff of_nat_take_bit)
  have d: "sint (next_block s - of_nat (last_block_of bs a)) = int (length bs) - int (last_block_of bs a)"
    unfolding nb using sint_diff [of "of_nat (last_block_of bs a)" "of_nat (length bs)"] un [OF lt] un [of "length bs"] le len
    by (simp add: word_le_def)
  have z: "(of_nat (last_block_of bs a) :: u32) = 0 \<longleftrightarrow> last_block_of bs a = 0" using of_nat_height_eq [OF lt, of 0] by simp
  have cnt: "p_ClearedMinerCount s = int (card (chain_allowed s MC_PTP_MINE))" using cl by (simp add: cleared_ok_def)
  have "(of_nat (last_block_of bs a) :: u32) \<noteq> 0 \<and>
      IsBarredByDiversity np (next_block s) (of_nat (last_block_of bs a)) (int (card (chain_allowed s MC_PTP_MINE))) \<longleftrightarrow>
      barred np (int (card (chain_allowed s MC_PTP_MINE))) bs a"
    using un [of "length bs"] len by (auto simp: IsBarredByDiversity_def barred_def d [unfolded nb] z nb)
  then show ?thesis
    unfolding CanMine_def Let_def last res cnt using mc any by (simp add: mc_IsNullEntity_def)
qed

text \<open>
  With \<open>n\<close> miners the window is at most \<open>n\<close>, and the blocks in it are fewer than \<open>n\<close>, so one of the
  miners has none of them.
\<close>

theorem some_miner_free:
  assumes fin: "finite A" and ne: "A \<noteq> {}"
  shows "\<exists>a\<in>A. \<not> barred np (int (card A)) bs a"
proof (rule ccontr)
  assume "\<not> ?thesis"
  then have all: "barred np (int (card A)) bs a" if "a \<in> A" for a using that by blast
  have pos: "0 < card A" using fin ne by (simp add: card_gt_0_iff)
  let ?f = "last_block_of bs" and ?W = "{length bs - (card A - 1) ..< length bs}"
  have "?f ` A \<subseteq> ?W"
  proof
    fix h
    assume "h \<in> ?f ` A"
    then obtain a where a: "a \<in> A" "h = ?f a" by blast
    have "int (length bs) - int h \<le> int (card A) - 1" "h \<noteq> 0"
      using all [OF a(1)] diversity_window_le [of "int (card A)" np] pos by (auto simp: barred_def a(2))
    moreover have "h < length bs" using last_block_of_miner(1) [of bs a] \<open>h \<noteq> 0\<close> a(2) by simp
    ultimately show "h \<in> ?W" by auto
  qed
  moreover have "inj_on ?f A"
  proof (rule inj_onI)
    fix a b
    assume ab: "a \<in> A" "b \<in> A" "?f a = ?f b"
    have nz: "?f a \<noteq> 0" "?f b \<noteq> 0" using all [OF ab(1)] all [OF ab(2)] by (simp_all add: barred_def)
    have "b_Miner (block_at bs (?f a)) = a" "b_Miner (block_at bs (?f b)) = b"
      by (rule last_block_of_miner(2) [OF nz(1)], rule last_block_of_miner(2) [OF nz(2)])
    with ab(3) show "a = b" by metis
  qed
  ultimately have "card A \<le> card ?W" using card_inj_on_le [of ?f A ?W] by simp
  also have "\<dots> \<le> card A - 1" by simp
  finally show False using pos by simp
qed

lemma finite_chain_allowed: "perm_wf s \<Longrightarrow> finite (chain_allowed s t)"
proof -
  assume wf: "perm_wf s"
  note rows = perm_wf_length [OF wf]
  have "chain_allowed s t \<subseteq> l_Address ` set (p_log s)"
  proof
    fix a
    let ?k = "DbKey null_entity a t"
    assume "a \<in> chain_allowed s t"
    then have j: "0 < klast ?k (p_log s) (ledger_used s)"
      by (auto simp: chain_allowed_def log_allowed_def log_row_defs split: if_splits)
    then have "l_Address (p_log s ! klast ?k (p_log s) (ledger_used s)) = a"
      using klast_key [of ?k "p_log s" "ledger_used s"] by (simp add: row_key_def)
    moreover have "klast ?k (p_log s) (ledger_used s) < length (p_log s)"
      using klast_less [OF rows(3), of ?k "p_log s"] rows by simp
    ultimately show "a \<in> l_Address ` set (p_log s)" by (metis imageI nth_mem)
  qed
  then show ?thesis using finite_subset by blast
qed

section \<open>An example\<close>

text \<open>On a new node the miner 11 is granted for a thousand blocks and commits the first one.\<close>

lemma ex_chain:
  "\<exists>s. reach ex_np s [\<lparr>b_Miner = 11, b_Hash = 77, b_Governance = governance_block s0\<rparr>] \<and>
     11 \<in> chain_allowed s MC_PTP_MINE"
  if "SetPermission ex_np fresh None 11 MC_PTP_MINE 11 0 1000 1 0 True 0 = Some (MC_ERR_NOERROR, s0)" for s0
proof -
  let ?k = "DbKey 0 11 MC_PTP_MINE"
  have good: "perm_good fresh" using fresh_chain by (simp add: perm_chain_def)
  have r0: "reach ex_np fresh []" by (rule reach_start [OF Initialize_fresh])
  have w: "writable None 11 MC_PTP_MINE"
    using special_entities_distinct by (simp add: writable_def lp_deref_def null_entity_def)
  have r1: "reach ex_np s0 []" by (rule reach_write [OF r0 writes_set [OF writes_refl w that]])
  obtain s' where s': "SetPermissionInternal ex_np fresh None 11 MC_PTP_MINE 11 0 1000 1 0 True 0 = Some (MC_ERR_NOERROR, s')"
    "perm_range s' ?k = (if granted ex_np fresh (new_row fresh None 11 MC_PTP_MINE 11 0 1000 1 0 0 (klast ?k (p_log fresh) (p_Row fresh)))
       then (0, 1000) else perm_range fresh ?k)"
    using SetPermission_one_range [OF good _ _ _ refl, of MC_PTP_MINE ex_np None ?k 11 11 0 1000 1 0 0] w
    by (auto simp: writable_def lp_deref_def null_entity_def set_types_def)
  have "SetPermission ex_np fresh None 11 MC_PTP_MINE 11 0 1000 1 0 True 0 =
      SetPermissionInternal ex_np fresh None 11 MC_PTP_MINE 11 0 1000 1 0 True 0"
    by (simp add: SetPermission_def CanAdmin_def Streams_def ex_np_def)
  then have e: "s' = s0" using s'(1) that by simp
  have "GetAdminCount ex_np fresh = 0" by (simp add: GetAdminCount_def ex_np_def)
  then have "granted ex_np fresh r" for r by (simp add: granted_def AdminConsensus_def)
  then have rg: "perm_range s0 ?k = (0, 1000)" using s'(2) e by simp
  note inv = reach_inv [OF r1]
  obtain s where s: "Commit ex_np s0 (Some 11) 77 = Some (MC_ERR_NOERROR, s)"
    "perm_inv s [\<lparr>b_Miner = 11, b_Hash = 77, b_Governance = governance_block s0\<rparr>]"
    using perm_inv_Commit [OF inv, of 77 ex_np 11] by auto
  have r2: "reach ex_np s [\<lparr>b_Miner = 11, b_Hash = 77, b_Governance = governance_block s0\<rparr>]"
    using reach_commit [OF r1 _ _ s(1)] by simp
  obtain h b1 b2 s2 where c: "Commit ex_np s0 (Some 11) 77 = Some (MC_ERR_NOERROR, s2)" "m_Count (p_MemPool s2) = 0"
    "p_Block s2 = p_Block s0 + 1" "p_log s2 = (p_log s0)[0 := h] @ [with_counts s2 b1, with_counts s2 b2]"
    "block_rows s0 11 77 b1 b2"
    using Commit_parts [OF perm_inv_good(3) [OF inv] _ perm_inv_pool(1) [OF inv], of 77 ex_np 11] by auto
  have e2: "s2 = s" using c(1) s(1) by simp
  have "?k \<notin> row_key ` set [with_counts s b1, with_counts s b2]" using c(5) by (auto simp: block_rows_def)
  from perm_range_frame [OF perm_inv_good(2) [OF inv] perm_inv_good(2) [OF s(2)] c(4) [unfolded e2] this]
  have "perm_range s ?k = (0, 1000)" using rg by simp
  moreover have "p_Block s0 = - 1" using inv by (simp add: perm_inv_def)
  then have "next_block s = 1" using c(3) by (simp add: e2 next_block_def)
  ultimately have "11 \<in> chain_allowed s MC_PTP_MINE"
    using c(2) by (simp add: e2 chain_allowed_empty allowed_set_def log_allowed_def perm_range_def null_entity_def)
  with r2 show ?thesis by blast
qed

lemma ex_chain_exists:
  "\<exists>s g. reach ex_np s [\<lparr>b_Miner = 11, b_Hash = 77, b_Governance = g\<rparr>] \<and> 11 \<in> chain_allowed s MC_PTP_MINE"
proof -
  have good: "perm_good fresh" using fresh_chain by (simp add: perm_chain_def)
  have "lp_deref None \<noteq> adminminerlist_entity" using special_entities_distinct by (simp add: lp_deref_def)
  from SetPermissionInternal_grants [OF good this, of ex_np 11 MC_PTP_MINE 11 0 1000 1 0 True 0]
  obtain s0 where "SetPermission ex_np fresh None 11 MC_PTP_MINE 11 0 1000 1 0 True 0 = Some (MC_ERR_NOERROR, s0)"
    by (auto simp: SetPermission_def CanAdmin_def Streams_def ex_np_def)
  from ex_chain [OF this] show ?thesis by blast
qed

end
