(* ===== verification/Byte_Codec.thy ===== *)
theory Byte_Codec
  imports Amber_Prelude
begin

text \<open>
  Numbers and text as bytes, \<^verbatim>\<open>src/src/utils/utility.cpp\<close>: little-endian integers, variable-length
  integers, hexadecimal, case-insensitive comparison and the splitting of a command line. A pointer
  with a size is the list of the bytes it points to. A C string is the list of its bytes without the
  final zero; reading at the end of the list reads that zero.
\<close>

section \<open>Little-endian integers\<close>

definition mc_PutLE :: "nat \<Rightarrow> 'a::len word \<Rightarrow> u8 list" where
  "mc_PutLE dest_size src = map (\<lambda>i. ucast (drop_bit (8 * i) src)) [0..<dest_size]"

fun le_loop :: "u64 \<Rightarrow> nat \<Rightarrow> u8 list \<Rightarrow> u64" where
  "le_loop result shift [] = result"
| "le_loop result shift (b # bs) = le_loop (result OR push_bit shift (ucast b)) (shift + 8) bs"

definition mc_GetLE :: "u8 list \<Rightarrow> u64" where
  "mc_GetLE src = le_loop 0 0 src"

lemma length_mc_PutLE [simp]: "length (mc_PutLE n w) = n"
  by (simp add: mc_PutLE_def)

lemma mc_PutLE_nth: "i < n \<Longrightarrow> mc_PutLE n w ! i = ucast (drop_bit (8 * i) w)"
  by (simp add: mc_PutLE_def)

lemma bit_le_loop:
  "bit (le_loop r sh bs) n \<longleftrightarrow> bit r n \<or>
     (sh \<le> n \<and> n < 64 \<and> n < sh + 8 * length bs \<and> bit (bs ! ((n - sh) div 8)) ((n - sh) mod 8))"
proof (induction r sh bs rule: le_loop.induct)
  case (1 result shift)
  then show ?case by auto
next
  case (2 r sh b bs)
  consider (low) "n < sh" | (here) "sh \<le> n" "n < sh + 8" | (high) "sh + 8 \<le> n" by linarith
  then show ?case
  proof cases
    case low
    then show ?thesis by (simp add: 2 bit_simps)
  next
    case here
    then have "(n - sh) div 8 = 0" "(n - sh) mod 8 = n - sh" by auto
    with here show ?thesis by (auto simp: 2 bit_simps)
  next
    case high
    have "(n - sh) div 8 = Suc ((n - (sh + 8)) div 8)" "(n - sh) mod 8 = (n - (sh + 8)) mod 8"
      using high by (simp_all add: div_if [of "n - sh"] mod_if [of "n - sh"])
    moreover have "\<not> bit (ucast b :: u64) (n - sh)"
      using high bit_imp_le_length [of b "n - sh"] by (auto simp: bit_simps)
    ultimately show ?thesis using high by (auto simp: 2 bit_simps)
  qed
qed

lemma bit_mc_GetLE:
  "bit (mc_GetLE bs) n \<longleftrightarrow> n < 64 \<and> n < 8 * length bs \<and> bit (bs ! (n div 8)) (n mod 8)"
  by (auto simp: mc_GetLE_def bit_le_loop)

lemma mc_GetLE_PutLE: "mc_GetLE (mc_PutLE n w) = ucast (take_bit (8 * n) w)"
proof (rule bit_word_eqI)
  fix m :: nat
  assume "m < LENGTH(64)"
  moreover have "m div 8 < n" if "m < 8 * n" using that by (simp add: less_mult_imp_div_less mult.commute)
  moreover have "8 * (m div 8) + m mod 8 = m" by simp
  ultimately show "bit (mc_GetLE (mc_PutLE n w)) m = bit (ucast (take_bit (8 * n) w) :: u64) m"
    by (auto simp: bit_mc_GetLE mc_PutLE_nth bit_simps dest: bit_imp_le_length)
qed

lemma mc_GetLE_PutLE_full:
  "LENGTH('a) \<le> 8 * n \<Longrightarrow> mc_GetLE (mc_PutLE n (w :: 'a::len word)) = ucast w"
  by (simp add: mc_GetLE_PutLE take_bit_word_eq_self)

lemma mc_PutLE_GetLE:
  assumes "length bs \<le> 8" and "length bs = n"
  shows "mc_PutLE n (mc_GetLE bs) = bs"
proof (rule nth_equalityI)
  fix i
  assume "i < length (mc_PutLE n (mc_GetLE bs))"
  then have i: "i < length bs" using assms(2) by simp
  have "bit (mc_PutLE n (mc_GetLE bs) ! i) m = bit (bs ! i) m" if "m < 8" for m
    using i assms that by (auto simp: mc_PutLE_nth bit_mc_GetLE bit_simps)
  then show "mc_PutLE n (mc_GetLE bs) ! i = bs ! i" by (intro bit_word_eqI) auto
qed (simp add: assms)

lemma uint_mc_GetLE_less: "uint (mc_GetLE bs) < 2 ^ (8 * length bs)"
proof -
  have "take_bit (8 * length bs) (mc_GetLE bs) = mc_GetLE bs"
    by (rule bit_word_eqI) (auto simp: bit_simps bit_mc_GetLE)
  then have "uint (mc_GetLE bs) = take_bit (8 * length bs) (uint (mc_GetLE bs))"
    by (metis unsigned_take_bit_eq)
  then show ?thesis by (metis take_bit_int_less_exp)
qed

section \<open>Variable-length integers\<close>

definition mc_VarIntSize :: "u8 \<Rightarrow> nat" where
  "mc_VarIntSize byte = (if byte < 0xfd then 0 else if byte = 0xfd then 2 else if byte = 0xfe then 4 else 8)"

text \<open>The value and, when a number has been read, the \<open>shift\<close> to the byte after it.\<close>

definition mc_GetVarInt :: "u8 list \<Rightarrow> u64 \<Rightarrow> u64 \<times> nat option" where
  "mc_GetVarInt buf default_value =
    (if length buf \<le> 0 then (default_value, None)
     else let size = mc_VarIntSize (buf ! 0) in
       if length buf < size + 1 then (default_value, None)
       else (if size = 0 then ucast (buf ! 0) else mc_GetLE (take size (drop 1 buf)), Some (size + 1)))"

text \<open>The bytes written, or \<open>None\<close> for the result -1. The value is an \<open>int64_t\<close>.\<close>

definition mc_PutVarInt :: "int \<Rightarrow> u64 \<Rightarrow> u8 list option" where
  "mc_PutVarInt max_size value =
    (if max_size \<le> 0 then None
     else let (shift, varint_size) =
         (if 0xfd \<le> sint value
          then if 0xffff \<le> sint value
            then if 0xffffffff \<le> sint value then ([0xff], 8) else ([0xfe], 4)
            else ([0xfd], 2)
          else ([], 1))
       in if max_size < int (length shift) + int varint_size then None
          else Some (shift @ mc_PutLE varint_size value))"

lemma ucast_ucast_u8: "ucast (ucast (v :: u64) :: u8) = take_bit 8 v"
  by (rule bit_word_eqI) (auto simp: bit_simps dest: bit_imp_le_length)

lemma take_bit_id_of_uint: "uint (w :: 'a::len word) < 2 ^ n \<Longrightarrow> take_bit n w = w"
  by (rule word_uint_eqI) (simp add: unsigned_take_bit_eq take_bit_int_eq_self)

lemma sint_eq_uint_u64: "0 \<le> sint (v :: u64) \<Longrightarrow> sint v = uint v"
  using take_bit_Suc_from_most [of 63 "uint v"] take_bit_int_eq_self [of "uint v" 64] uint_bounded [of v]
  by (simp add: sint_uint signed_take_bit_nonnegative_iff signed_take_bit_eq_if_positive)

text \<open>The length of the encoding of a number that is not negative.\<close>

definition varint_length :: "int \<Rightarrow> nat" where
  "varint_length v = (if v < 0xfd then 1 else if v < 0xffff then 3 else if v < 0xffffffff then 5 else 9)"

lemma mc_PutVarInt_Some:
  assumes "0 \<le> sint v" and "9 \<le> max_size"
  obtains bs where "mc_PutVarInt max_size v = Some bs" and "length bs = varint_length (sint v)"
    and "\<And>rest d. mc_GetVarInt (bs @ rest) d = (v, Some (length bs))"
proof -
  have u: "sint v = uint v" using assms(1) by (rule sint_eq_uint_u64)
  consider (one) "sint v < 0xfd" | (two) "0xfd \<le> sint v" "sint v < 0xffff"
    | (four) "0xffff \<le> sint v" "sint v < 0xffffffff" | (eight) "0xffffffff \<le> sint v" by linarith
  then show thesis
  proof cases
    case one
    have b: "(ucast v :: u8) < 0xfd" "ucast (ucast v :: u8) = v"
    proof -
      have "uint (ucast v :: u8) = uint v" using one u by (simp add: unsigned_ucast_eq take_bit_int_eq_self)
      then show "(ucast v :: u8) < 0xfd" using one u by (simp add: word_less_def)
      have "take_bit 8 v = v" using one u by (intro take_bit_id_of_uint) simp
      then show "ucast (ucast v :: u8) = v" by (metis ucast_ucast_u8)
    qed
    have e: "mc_PutVarInt max_size v = Some [ucast v]"
      using one assms by (simp add: mc_PutVarInt_def mc_PutLE_def)
    show thesis by (rule that [OF e]) (use one b in \<open>simp_all add: varint_length_def mc_GetVarInt_def mc_VarIntSize_def\<close>)
  next
    case two
    then have "take_bit 16 v = v" using u by (intro take_bit_id_of_uint) simp
    then have g: "mc_GetLE (mc_PutLE 2 v) = v" by (simp add: mc_GetLE_PutLE)
    have e: "mc_PutVarInt max_size v = Some (0xfd # mc_PutLE 2 v)"
      using two assms by (simp add: mc_PutVarInt_def)
    show thesis by (rule that [OF e]) (use two g in \<open>simp_all add: varint_length_def mc_GetVarInt_def mc_VarIntSize_def\<close>)
  next
    case four
    then have "take_bit 32 v = v" using u by (intro take_bit_id_of_uint) simp
    then have g: "mc_GetLE (mc_PutLE 4 v) = v" by (simp add: mc_GetLE_PutLE)
    have e: "mc_PutVarInt max_size v = Some (0xfe # mc_PutLE 4 v)"
      using four assms by (simp add: mc_PutVarInt_def)
    show thesis by (rule that [OF e]) (use four g in \<open>simp_all add: varint_length_def mc_GetVarInt_def mc_VarIntSize_def\<close>)
  next
    case eight
    have g: "mc_GetLE (mc_PutLE 8 v) = v" by (simp add: mc_GetLE_PutLE_full)
    have e: "mc_PutVarInt max_size v = Some (0xff # mc_PutLE 8 v)"
      using eight assms by (simp add: mc_PutVarInt_def)
    show thesis by (rule that [OF e]) (use eight g in \<open>simp_all add: varint_length_def mc_GetVarInt_def mc_VarIntSize_def\<close>)
  qed
qed

lemma mc_GetVarInt_shift:
  "mc_GetVarInt buf d = (v, Some n) \<Longrightarrow> 0 < n \<and> n \<le> 9 \<and> n \<le> length buf"
  by (auto simp: mc_GetVarInt_def mc_VarIntSize_def Let_def split: if_splits)

lemma mc_GetVarInt_None: "mc_GetVarInt buf d = (v, None) \<Longrightarrow> v = d"
  by (auto simp: mc_GetVarInt_def Let_def split: if_splits)

section \<open>Hexadecimal\<close>

text \<open>The table \<^verbatim>\<open>c_IsHexNumeric\<close>: one more than the value of a hexadecimal digit, 0 for other bytes.\<close>

definition c_IsHexNumeric :: "u8 \<Rightarrow> nat" where
  "c_IsHexNumeric c =
    (if 0x30 \<le> c \<and> c \<le> 0x39 then unat (c - 0x30) + 1
     else if 0x41 \<le> c \<and> c \<le> 0x46 then unat (c - 0x41) + 11
     else if 0x61 \<le> c \<and> c \<le> 0x66 then unat (c - 0x61) + 11 else 0)"

text \<open>
  The number of bytes written and the bytes. The digits end with the zero of the C string, which is
  no digit; the code stops there before it reads on.
\<close>

fun hex_loop :: "nat \<Rightarrow> u8 list \<Rightarrow> u8 list" where
  "hex_loop (Suc n) (c # d # src) =
    (if c_IsHexNumeric c = 0 then [] else if c_IsHexNumeric d = 0 then []
     else (of_nat (c_IsHexNumeric c - 1) * 16 + of_nat (c_IsHexNumeric d - 1)) # hex_loop n src)"
| "hex_loop n src = []"

definition mc_HexToBin :: "u8 list \<Rightarrow> nat \<Rightarrow> nat \<times> u8 list" where
  "mc_HexToBin src len = (length (hex_loop len src), hex_loop len src)"

definition hex_char :: "nat \<Rightarrow> u8" where
  "hex_char d = (if d < 10 then 0x30 + of_nat d else 0x61 + of_nat (d - 10))"

text \<open>Every byte is printed with \<open>%02x\<close>.\<close>

definition mc_BinToHex :: "u8 list \<Rightarrow> u8 list" where
  "mc_BinToHex src = concat (map (\<lambda>b. [hex_char (unat b div 16), hex_char (unat b mod 16)]) src)"

lemma IsHexNumeric_hex_char: "d < 16 \<Longrightarrow> c_IsHexNumeric (hex_char d) = Suc d"
proof -
  have "\<forall>d\<in>set [0..<16]. c_IsHexNumeric (hex_char d) = Suc d" by code_simp
  then show "d < 16 \<Longrightarrow> c_IsHexNumeric (hex_char d) = Suc d" by simp
qed

lemma hex_loop_BinToHex: "hex_loop (length bs) (mc_BinToHex bs) = bs"
proof (induction bs)
  case Nil
  then show ?case by (simp add: mc_BinToHex_def)
next
  case (Cons b bs)
  have "unat b < 256" by (simp add: unsigned_less [where 'a = nat and 'b = 8, simplified])
  then have "unat b div 16 < 16" "unat b mod 16 < 16" by auto
  moreover have "of_nat (unat b div 16) * 16 + of_nat (unat b mod 16) = b"
  proof -
    have "of_nat (unat b div 16) * 16 + of_nat (unat b mod 16) = (of_nat (unat b div 16 * 16 + unat b mod 16) :: u8)"
      by (simp only: of_nat_add of_nat_mult of_nat_numeral)
    then show ?thesis by simp
  qed
  ultimately show ?case using Cons by (simp add: mc_BinToHex_def IsHexNumeric_hex_char)
qed

text \<open>What is read is what a second conversion prints, in lower case.\<close>

lemma length_BinToHex: "length (mc_BinToHex bs) = 2 * length bs"
  by (induction bs) (simp_all add: mc_BinToHex_def)

end
