(* ===== verification/Text_Tools.thy ===== *)
theory Text_Tools
  imports Byte_Codec
begin

text \<open>
  Text and list helpers of \<^verbatim>\<open>src/src/utils/utility.cpp\<close>: case, the window of a listing, and the
  splitting of a command line into arguments, which undoes the quoting of the command log.
\<close>

section \<open>Case\<close>

definition lower_char :: "u8 \<Rightarrow> u8" where
  "lower_char c = (if 0x40 < c \<and> c < 0x5b then c + 0x20 else c)"

definition mc_StringLowerCase :: "u8 list \<Rightarrow> nat \<Rightarrow> u8 list" where
  "mc_StringLowerCase buf len = map lower_char (take len buf) @ drop len buf"

text \<open>Whether two characters differ; a lower-case letter equals its upper-case form.\<close>

definition ci_diff :: "u8 \<Rightarrow> u8 \<Rightarrow> bool" where
  "ci_diff c d \<longleftrightarrow> c \<noteq> d \<and> \<not> (0x60 < c \<and> c < 0x7b \<and> c - 0x20 = d) \<and> \<not> (0x60 < d \<and> d < 0x7b \<and> d - 0x20 = c)"

definition mc_StringCompareCaseInsensitive :: "u8 list \<Rightarrow> u8 list \<Rightarrow> nat \<Rightarrow> int" where
  "mc_StringCompareCaseInsensitive str1 str2 len =
    (if list_ex (\<lambda>i. ci_diff (str1 ! i) (str2 ! i)) [0..<len] then 1 else 0)"

lemma lower_char_up: "0x40 < (w :: u8) \<Longrightarrow> w < 0x5b \<Longrightarrow> 0x60 < w + 0x20 \<and> w + 0x20 < 0x7b"
  by unat_arith auto

lemma lower_char_low: "0x60 < (w :: u8) \<Longrightarrow> w < 0x7b \<Longrightarrow> 0x40 < w - 0x20 \<and> w - 0x20 < 0x5b \<and> \<not> w < 0x5b"
  by unat_arith

lemma ci_diff_lower: "ci_diff c d \<longleftrightarrow> lower_char c \<noteq> lower_char d"
  using lower_char_low [of c] lower_char_low [of d] lower_char_up [of c] lower_char_up [of d]
  by (auto simp: ci_diff_def lower_char_def eq_diff_eq diff_eq_eq)

lemma CompareCaseInsensitive_lower:
  assumes "len \<le> length a" and "len \<le> length b"
  shows "mc_StringCompareCaseInsensitive a b len = 0 \<longleftrightarrow> map lower_char (take len a) = map lower_char (take len b)"
  using assms by (auto simp: mc_StringCompareCaseInsensitive_def list_ex_iff ci_diff_lower list_eq_iff_nth_eq)

section \<open>The window of a listing\<close>

text \<open>The adjusted \<open>count\<close> and \<open>start\<close>.\<close>

definition mc_AdjustStartAndCount :: "int \<Rightarrow> int \<Rightarrow> int \<Rightarrow> int \<times> int" where
  "mc_AdjustStartAndCount count start rows =
    (let count = (if count > rows then rows else count);
         start = (if start < 0 then (if start + rows < 0 then 0 else start + rows) else start)
     in (if start > 0 \<and> start + count > rows then rows - start else count, start))"

text \<open>The rows \<open>start\<close> to \<open>start + count - 1\<close> exist, unless the start lies behind the end.\<close>

lemma mc_AdjustStartAndCount_window:
  assumes "0 \<le> count" and "0 \<le> rows" and "mc_AdjustStartAndCount count start rows = (c, s)"
  shows "0 \<le> s" and "s + c \<le> rows" and "start \<le> rows \<Longrightarrow> 0 \<le> c" and "c \<le> count"
  using assms by (auto simp: mc_AdjustStartAndCount_def Let_def split: if_splits)

section \<open>Splitting a command line\<close>

definition isspace :: "u8 \<Rightarrow> bool" where
  "isspace c \<longleftrightarrow> c = 0x20 \<or> 0x09 \<le> c \<and> c \<le> 0x0d"

definition escape_convt :: "u8 \<Rightarrow> u8" where
  "escape_convt c = (if c = 0x61 then 0x07 else if c = 0x62 then 0x08 else if c = 0x74 then 0x09
     else if c = 0x6e then 0x0a else if c = 0x66 then 0x0c else if c = 0x72 then 0x0d else c)"

definition arg_separator :: "u8 \<Rightarrow> bool" where
  "arg_separator c \<longleftrightarrow> c = 0x20 \<or> c = 0x09 \<or> c = 0x0a \<or> c = 0x0c \<or> c = 0x0d \<or> c = 0x08"

text \<open>
  The loop on the rest of the string: the mode (0 plain, 1 in double quotes, 2 in single quotes), the
  number of quotes seen, the argument so far and the number of characters read.
\<close>

fun arg_loop :: "nat \<Rightarrow> nat \<Rightarrow> u8 list \<Rightarrow> nat \<Rightarrow> u8 list \<Rightarrow> nat \<times> nat \<times> u8 list \<times> nat" where
  "arg_loop mode quotes d n [] = (mode, quotes, d, n + 1)"
| "arg_loop mode quotes d n (c # str) =
    (if arg_separator c then
       if mode = 0 then (mode, quotes, d, n + 1) else arg_loop mode quotes (d @ [c]) (n + 1) str
     else if c = 0x5c then
       if mode \<noteq> 2
       then (case str of [] \<Rightarrow> (mode, quotes, d @ [0x5c], n + 2)
         | e # str \<Rightarrow> arg_loop mode quotes (d @ [if mode = 0 then e else escape_convt e]) (n + 2) str)
       else arg_loop mode quotes (d @ [c]) (n + 1) str
     else if c = 0x22 then
       if mode = 0 then arg_loop 1 (quotes + 1) d (n + 1) str
       else if mode = 1 then arg_loop 0 (quotes + 1) d (n + 1) str
       else arg_loop mode quotes (d @ [c]) (n + 1) str
     else if c = 0x27 then
       if mode = 0 then arg_loop 2 (quotes + 1) d (n + 1) str
       else if mode = 1 then arg_loop mode quotes (d @ [c]) (n + 1) str
       else arg_loop 0 (quotes + 1) d (n + 1) str
     else arg_loop mode quotes (d @ [c]) (n + 1) str)"

text \<open>The number of characters read and the argument; \<open>None\<close> is the result -1, an open quote.\<close>

definition mc_StringToArg :: "u8 list \<Rightarrow> (nat \<times> u8 list) option" where
  "mc_StringToArg src =
    (let skip = length (takeWhile isspace src);
         (mode, quotes, d, n) = arg_loop 0 0 [] skip (drop skip src)
     in if mode \<noteq> 0 then None
        else if d = [] \<and> quotes = 0 then Some (0, [])
        else Some (n, d))"

text \<open>How \<^verbatim>\<open>mc_SaveCliCommandToLog\<close> writes an argument.\<close>

definition cli_special :: "u8 \<Rightarrow> bool" where
  "cli_special c \<longleftrightarrow> c = 0x27 \<or> c = 0x22 \<or> c = 0x5c \<or> c = 0x20 \<or> c = 0x09"

definition cli_quote :: "u8 list \<Rightarrow> u8 list" where
  "cli_quote arg =
    (if list_ex cli_special arg then [0x27] else []) @
    concat (map (\<lambda>c. if c = 0x27 then [0x27, 0x5c, 0x27, 0x27] else [c]) arg) @
    (if list_ex cli_special arg then [0x27] else [])"

lemma arg_loop_quoted:
  "\<exists>k. arg_loop 2 (Suc q) d n (concat (map (\<lambda>c. if c = 0x27 then [0x27, 0x5c, 0x27, 0x27] else [c]) arg) @ 0x27 # 0x20 # rest) =
    (0, Suc k, d @ arg, n + length (concat (map (\<lambda>c. if c = 0x27 then [0x27, 0x5c, 0x27, 0x27] else [c]) arg)) + 2)"
proof (induction arg arbitrary: q d n)
  case Nil
  then show ?case by (simp add: arg_separator_def)
next
  case (Cons c arg)
  show ?case
    using Cons [of "Suc (Suc q)" "d @ [c]" "Suc (Suc (Suc (Suc n)))"] Cons [of q "d @ [c]" "Suc n"]
    by (auto simp: arg_separator_def)
qed

lemma arg_loop_plain:
  "\<forall>c\<in>set arg. \<not> arg_separator c \<and> \<not> cli_special c \<Longrightarrow>
    arg_loop 0 q d n (arg @ 0x20 # rest) = (0, q, d @ arg, n + length arg + 1)"
  by (induction arg arbitrary: d n) (auto simp: arg_separator_def cli_special_def)

lemma StringToArg_quote:
  assumes "arg \<noteq> []" and "\<forall>c\<in>set arg. c \<notin> {0x08, 0x0a, 0x0b, 0x0c, 0x0d}"
  shows "mc_StringToArg (cli_quote arg @ 0x20 # rest) = Some (length (cli_quote arg) + 1, arg)"
proof (cases "list_ex cli_special arg")
  case True
  obtain k where "arg_loop 2 (Suc 0) [] (Suc 0) (concat (map (\<lambda>c. if c = 0x27 then [0x27, 0x5c, 0x27, 0x27] else [c]) arg) @ 0x27 # 0x20 # rest) =
    (0, Suc k, arg, Suc 0 + length (concat (map (\<lambda>c. if c = 0x27 then [0x27, 0x5c, 0x27, 0x27] else [c]) arg)) + 2)"
    using arg_loop_quoted [of 0 "[]" "Suc 0"] by auto
  with True show ?thesis
    by (simp add: mc_StringToArg_def cli_quote_def isspace_def arg_separator_def)
next
  case False
  then have plain: "\<forall>c\<in>set arg. \<not> arg_separator c \<and> \<not> cli_special c"
    using assms(2) by (auto simp: list_ex_iff arg_separator_def cli_special_def)
  then have q: "cli_quote arg = arg"
    using False by (simp add: cli_quote_def) (induction arg; auto simp: cli_special_def)
  have "\<not> isspace (hd arg)"
  proof -
    have "hd arg \<in> set arg" using assms(1) by simp
    then have n: "hd arg \<notin> {0x08, 0x0a, 0x0b, 0x0c, 0x0d}" "hd arg \<noteq> 0x20" "hd arg \<noteq> 0x09"
      using assms(2) plain by (auto simp: cli_special_def)
    have "c = 0x09 \<or> c = 0x0a \<or> c = 0x0b \<or> c = 0x0c \<or> c = 0x0d" if "0x09 \<le> c" "c \<le> 0x0d" for c :: u8
      using that by unat_arith
    with n show ?thesis by (auto simp: isspace_def)
  qed
  then have "takeWhile isspace (arg @ 0x20 # rest) = []"
    using assms(1) by (cases arg) simp_all
  then show ?thesis
    using arg_loop_plain [OF plain, of 0 "[]" 0 rest] assms(1) by (simp add: mc_StringToArg_def q)
qed

end
