(* ===== verification/Script_State.thy ===== *)
theory Script_State
  imports Byte_Codec
begin

text \<open>
  The buffer of script elements \<^verbatim>\<open>mc_Script\<close>, \<^verbatim>\<open>src/src/protocol/multichainscript.h\<close> and
  \<^verbatim>\<open>.cpp\<close>: one array of bytes and an array of coordinates, the offset and the size of each
  element. Both arrays are functions from positions to contents, since the code writes to them by
  position; a write outside would go unnoticed there, so that \<open>script_ok\<close> keeps every element inside the
  allocated part. Allocation is assumed to succeed, and then the calls that only extend the script
  return no error; they are functions to the new state. The abstract view is \<open>elements\<close>, the list of the
  contents of the elements.
\<close>

section \<open>The state\<close>

record mc_Script =
  sc_Size :: nat
  sc_NumElements :: int
  sc_CurrentElement :: int
  sc_lpData :: "nat \<Rightarrow> u8"
  sc_lpCoord :: "int \<Rightarrow> nat \<times> nat"
  sc_AllocElements :: int
  sc_AllocSize :: nat
  sc_ScriptType :: u32

abbreviation (input) MC_DCT_SCRIPT_TYPE_REGULAR :: u32 where "MC_DCT_SCRIPT_TYPE_REGULAR \<equiv> 0x00"
abbreviation (input) MC_DCT_SCRIPT_TYPE_OP_RETURN :: u32 where "MC_DCT_SCRIPT_TYPE_OP_RETURN \<equiv> 0x01"
abbreviation (input) MC_DCT_SCRIPT_TYPE_OP_DROP :: u32 where "MC_DCT_SCRIPT_TYPE_OP_DROP \<equiv> 0x02"
abbreviation (input) MC_DCT_SCRIPT_TYPE_DIRTY_OP_RETURN :: u32 where "MC_DCT_SCRIPT_TYPE_DIRTY_OP_RETURN \<equiv> 0x04"

text \<open>Memory, by position.\<close>

definition mem_get :: "(nat \<Rightarrow> u8) \<Rightarrow> nat \<Rightarrow> nat \<Rightarrow> u8 list" where
  "mem_get m off n = map m [off..<off + n]"

definition mem_put :: "(nat \<Rightarrow> u8) \<Rightarrow> nat \<Rightarrow> u8 list \<Rightarrow> nat \<Rightarrow> u8" where
  "mem_put m off bs = (\<lambda>i. if off \<le> i \<and> i < off + length bs then bs ! (i - off) else m i)"

section \<open>The operations\<close>

definition script_Zero :: mc_Script where
  "script_Zero = \<lparr>sc_Size = 0, sc_NumElements = 0, sc_CurrentElement = -1, sc_lpData = (\<lambda>_. 0),
     sc_lpCoord = (\<lambda>_. (0, 0)), sc_AllocElements = 0, sc_AllocSize = 0,
     sc_ScriptType = MC_DCT_SCRIPT_TYPE_REGULAR\<rparr>"

text \<open>The two loops that find the next size: chunks are added until the need is met.\<close>

function grow_size :: "nat \<Rightarrow> nat \<Rightarrow> nat" where
  "grow_size need NewSize = (if need > NewSize then grow_size need (NewSize + 4096) else NewSize)"
  by pat_completeness auto
termination by (relation "measure (\<lambda>(need, NewSize). need - NewSize)") auto

function grow_elements :: "int \<Rightarrow> int \<Rightarrow> int" where
  "grow_elements need NewSize = (if need > NewSize then grow_elements need (NewSize + 16) else NewSize)"
  by pat_completeness auto
termination by (relation "measure (\<lambda>(need, NewSize). nat (need - NewSize))") auto

declare grow_size.simps [simp del] grow_elements.simps [simp del]

text \<open>New memory is zeroed and gets a copy of what is in use.\<close>

definition script_Resize :: "nat \<Rightarrow> int \<Rightarrow> mc_Script \<Rightarrow> mc_Script" where
  "script_Resize bytes elems s =
    (let NewSize = grow_size (sc_Size s + bytes) (sc_AllocSize s);
         s = (if NewSize > sc_AllocSize s
              then s\<lparr>sc_lpData := (\<lambda>i. if i < sc_Size s then sc_lpData s i else 0), sc_AllocSize := NewSize\<rparr>
              else s);
         NewElems = grow_elements (sc_NumElements s + elems) (sc_AllocElements s)
     in if NewElems > sc_AllocElements s
        then s\<lparr>sc_lpCoord := (\<lambda>i. if 0 \<le> i \<and> i < sc_NumElements s then sc_lpCoord s i else (0, 0)),
               sc_AllocElements := NewElems\<rparr>
        else s)"

definition script_Clear :: "mc_Script \<Rightarrow> mc_Script" where
  "script_Clear s = s\<lparr>sc_Size := 0, sc_NumElements := 0, sc_CurrentElement := -1,
     sc_ScriptType := MC_DCT_SCRIPT_TYPE_REGULAR\<rparr>"

definition script_AddElement :: "mc_Script \<Rightarrow> mc_Script" where
  "script_AddElement s0 =
    (let s = script_Resize 0 1 s0; c = sc_CurrentElement s + 1
     in s\<lparr>sc_NumElements := sc_NumElements s + 1, sc_CurrentElement := c,
          sc_lpCoord := (sc_lpCoord s)(c := (sc_Size s, 0))\<rparr>)"

definition script_SetElement :: "int \<Rightarrow> mc_Script \<Rightarrow> int \<times> mc_Script" where
  "script_SetElement element s =
    (if element \<ge> sc_NumElements s then (MC_ERR_INVALID_PARAMETER_VALUE, s)
     else (MC_ERR_NOERROR, s\<lparr>sc_CurrentElement := element\<rparr>))"

text \<open>Size and content of the current element.\<close>

definition cur_size :: "mc_Script \<Rightarrow> nat" where
  "cur_size s = snd (sc_lpCoord s (sc_CurrentElement s))"

definition cur_data :: "mc_Script \<Rightarrow> u8 list" where
  "cur_data s = mem_get (sc_lpData s) (fst (sc_lpCoord s (sc_CurrentElement s))) (cur_size s)"

definition script_GetData :: "int \<Rightarrow> mc_Script \<Rightarrow> u8 list option \<times> mc_Script" where
  "script_GetData element s =
    (if element \<ge> sc_NumElements s then (None, s)
     else let s = s\<lparr>sc_CurrentElement := element\<rparr> in (Some (cur_data s), s))"

definition script_SetData :: "u8 list \<Rightarrow> mc_Script \<Rightarrow> mc_Script" where
  "script_SetData src s0 =
    (let s = script_Resize (length src) 0 s0; (off, n) = sc_lpCoord s (sc_CurrentElement s)
     in if src \<noteq> []
        then s\<lparr>sc_lpData := mem_put (sc_lpData s) (off + n) src,
               sc_lpCoord := (sc_lpCoord s)(sc_CurrentElement s := (off, n + length src)),
               sc_Size := sc_Size s + length src\<rparr>
        else s)"

definition script_IsOpReturnScript :: "mc_Script \<Rightarrow> bool" where
  "script_IsOpReturnScript s \<longleftrightarrow> sc_ScriptType s AND MC_DCT_SCRIPT_TYPE_OP_RETURN \<noteq> 0"

definition script_IsDirtyOpReturnScript :: "mc_Script \<Rightarrow> bool" where
  "script_IsDirtyOpReturnScript s \<longleftrightarrow> sc_ScriptType s AND MC_DCT_SCRIPT_TYPE_DIRTY_OP_RETURN \<noteq> 0"

section \<open>The invariant and the abstract view\<close>

definition script_ok :: "mc_Script \<Rightarrow> bool" where
  "script_ok s \<longleftrightarrow> 0 \<le> sc_NumElements s \<and> -1 \<le> sc_CurrentElement s \<and> sc_CurrentElement s < sc_NumElements s \<and>
     sc_NumElements s \<le> sc_AllocElements s \<and> sc_Size s \<le> sc_AllocSize s \<and>
     (\<forall>i. 0 \<le> i \<and> i < sc_NumElements s \<longrightarrow> fst (sc_lpCoord s i) + snd (sc_lpCoord s i) \<le> sc_Size s)"

text \<open>The current element is the last one, and it ends where the data ends: the state of a script that is
  being built.\<close>

definition at_end :: "mc_Script \<Rightarrow> bool" where
  "at_end s \<longleftrightarrow> sc_CurrentElement s = sc_NumElements s - 1 \<and>
     (0 < sc_NumElements s \<longrightarrow>
       fst (sc_lpCoord s (sc_CurrentElement s)) + snd (sc_lpCoord s (sc_CurrentElement s)) = sc_Size s)"

definition elem_at :: "mc_Script \<Rightarrow> int \<Rightarrow> u8 list" where
  "elem_at s i = mem_get (sc_lpData s) (fst (sc_lpCoord s i)) (snd (sc_lpCoord s i))"

definition elements :: "mc_Script \<Rightarrow> u8 list list" where
  "elements s = map (\<lambda>i. elem_at s (int i)) [0..<nat (sc_NumElements s)]"

named_theorems script_simps

lemma length_mem_get [simp]: "length (mem_get m off n) = n"
  by (simp add: mem_get_def)

lemma mem_get_0 [simp]: "mem_get m off 0 = []"
  by (simp add: mem_get_def)

lemma mem_get_cong: "(\<And>i. off \<le> i \<Longrightarrow> i < off + n \<Longrightarrow> m i = m' i) \<Longrightarrow> mem_get m off n = mem_get m' off n"
  by (simp add: mem_get_def)

lemma mem_get_put_below: "off + n \<le> pos \<Longrightarrow> mem_get (mem_put m pos bs) off n = mem_get m off n"
  by (rule mem_get_cong) (simp add: mem_put_def)

lemma mem_get_put_append:
  "mem_get (mem_put m (off + n) bs) off (n + length bs) = mem_get m off n @ bs"
proof -
  have "map (mem_put m (off + n) bs) [off + n..<off + n + length bs] = bs"
    by (rule nth_equalityI) (auto simp: mem_put_def)
  moreover have "map (mem_put m (off + n) bs) [off..<off + n] = map m [off..<off + n]"
    by (simp add: mem_put_def)
  moreover have "[off..<off + (n + length bs)] = [off..<off + n] @ [off + n..<off + n + length bs]"
    using upt_add_eq_append [of off "off + n" "length bs"] by (simp add: add.assoc)
  ultimately show ?thesis by (simp add: mem_get_def)
qed

lemma grow_size_enough: "need \<le> grow_size need n \<and> n \<le> grow_size need n"
proof (induction need n rule: grow_size.induct)
  case (1 need n)
  then show ?case by (subst (1 2) grow_size.simps) auto
qed

lemma grow_elements_enough: "need \<le> grow_elements need n \<and> n \<le> grow_elements need n"
proof (induction need n rule: grow_elements.induct)
  case (1 need n)
  then show ?case by (subst (1 2) grow_elements.simps) auto
qed

lemma Resize_fields [simp]:
  "sc_Size (script_Resize b e s) = sc_Size s"
  "sc_NumElements (script_Resize b e s) = sc_NumElements s"
  "sc_CurrentElement (script_Resize b e s) = sc_CurrentElement s"
  "sc_ScriptType (script_Resize b e s) = sc_ScriptType s"
  "i < sc_Size s \<Longrightarrow> sc_lpData (script_Resize b e s) i = sc_lpData s i"
  "0 \<le> j \<Longrightarrow> j < sc_NumElements s \<Longrightarrow> sc_lpCoord (script_Resize b e s) j = sc_lpCoord s j"
  by (simp_all add: script_Resize_def Let_def)

lemma Resize_alloc:
  "sc_Size s + b \<le> sc_AllocSize (script_Resize b e s)"
  "sc_NumElements s + e \<le> sc_AllocElements (script_Resize b e s)"
  "sc_AllocSize s \<le> sc_AllocSize (script_Resize b e s)"
  "sc_AllocElements s \<le> sc_AllocElements (script_Resize b e s)"
  using grow_size_enough [of "sc_Size s + b" "sc_AllocSize s"]
    grow_elements_enough [of "sc_NumElements s + e" "sc_AllocElements s"]
  by (auto simp: script_Resize_def Let_def)

lemma script_okD:
  assumes "script_ok s"
  shows "0 \<le> sc_NumElements s" "-1 \<le> sc_CurrentElement s" "sc_CurrentElement s < sc_NumElements s"
    "sc_NumElements s \<le> sc_AllocElements s" "sc_Size s \<le> sc_AllocSize s"
    "0 \<le> i \<Longrightarrow> i < sc_NumElements s \<Longrightarrow> fst (sc_lpCoord s i) + snd (sc_lpCoord s i) \<le> sc_Size s"
  using assms by (auto simp: script_ok_def)

lemma elem_at_Resize [simp]:
  "script_ok s \<Longrightarrow> 0 \<le> i \<Longrightarrow> i < sc_NumElements s \<Longrightarrow> elem_at (script_Resize b e s) i = elem_at s i"
  using script_okD(6) [of s i] by (auto simp: elem_at_def intro!: mem_get_cong)

lemma length_elements [simp]: "length (elements s) = nat (sc_NumElements s)"
  by (simp add: elements_def)

lemma elements_nth: "i < nat (sc_NumElements s) \<Longrightarrow> elements s ! i = elem_at s (int i)"
  by (simp add: elements_def)

lemma script_Zero_ok [simp]: "script_ok script_Zero" "at_end script_Zero" "elements script_Zero = []"
  by (simp_all add: script_Zero_def script_ok_def at_end_def elements_def)

lemma Clear_ok [simp]:
  "script_ok s \<Longrightarrow> script_ok (script_Clear s)" "at_end (script_Clear s)" "elements (script_Clear s) = []"
  by (auto simp: script_Clear_def script_ok_def at_end_def elements_def)

lemma AddElement_ok:
  assumes "script_ok s" and "sc_CurrentElement s = sc_NumElements s - 1"
  shows "script_ok (script_AddElement s)" "at_end (script_AddElement s)"
    "elements (script_AddElement s) = elements s @ [[]]"
    "0 < sc_NumElements (script_AddElement s)"
    "sc_ScriptType (script_AddElement s) = sc_ScriptType s"
proof -
  note d = script_okD [OF assms(1)]
  show "script_ok (script_AddElement s)"
    using d Resize_alloc [where s = s and b = 0 and e = 1] assms(2)
    by (auto simp: script_ok_def script_AddElement_def Let_def)
  show "at_end (script_AddElement s)" "0 < sc_NumElements (script_AddElement s)"
    "sc_ScriptType (script_AddElement s) = sc_ScriptType s"
    using d assms(2) by (auto simp: at_end_def script_AddElement_def Let_def)
  have "elem_at (script_AddElement s) i = elem_at s i" if "0 \<le> i" "i < sc_NumElements s" for i
    using elem_at_Resize [OF assms(1) that, of 0 1] that assms(2)
    by (simp add: elem_at_def script_AddElement_def Let_def)
  moreover have "elem_at (script_AddElement s) (sc_NumElements s) = []"
    using assms(2) by (simp add: elem_at_def script_AddElement_def Let_def)
  moreover have "nat (sc_NumElements (script_AddElement s)) = Suc (nat (sc_NumElements s))"
    using d(1) by (simp add: script_AddElement_def Let_def nat_add_distrib)
  ultimately show "elements (script_AddElement s) = elements s @ [[]]"
    using d(1) by (auto simp: elements_def intro!: map_cong)
qed

lemma SetData_ok:
  assumes "script_ok s" and "at_end s" and "0 < sc_NumElements s"
  shows "script_ok (script_SetData bs s)" "at_end (script_SetData bs s)"
    "elements (script_SetData bs s) = butlast (elements s) @ [last (elements s) @ bs]"
    "0 < sc_NumElements (script_SetData bs s)" "sc_ScriptType (script_SetData bs s) = sc_ScriptType s"
proof -
  note d = script_okD [OF assms(1)]
  obtain off n where c: "sc_lpCoord s (sc_NumElements s - 1) = (off, n)" by fastforce
  have cur: "sc_CurrentElement s = sc_NumElements s - 1" and fin: "off + n = sc_Size s"
    using assms(2,3) c by (auto simp: at_end_def)
  have num: "sc_NumElements (script_SetData bs s) = sc_NumElements s"
    and cur': "sc_CurrentElement (script_SetData bs s) = sc_NumElements s - 1"
    using cur by (simp_all add: script_SetData_def Let_def split: prod.split)
  show "script_ok (script_SetData bs s)"
    using d Resize_alloc [where s = s and b = "length bs" and e = 0] cur c fin assms(3)
    by (auto simp: script_ok_def script_SetData_def Let_def intro: trans_le_add1)
  show "at_end (script_SetData bs s)" "0 < sc_NumElements (script_SetData bs s)"
    "sc_ScriptType (script_SetData bs s) = sc_ScriptType s"
    using num cur c fin assms(3) by (auto simp: at_end_def script_SetData_def Let_def)
  have old: "elem_at (script_SetData bs s) i = elem_at s i" if "0 \<le> i" "i < sc_NumElements s - 1" for i
    using elem_at_Resize [OF assms(1), of i "length bs" 0] that cur c fin d(6) [of i] assms(3)
    by (auto simp: elem_at_def script_SetData_def Let_def mem_get_put_below)
  have new: "elem_at (script_SetData bs s) (sc_NumElements s - 1) = elem_at s (sc_NumElements s - 1) @ bs"
  proof -
    have "mem_get (sc_lpData (script_Resize (length bs) 0 s)) off n = mem_get (sc_lpData s) off n"
      using fin by (intro mem_get_cong) simp
    then show ?thesis
      using cur c assms(3) by (auto simp: elem_at_def script_SetData_def Let_def mem_get_put_append)
  qed
  have split: "elements t = map (\<lambda>i. elem_at t (int i)) [0..<nat (sc_NumElements s - 1)] @ [elem_at t (sc_NumElements s - 1)]"
    if "sc_NumElements t = sc_NumElements s" for t
  proof -
    have "nat (sc_NumElements s) = Suc (nat (sc_NumElements s - 1))" using assms(3) by simp
    then show ?thesis using that assms(3) by (simp add: elements_def)
  qed
  show "elements (script_SetData bs s) = butlast (elements s) @ [last (elements s) @ bs]"
    using split [OF num] split [OF refl] old new by auto
qed

text \<open>An element that is added with its content, in one or more pieces.\<close>

lemmas script_building = AddElement_ok SetData_ok at_end_def [THEN iffD1, THEN conjunct1]

lemma cur_data_nth:
  assumes "0 \<le> sc_CurrentElement s" and "sc_CurrentElement s < sc_NumElements s"
  shows "cur_data s = elements s ! nat (sc_CurrentElement s)" "cur_size s = length (cur_data s)"
  using assms by (simp_all add: cur_data_def cur_size_def elements_def elem_at_def)

lemma SetElement_frame:
  assumes "i < sc_NumElements s" and "0 \<le> i" and "script_ok s" and "script_SetElement i s = (err, s')"
  shows "err = MC_ERR_NOERROR" "script_ok s'" "elements s' = elements s" "cur_data s' = elements s ! nat i"
    "sc_CurrentElement s' = i" "sc_NumElements s' = sc_NumElements s"
  using assms
  by (auto simp: script_SetElement_def script_ok_def elements_def elem_at_def cur_data_def cur_size_def)

lemma GetData_frame:
  assumes "i < sc_NumElements s" and "0 \<le> i" and "script_ok s" and "script_GetData i s = (d, s')"
  shows "d = Some (elements s ! nat i)" "script_ok s'" "elements s' = elements s" "sc_CurrentElement s' = i"
  using assms
  by (auto simp: script_GetData_def script_ok_def elements_def elem_at_def cur_data_def cur_size_def Let_def)

end
