(* ===== verification/Script_Details.thy ===== *)
theory Script_Details
  imports Script_State Text_Tools
begin

text \<open>
  The details of an asset or stream, \<^verbatim>\<open>src/src/protocol/multichainscript.cpp\<close>: a sequence of parameters,
  each a name, the size of its value and the value. A name is a zero-terminated string, or a zero byte and
  a code for the special parameters. Offsets are \<open>uint32_t\<close>. The loops take fuel; a script shorter than
  \<open>2 ^ 30\<close> bytes needs no more than its length plus one, because every parameter that is accepted moves the offset up.
\<close>

section \<open>Writing\<close>

text \<open>\<^verbatim>\<open>mc_PutVarInt\<close> into the 16 bytes of a local buffer; it fits (\<open>varint_of_Some\<close>).\<close>

definition varint_of :: "u64 \<Rightarrow> u8 list" where
  "varint_of v = (case mc_PutVarInt 16 v of Some bs \<Rightarrow> bs | None \<Rightarrow> [])"

definition script_SetSpecialParamValue :: "u8 \<Rightarrow> u8 list \<Rightarrow> mc_Script \<Rightarrow> mc_Script" where
  "script_SetSpecialParamValue param param_value s =
    script_SetData param_value
      (script_SetData (varint_of (of_nat (length param_value)))
        (script_SetData [0x00, param] s))"

definition script_SetParamValue :: "u8 list \<Rightarrow> u8 list \<Rightarrow> mc_Script \<Rightarrow> mc_Script" where
  "script_SetParamValue param_name param_value s =
    script_SetData param_value
      (script_SetData (varint_of (of_nat (length param_value)))
        (script_SetData [0x00] (script_SetData param_name s)))"

section \<open>Reading\<close>

definition c_strlen :: "u8 list \<Rightarrow> nat" where
  "c_strlen p = length (takeWhile (\<lambda>c. c \<noteq> 0) p)"

text \<open>The size of a name with its end: two bytes for a special parameter.\<close>

definition name_size_at :: "u8 list \<Rightarrow> nat" where
  "name_size_at p = (if hd p = 0x00 then 2 else c_strlen p + 1)"

text \<open>
  The offset after the parameter, where the value starts (0 when there is none), the size of the value,
  and the error. The size is left unset by the code when there is no value, here 0. \<open>int\<close> variables wrap
  at 32 bits.
\<close>

definition mc_GetParamFromDetailsScript :: "u8 list \<Rightarrow> u32 \<Rightarrow> u32 \<Rightarrow> u32 \<times> u32 \<times> nat \<times> int" where
  "mc_GetParamFromDetailsScript ptr tot offset =
    (if offset \<ge> tot
     then (tot, 0, 0, if offset > tot then MC_ERR_ERROR_IN_SCRIPT else MC_ERR_NOERROR)
     else
       let p = drop (unat offset) ptr;
           name_size = name_size_at p
       in if offset + of_nat name_size \<ge> tot then (tot, 0, 0, MC_ERR_ERROR_IN_SCRIPT)
       else
         let (v, shift) = mc_GetVarInt (take (unat (tot - offset - of_nat name_size)) (drop name_size p)) (-1);
             value_size = to_i32 (sint v);
             n = (case shift of None \<Rightarrow> 0 | Some n \<Rightarrow> n)
         in if value_size < 0 then (tot, 0, 0, MC_ERR_ERROR_IN_SCRIPT)
         else
           let len = to_i32 (int name_size + int n + value_size)
           in if offset + of_int len > tot then (tot, 0, 0, MC_ERR_ERROR_IN_SCRIPT)
           else (offset + of_int len, offset + of_nat name_size + of_nat n, nat value_size, MC_ERR_NOERROR))"

text \<open>Where the value starts and its size; the end of the script when the parameter is not there.\<close>

fun find_special_loop :: "nat \<Rightarrow> u8 list \<Rightarrow> u32 \<Rightarrow> u8 \<Rightarrow> u32 \<Rightarrow> (u32 \<times> nat option) option" where
  "find_special_loop 0 ptr tot param offset = None"
| "find_special_loop (Suc fuel) ptr tot param offset =
    (if offset < tot
     then let (new_offset, value_offset, value_size, err) = mc_GetParamFromDetailsScript ptr tot offset
       in if value_offset > 0 \<and> ptr ! unat offset = 0 \<and> ptr ! (unat offset + 1) = param
          then Some (value_offset, Some value_size)
          else find_special_loop fuel ptr tot param new_offset
     else Some (tot, None))"

definition mc_FindSpecialParamInDetailsScript :: "u8 list \<Rightarrow> u32 \<Rightarrow> (u32 \<times> nat option) option" where
  "mc_FindSpecialParamInDetailsScript ptr param =
    find_special_loop (length ptr + 1) ptr (of_nat (length ptr)) (ucast param) 0"

fun find_named_loop :: "nat \<Rightarrow> u8 list \<Rightarrow> u32 \<Rightarrow> u8 list \<Rightarrow> u32 \<Rightarrow> (u32 \<times> nat option) option" where
  "find_named_loop 0 ptr tot param offset = None"
| "find_named_loop (Suc fuel) ptr tot param offset =
    (if offset < tot
     then let (new_offset, value_offset, value_size, err) = mc_GetParamFromDetailsScript ptr tot offset;
           p = drop (unat offset) ptr
       in if value_offset > 0 \<and> hd p \<noteq> 0 \<and> length param = c_strlen p \<and>
            mc_StringCompareCaseInsensitive param p (length param) = 0
          then Some (value_offset, Some value_size)
          else find_named_loop fuel ptr tot param new_offset
     else Some (tot, None))"

definition mc_FindNamedParamInDetailsScript :: "u8 list \<Rightarrow> u8 list \<Rightarrow> (u32 \<times> nat option) option" where
  "mc_FindNamedParamInDetailsScript ptr param =
    find_named_loop (length ptr + 1) ptr (of_nat (length ptr)) param 0"

fun verify_loop :: "nat \<Rightarrow> u8 list \<Rightarrow> u32 \<Rightarrow> u32 \<Rightarrow> int option" where
  "verify_loop 0 ptr tot offset = None"
| "verify_loop (Suc fuel) ptr tot offset =
    (if offset < tot
     then let (new_offset, value_start, bytes, err) = mc_GetParamFromDetailsScript ptr tot offset
       in if err \<noteq> MC_ERR_NOERROR then Some err else verify_loop fuel ptr tot new_offset
     else Some MC_ERR_NOERROR)"

definition mc_VerifyDetailsScript :: "u8 list \<Rightarrow> int option" where
  "mc_VerifyDetailsScript script = verify_loop (length script + 1) script (of_nat (length script)) 0"

section \<open>The encoding\<close>

datatype param = Special u8 "u8 list" | Named "u8 list" "u8 list"

fun param_ok :: "param \<Rightarrow> bool" where
  "param_ok (Special c v) \<longleftrightarrow> length v < 2 ^ 30"
| "param_ok (Named n v) \<longleftrightarrow> n \<noteq> [] \<and> 0 \<notin> set n \<and> length v < 2 ^ 30"

fun param_name :: "param \<Rightarrow> u8 list" where
  "param_name (Special c v) = [0x00, c]"
| "param_name (Named n v) = n @ [0x00]"

fun param_value :: "param \<Rightarrow> u8 list" where
  "param_value (Special c v) = v"
| "param_value (Named n v) = v"

definition param_head :: "param \<Rightarrow> u8 list" where
  "param_head q = param_name q @ varint_of (of_nat (length (param_value q)))"

definition encode_param :: "param \<Rightarrow> u8 list" where
  "encode_param q = param_head q @ param_value q"

definition encode_params :: "param list \<Rightarrow> u8 list" where
  "encode_params qs = concat (map encode_param qs)"

definition put_param :: "param \<Rightarrow> mc_Script \<Rightarrow> mc_Script" where
  "put_param q s = (case q of Special c v \<Rightarrow> script_SetSpecialParamValue c v s | Named n v \<Rightarrow> script_SetParamValue n v s)"

lemma SetData_twice:
  assumes "script_ok s" and "at_end s" and "0 < sc_NumElements s"
    and "script_ok t" and "at_end t" and "0 < sc_NumElements t"
    and "elements t = butlast (elements s) @ [last (elements s) @ as]"
  shows "elements (script_SetData bs t) = butlast (elements s) @ [last (elements s) @ as @ bs]"
  using SetData_ok(3) [OF assms(4-6)] assms(7) by simp

lemma put_param_ok:
  assumes "script_ok s" and "at_end s" and "0 < sc_NumElements s"
  shows "script_ok (put_param q s)" "at_end (put_param q s)" "0 < sc_NumElements (put_param q s)"
    "elements (put_param q s) = butlast (elements s) @ [last (elements s) @ encode_param q]"
  by (cases q; simp add: put_param_def script_SetSpecialParamValue_def script_SetParamValue_def SetData_ok assms
      encode_param_def param_head_def)+

lemma varint_of_Some:
  assumes "n < 2 ^ 63"
  shows "mc_GetVarInt (varint_of (of_nat n) @ rest) d = (of_nat n, Some (length (varint_of (of_nat n))))"
    and "0 < length (varint_of (of_nat n))" and "length (varint_of (of_nat n)) \<le> 9"
proof -
  have "sint (of_nat n :: u64) = int n"
    using assms by (simp add: sint_uint unsigned_of_nat take_bit_nat_eq_self signed_take_bit_int_eq_self)
  then have pos: "0 \<le> sint (of_nat n :: u64)" by simp
  obtain bs where "mc_PutVarInt 16 (of_nat n) = Some bs" "length bs = varint_length (sint (of_nat n :: u64))"
    and "\<And>rest d. mc_GetVarInt (bs @ rest) d = (of_nat n, Some (length bs))"
    using mc_PutVarInt_Some [OF pos, of 16] by auto
  then show "mc_GetVarInt (varint_of (of_nat n) @ rest) d = (of_nat n, Some (length (varint_of (of_nat n))))"
    and "0 < length (varint_of (of_nat n))" and "length (varint_of (of_nat n)) \<le> 9"
    by (auto simp: varint_of_def varint_length_def)
qed

section \<open>Without wrap-around\<close>

text \<open>In a short script no offset wraps: the same reading in natural numbers.\<close>

definition get_param :: "u8 list \<Rightarrow> nat \<Rightarrow> (nat \<times> nat \<times> nat) option" where
  "get_param ptr i =
    (let name_size = name_size_at (drop i ptr)
     in if i + name_size \<ge> length ptr then None
     else
       let (v, shift) = mc_GetVarInt (drop (i + name_size) ptr) (-1);
           value_size = to_i32 (sint v);
           n = (case shift of None \<Rightarrow> 0 | Some n \<Rightarrow> n)
       in if value_size < 0 then None
       else if i + name_size + n + nat value_size > length ptr then None
       else Some (i + name_size + n + nat value_size, i + name_size + n, nat value_size))"

lemma u32_of_nat [simp]: "n < 2 ^ 32 \<Longrightarrow> unat (of_nat n :: u32) = n"
  by (simp add: unsigned_of_nat take_bit_nat_eq_self)

lemma u32_le: "m < 2 ^ 32 \<Longrightarrow> n < 2 ^ 32 \<Longrightarrow> (of_nat m :: u32) \<le> of_nat n \<longleftrightarrow> m \<le> n"
  by (simp add: word_le_nat_alt)

lemma u32_less: "m < 2 ^ 32 \<Longrightarrow> n < 2 ^ 32 \<Longrightarrow> (of_nat m :: u32) < of_nat n \<longleftrightarrow> m < n"
  by (simp add: word_less_nat_alt)

lemma of_int_to_i32: "(of_int (to_i32 x) :: u32) = of_int x"
  by (simp add: to_i32_def)

lemma to_i32_less: "to_i32 x < 2 ^ 31"
  using sint_lt [of "word_of_int x :: u32"] by (simp add: to_i32_def)

lemma c_strlen_le: "c_strlen p \<le> length p"
  by (simp add: c_strlen_def length_takeWhile_le)

lemma mc_GetParam_nat:
  assumes "length ptr < 2 ^ 30" and "i < length ptr"
  shows "mc_GetParamFromDetailsScript ptr (of_nat (length ptr)) (of_nat i) =
    (case get_param ptr i of None \<Rightarrow> (of_nat (length ptr), 0, 0, MC_ERR_ERROR_IN_SCRIPT)
     | Some (nxt, start, n) \<Rightarrow> (of_nat nxt, of_nat start, n, MC_ERR_NOERROR))"
proof -
  define ns where "ns = name_size_at (drop i ptr)"
  have ns: "ns < 2 ^ 30 + 2" using c_strlen_le [of "drop i ptr"] assms by (auto simp: ns_def name_size_at_def)
  obtain v sh where v: "mc_GetVarInt (drop (i + ns) ptr) (-1) = (v, sh)" by fastforce
  define n where "n = (case sh of None \<Rightarrow> 0 | Some n \<Rightarrow> n)"
  have n: "n \<le> 9" using mc_GetVarInt_shift [of "drop (i + ns) ptr" "-1" v] v by (auto simp: n_def split: option.splits)
  define val where "val = to_i32 (sint v)"
  have val: "val < 2 ^ 31" unfolding val_def by (rule to_i32_less)
  have i: "i < 2 ^ 32" "unat (of_nat i :: u32) = i" "\<not> (of_nat (length ptr) :: u32) \<le> of_nat i"
    using assms by (simp_all add: u32_le)
  have e1: "(of_nat i + of_nat ns :: u32) = of_nat (i + ns)" by simp
  have c1: "(of_nat (length ptr) :: u32) \<le> of_nat (i + ns) \<longleftrightarrow> length ptr \<le> i + ns"
    using assms ns by (intro u32_le) simp_all
  have rest: "take (unat (of_nat (length ptr) - of_nat i - of_nat ns :: u32)) (drop ns (drop i ptr)) = drop (i + ns) ptr"
    if "i + ns < length ptr"
  proof -
    have "(of_nat (length ptr) - of_nat i - of_nat ns :: u32) = of_nat (length ptr - (i + ns))"
      using that by (simp add: of_nat_diff)
    then show ?thesis using assms by (simp add: add.commute)
  qed
  define len where "len = to_i32 (int ns + int n + val)"
  have e2: "(of_nat i + of_int len :: u32) = of_nat (i + ns + n + nat val)" if "\<not> val < 0"
    using that by (simp add: of_int_to_i32 len_def)
  have c2: "(of_nat (length ptr) :: u32) < of_nat (i + ns + n + nat val) \<longleftrightarrow> length ptr < i + ns + n + nat val"
    if "i + ns < length ptr"
  proof (rule u32_less)
    show "length ptr < 2 ^ 32" using assms by simp
    have "i + ns + n + nat val < 2 ^ 30 + 9 + 2 ^ 31" using that n val assms(1) by simp
    then show "i + ns + n + nat val < 2 ^ 32" by simp
  qed
  show ?thesis
  proof (cases "length ptr \<le> i + ns")
    case True
    then show ?thesis
      using i by (simp add: mc_GetParamFromDetailsScript_def get_param_def flip: ns_def) (simp add: e1 c1 flip: of_nat_add)
  next
    case False
    with rest v have g: "mc_GetVarInt (take (unat (of_nat (length ptr) - of_nat i - of_nat ns :: u32)) (drop ns (drop i ptr))) (-1) = (v, sh)"
      by simp
    have b: "\<not> (of_nat (length ptr) :: u32) \<le> of_nat i + of_nat ns" using False e1 c1 by simp
    have fold: "name_size_at (drop i ptr) = ns" "to_i32 (sint v) = val" "(case sh of None \<Rightarrow> 0 | Some n \<Rightarrow> n) = n"
      "to_i32 (int ns + int n + val) = len" by (simp_all add: ns_def val_def n_def len_def)
    show ?thesis
    proof (cases "val < 0")
      case True
      then show ?thesis
        using i(2,3) False b v by (simp add: mc_GetParamFromDetailsScript_def get_param_def Let_def fold g del: drop_drop)
    next
      case nonneg: False
      then show ?thesis
        using i(2,3) False b v c2 e2 [OF nonneg] of_nat_add [of "i + ns" n, where 'a = u32] e1
        by (simp add: mc_GetParamFromDetailsScript_def get_param_def Let_def fold g del: drop_drop of_nat_add)
    qed
  qed
qed

lemma get_param_progress:
  assumes "get_param ptr i = Some (nxt, start, n)"
  shows "i < start" "start + n = nxt" "nxt \<le> length ptr"
  using assms by (auto simp: get_param_def Let_def name_size_at_def split: if_splits option.splits prod.splits)

section \<open>The loops stop\<close>

lemma details_loops_stop:
  assumes "length ptr < 2 ^ 30" and "i \<le> length ptr" and "length ptr - i < fuel"
  shows "verify_loop fuel ptr (of_nat (length ptr)) (of_nat i) \<noteq> None"
    and "find_special_loop fuel ptr (of_nat (length ptr)) c (of_nat i) \<noteq> None"
    and "find_named_loop fuel ptr (of_nat (length ptr)) name (of_nat i) \<noteq> None"
proof -
  have "verify_loop fuel ptr (of_nat (length ptr)) (of_nat i) \<noteq> None \<and>
      find_special_loop fuel ptr (of_nat (length ptr)) c (of_nat i) \<noteq> None \<and>
      find_named_loop fuel ptr (of_nat (length ptr)) name (of_nat i) \<noteq> None"
    using assms(2,3)
  proof (induction fuel arbitrary: i)
    case 0
    then show ?case by simp
  next
    case (Suc fuel)
    show ?case
    proof (cases "i < length ptr")
      case False
      then show ?thesis using Suc.prems assms(1) by simp
    next
      case True
      have less: "(of_nat i :: u32) < of_nat (length ptr)" using True assms(1) by (simp add: u32_less)
      have stop: "verify_loop fuel ptr (of_nat (length ptr)) (of_nat (length ptr)) \<noteq> None"
        "find_special_loop fuel ptr (of_nat (length ptr)) c (of_nat (length ptr)) \<noteq> None"
        "find_named_loop fuel ptr (of_nat (length ptr)) name (of_nat (length ptr)) \<noteq> None"
        using Suc.IH [of "length ptr"] Suc.prems True by auto
      show ?thesis
      proof (cases "get_param ptr i")
        case None
        then show ?thesis using less stop by (simp add: mc_GetParam_nat [OF assms(1) True] Let_def)
      next
        case (Some r)
        obtain nxt start n where r: "r = (nxt, start, n)" by (metis surj_pair)
        note p = get_param_progress [OF Some [unfolded r]]
        have "length ptr - nxt < fuel" using p Suc.prems by linarith
        then show ?thesis
          using Suc.IH [OF p(3)] Some less by (simp add: mc_GetParam_nat [OF assms(1) True] r Let_def)
      qed
    qed
  qed
  then show "verify_loop fuel ptr (of_nat (length ptr)) (of_nat i) \<noteq> None"
    and "find_special_loop fuel ptr (of_nat (length ptr)) c (of_nat i) \<noteq> None"
    and "find_named_loop fuel ptr (of_nat (length ptr)) name (of_nat i) \<noteq> None" by blast+
qed

section \<open>Reading what was written\<close>

lemma length_encode_param:
  "length (encode_param q) = length (param_head q) + length (param_value q)" "0 < length (param_head q)"
  by (cases q; simp add: encode_param_def param_head_def)+

lemma length_encode_params_less: "length (encode_params (q # qs)) < Suc f \<Longrightarrow> length (encode_params qs) < f"
proof -
  have "0 < length (encode_param q)" using length_encode_param [of q] by linarith
  then show "length (encode_params (q # qs)) < Suc f \<Longrightarrow> length (encode_params qs) < f"
    by (simp add: encode_params_def del: length_greater_0_conv)
qed

lemma param_ok_value: "param_ok q \<Longrightarrow> length (param_value q) < 2 ^ 30"
  by (cases q) simp_all

lemma c_strlen_name: "0 \<notin> set n \<Longrightarrow> c_strlen (n @ 0 # rest) = length n"
  by (induction n) (auto simp: c_strlen_def)

lemma get_param_encode:
  assumes "param_ok q"
  shows "get_param (pre @ encode_param q @ rest) (length pre) =
    Some (length pre + length (encode_param q), length pre + length (param_head q), length (param_value q))"
proof -
  let ?ptr = "pre @ encode_param q @ rest"
  let ?vi = "varint_of (of_nat (length (param_value q)))"
  have name: "name_size_at (encode_param q @ rest) = length (param_name q)"
    using assms by (cases q) (auto simp: name_size_at_def encode_param_def param_head_def c_strlen_name neq_Nil_conv)
  have v: "length (param_value q) < 2 ^ 30" using assms by (rule param_ok_value)
  have "mc_GetVarInt (?vi @ param_value q @ rest) (-1) = (of_nat (length (param_value q)), Some (length ?vi))"
    "varint_of (of_nat (length (param_value q))) \<noteq> []"
    using v varint_of_Some(2) [of "length (param_value q)"] by (simp_all add: varint_of_Some)
  moreover have "to_i32 (sint (of_nat (length (param_value q)) :: u64)) = int (length (param_value q))"
    using v by (simp add: to_i32_id sint_uint unsigned_of_nat take_bit_nat_eq_self signed_take_bit_int_eq_self)
  ultimately show ?thesis
    using name by (simp add: get_param_def Let_def encode_param_def param_head_def)
qed

lemma encode_params_Cons: "encode_params (q # qs) = encode_param q @ encode_params qs"
  by (simp add: encode_params_def)

lemma encode_params_append: "encode_params (ps @ qs) = encode_params ps @ encode_params qs"
  by (simp add: encode_params_def)

text \<open>One step of each loop at an encoded parameter.\<close>

lemma mc_GetParam_encode:
  assumes "param_ok q" and "ptr = pre @ encode_param q @ rest" and "length ptr < 2 ^ 30"
  shows "mc_GetParamFromDetailsScript ptr (of_nat (length ptr)) (of_nat (length pre)) =
    (of_nat (length pre + length (encode_param q)), of_nat (length pre + length (param_head q)),
     length (param_value q), MC_ERR_NOERROR)"
    and "(of_nat (length pre) :: u32) < of_nat (length ptr)"
    and "(of_nat (length pre + length (param_head q)) :: u32) > 0"
    and "unat (of_nat (length pre) :: u32) = length pre"
proof -
  have i: "length pre < length ptr" using assms(2) length_encode_param [of q] by simp
  show "mc_GetParamFromDetailsScript ptr (of_nat (length ptr)) (of_nat (length pre)) =
    (of_nat (length pre + length (encode_param q)), of_nat (length pre + length (param_head q)),
     length (param_value q), MC_ERR_NOERROR)"
    using mc_GetParam_nat [OF assms(3) i] get_param_encode [OF assms(1), of pre rest] assms(2) by simp
  show "(of_nat (length pre) :: u32) < of_nat (length ptr)" using i assms(3) by (simp add: u32_less)
  have "length pre + length (param_head q) \<le> length ptr" using assms(2) length_encode_param [of q] by simp
  then show "(of_nat (length pre + length (param_head q)) :: u32) > 0"
    using assms(3) length_encode_param(2) [of q] u32_less [of 0 "length pre + length (param_head q)"] by simp
  show "unat (of_nat (length pre) :: u32) = length pre" using i assms(3) by simp
qed

lemma verify_encode:
  assumes "\<forall>q\<in>set qs. param_ok q" and "ptr = pre @ encode_params qs" and "length ptr < 2 ^ 30"
    and "length (encode_params qs) < fuel"
  shows "verify_loop fuel ptr (of_nat (length ptr)) (of_nat (length pre)) = Some MC_ERR_NOERROR"
  using assms(1,2,4)
proof (induction qs arbitrary: pre fuel)
  case Nil
  then show ?case by (cases fuel) (simp_all add: encode_params_def)
next
  case (Cons q qs)
  obtain f where f: "fuel = Suc f" using Cons.prems(3) by (cases fuel) auto
  have ptr: "ptr = pre @ encode_param q @ encode_params qs" using Cons.prems(2) by (simp add: encode_params_Cons)
  have "verify_loop f ptr (of_nat (length ptr)) (of_nat (length (pre @ encode_param q))) = Some MC_ERR_NOERROR"
    using Cons.prems(1) length_encode_params_less [OF Cons.prems(3) [unfolded f]] ptr by (intro Cons.IH) simp_all
  then show ?case
    using mc_GetParam_encode(1,2) [OF _ ptr assms(3)] Cons.prems(1) by (simp add: f)
qed

text \<open>What the special search matches.\<close>

definition is_special :: "u8 \<Rightarrow> param \<Rightarrow> bool" where
  "is_special c q \<longleftrightarrow> (case q of Special d v \<Rightarrow> d = c | Named n v \<Rightarrow> False)"

definition is_named :: "u8 list \<Rightarrow> param \<Rightarrow> bool" where
  "is_named name q \<longleftrightarrow> (case q of Special d v \<Rightarrow> False | Named n v \<Rightarrow> map lower_char n = map lower_char name)"

text \<open>Where the search for the first parameter with \<open>p\<close> stops.\<close>

fun found_at :: "(param \<Rightarrow> bool) \<Rightarrow> nat \<Rightarrow> param list \<Rightarrow> nat \<times> nat option" where
  "found_at p pos [] = (pos, None)"
| "found_at p pos (q # qs) =
    (if p q then (pos + length (param_head q), Some (length (param_value q)))
     else found_at p (pos + length (encode_param q)) qs)"

lemma special_test:
  assumes "param_ok q" and "ptr = pre @ encode_param q @ rest"
  shows "ptr ! length pre = 0 \<and> ptr ! (length pre + 1) = c \<longleftrightarrow> is_special c q"
  using assms by (cases q) (auto simp: is_special_def encode_param_def param_head_def nth_append neq_Nil_conv)

lemma named_test:
  assumes "param_ok q" and "ptr = pre @ encode_param q @ rest" and "p = drop (length pre) ptr"
  shows "hd p \<noteq> 0 \<and> length name = c_strlen p \<and> mc_StringCompareCaseInsensitive name p (length name) = 0 \<longleftrightarrow> is_named name q"
proof (cases q)
  case (Special c v)
  then show ?thesis using assms by (simp add: is_named_def encode_param_def param_head_def)
next
  case (Named n v)
  then have n: "n \<noteq> []" "0 \<notin> set n" using assms(1) by auto
  have p: "p = n @ 0 # varint_of (of_nat (length v)) @ v @ rest"
    using assms(2,3) Named by (simp add: encode_param_def param_head_def)
  have "hd p \<noteq> 0" using n p by (cases n) auto
  moreover have "c_strlen p = length n" using n by (simp add: p c_strlen_name)
  moreover have "mc_StringCompareCaseInsensitive name p (length name) = 0 \<longleftrightarrow> map lower_char name = map lower_char n"
    if "length name = length n"
    using that by (subst CompareCaseInsensitive_lower) (simp_all add: p)
  ultimately show ?thesis
    using map_eq_imp_length_eq [of lower_char n lower_char name] by (auto simp: is_named_def Named)
qed

lemma find_special_encode:
  assumes "\<forall>q\<in>set qs. param_ok q" and "ptr = pre @ encode_params qs" and "length ptr < 2 ^ 30"
    and "length (encode_params qs) < fuel"
  shows "find_special_loop fuel ptr (of_nat (length ptr)) c (of_nat (length pre)) =
    (case found_at (is_special c) (length pre) qs of (pos, n) \<Rightarrow> Some (of_nat pos, n))"
  using assms(1,2,4)
proof (induction qs arbitrary: pre fuel)
  case Nil
  then show ?case by (cases fuel) (simp_all add: encode_params_def)
next
  case (Cons q qs)
  obtain f where f: "fuel = Suc f" using Cons.prems(3) by (cases fuel) auto
  have ptr: "ptr = pre @ encode_param q @ encode_params qs" using Cons.prems(2) by (simp add: encode_params_Cons)
  have IH: "find_special_loop f ptr (of_nat (length ptr)) c (of_nat (length (pre @ encode_param q))) =
      (case found_at (is_special c) (length (pre @ encode_param q)) qs of (pos, n) \<Rightarrow> Some (of_nat pos, n))"
    using Cons.prems(1) length_encode_params_less [OF Cons.prems(3) [unfolded f]] ptr by (intro Cons.IH) simp_all
  have q: "param_ok q" using Cons.prems(1) by simp
  show ?case
    using mc_GetParam_encode [OF q ptr assms(3)] special_test [OF q ptr, of c] IH by (auto simp: f)
qed

lemma find_named_encode:
  assumes "\<forall>q\<in>set qs. param_ok q" and "ptr = pre @ encode_params qs" and "length ptr < 2 ^ 30"
    and "length (encode_params qs) < fuel"
  shows "find_named_loop fuel ptr (of_nat (length ptr)) name (of_nat (length pre)) =
    (case found_at (is_named name) (length pre) qs of (pos, n) \<Rightarrow> Some (of_nat pos, n))"
  using assms(1,2,4)
proof (induction qs arbitrary: pre fuel)
  case Nil
  then show ?case by (cases fuel) (simp_all add: encode_params_def)
next
  case (Cons q qs)
  obtain f where f: "fuel = Suc f" using Cons.prems(3) by (cases fuel) auto
  have ptr: "ptr = pre @ encode_param q @ encode_params qs" using Cons.prems(2) by (simp add: encode_params_Cons)
  have IH: "find_named_loop f ptr (of_nat (length ptr)) name (of_nat (length (pre @ encode_param q))) =
      (case found_at (is_named name) (length (pre @ encode_param q)) qs of (pos, n) \<Rightarrow> Some (of_nat pos, n))"
    using Cons.prems(1) length_encode_params_less [OF Cons.prems(3) [unfolded f]] ptr by (intro Cons.IH) simp_all
  have q: "param_ok q" using Cons.prems(1) by simp
  show ?case
    using mc_GetParam_encode [OF q ptr assms(3)] named_test [OF q ptr refl, of name] IH by (auto simp: f)
qed

end
