(* ===== verification/Script_Elements.thy ===== *)
theory Script_Elements
  imports Script_Details
begin

text \<open>
  The kinds of elements, \<^verbatim>\<open>src/src/protocol/multichainscript.cpp\<close>: each has a call that writes it and one
  that reads the current element as it, after checks of size, identifier and prefix. A reader returns
  the error or what it read; what it leaves in its output arguments before an error is not modelled. The
  locale \<open>element_codec\<close> is the contract of a kind, and is interpreted for every one of them.
\<close>

section \<open>Identifiers and prefixes\<close>

definition FREE_DATA_IDENTIFIER :: "u8 list" where "FREE_DATA_IDENTIFIER = [0x53, 0x50, 0x4b]"
definition MULTICHAIN_IDENTIFIER :: "u8 list" where "MULTICHAIN_IDENTIFIER = [0x73, 0x70, 0x6b]"

abbreviation (input) ENTITY_PREFIX :: u8 where "ENTITY_PREFIX \<equiv> 0x65"
abbreviation (input) CASHED_SCRIPT_PREFIX :: u8 where "CASHED_SCRIPT_PREFIX \<equiv> 0x69"
abbreviation (input) KEY_PREFIX :: u8 where "KEY_PREFIX \<equiv> 0x6b"
abbreviation (input) APPROVE_PREFIX :: u8 where "APPROVE_PREFIX \<equiv> 0x61"
abbreviation (input) NEW_ENTITY_PREFIX :: u8 where "NEW_ENTITY_PREFIX \<equiv> 0x6e"
abbreviation (input) UPDATE_ENTITY_PREFIX :: u8 where "UPDATE_ENTITY_PREFIX \<equiv> 0x75"
abbreviation (input) PERMISSIONS_PREFIX :: u8 where "PERMISSIONS_PREFIX \<equiv> 0x70"
abbreviation (input) BLOCK_SIGNATURE_PREFIX :: u8 where "BLOCK_SIGNATURE_PREFIX \<equiv> 0x62"
abbreviation (input) ASSET_GENESIS_PREFIX :: u8 where "ASSET_GENESIS_PREFIX \<equiv> 0x67"
abbreviation (input) ASSET_QUANTITY_PREFIX :: u8 where "ASSET_QUANTITY_PREFIX \<equiv> 0x71"
abbreviation (input) ASSET_DETAILS_PREFIX :: u8 where "ASSET_DETAILS_PREFIX \<equiv> 0x61"
abbreviation (input) ASSET_FOLLOWON_PREFIX :: u8 where "ASSET_FOLLOWON_PREFIX \<equiv> 0x6f"
abbreviation (input) GENERAL_DETAILS_PREFIX :: u8 where "GENERAL_DETAILS_PREFIX \<equiv> 0x63"

abbreviation (input) IDENTIFIER_LEN :: nat where "IDENTIFIER_LEN \<equiv> 3"
abbreviation (input) MC_ENT_MAX_SCRIPT_SIZE :: nat where "MC_ENT_MAX_SCRIPT_SIZE \<equiv> 4096"
abbreviation (input) MC_ENT_MAX_NAME_SIZE :: nat where "MC_ENT_MAX_NAME_SIZE \<equiv> 32"
abbreviation (input) MC_ENT_MAX_ITEM_KEY_SIZE :: nat where "MC_ENT_MAX_ITEM_KEY_SIZE \<equiv> 256"
abbreviation (input) MC_AST_SHORT_TXID_SIZE :: nat where "MC_AST_SHORT_TXID_SIZE \<equiv> 16"

definition tagged :: "u8 list \<Rightarrow> u8 \<Rightarrow> u8 list \<Rightarrow> bool" where
  "tagged ident prefix e \<longleftrightarrow> take IDENTIFIER_LEN e = ident \<and> e ! IDENTIFIER_LEN = prefix"

text \<open>The bytes from \<open>off\<close> on as a number of \<open>n\<close> bytes, converted to \<open>uint32_t\<close>.\<close>

definition le32 :: "u8 list \<Rightarrow> nat \<Rightarrow> nat \<Rightarrow> u32" where
  "le32 e off n = ucast (mc_GetLE (take n (drop off e)))"

section \<open>Permissions, approvals, asset genesis\<close>

definition script_GetPermission :: "mc_Script \<Rightarrow> int + (u32 \<times> u32 \<times> u32 \<times> u32)" where
  "script_GetPermission s =
    (let e = cur_data s in
     if sc_CurrentElement s < 0 then Inl MC_ERR_INVALID_PARAMETER_VALUE
     else if cur_size s \<noteq> IDENTIFIER_LEN + 1 + 16 then Inl MC_ERR_WRONG_SCRIPT
     else if \<not> tagged MULTICHAIN_IDENTIFIER PERMISSIONS_PREFIX e then Inl MC_ERR_WRONG_SCRIPT
     else Inr (le32 e 4 4, le32 e 8 4, le32 e 12 4, le32 e 16 4))"

definition script_SetPermission :: "u32 \<Rightarrow> u32 \<Rightarrow> u32 \<Rightarrow> u32 \<Rightarrow> mc_Script \<Rightarrow> int \<times> mc_Script" where
  "script_SetPermission type bfrom bto timestamp s =
    (MC_ERR_NOERROR, script_SetData (MULTICHAIN_IDENTIFIER @ [PERMISSIONS_PREFIX] @
       mc_PutLE 4 type @ mc_PutLE 4 bfrom @ mc_PutLE 4 bto @ mc_PutLE 4 timestamp) (script_AddElement s))"

definition script_GetApproval :: "mc_Script \<Rightarrow> int + (u32 \<times> u32)" where
  "script_GetApproval s =
    (let e = cur_data s in
     if sc_CurrentElement s < 0 then Inl MC_ERR_INVALID_PARAMETER_VALUE
     else if cur_size s \<noteq> IDENTIFIER_LEN + 1 + 5 then Inl MC_ERR_WRONG_SCRIPT
     else if \<not> tagged MULTICHAIN_IDENTIFIER APPROVE_PREFIX e then Inl MC_ERR_WRONG_SCRIPT
     else Inr (le32 e 4 1, le32 e 5 4))"

definition script_SetApproval :: "u32 \<Rightarrow> u32 \<Rightarrow> mc_Script \<Rightarrow> int \<times> mc_Script" where
  "script_SetApproval approval timestamp s =
    (MC_ERR_NOERROR, script_SetData (MULTICHAIN_IDENTIFIER @ [APPROVE_PREFIX] @
       mc_PutLE 1 approval @ mc_PutLE 4 timestamp) (script_AddElement s))"

text \<open>Quantities are \<open>int64_t\<close>.\<close>

definition script_GetAssetGenesis :: "mc_Script \<Rightarrow> int + u64" where
  "script_GetAssetGenesis s =
    (let e = cur_data s in
     if sc_CurrentElement s < 0 then Inl MC_ERR_INVALID_PARAMETER_VALUE
     else if cur_size s \<noteq> IDENTIFIER_LEN + 1 + 8 then Inl MC_ERR_WRONG_SCRIPT
     else if \<not> tagged MULTICHAIN_IDENTIFIER ASSET_GENESIS_PREFIX e then Inl MC_ERR_WRONG_SCRIPT
     else let quantity = mc_GetLE (take 8 (drop 4 e)) in
       if sint quantity < 0 then Inl MC_ERR_NOT_ALLOWED else Inr quantity)"

definition script_SetAssetGenesis :: "u64 \<Rightarrow> mc_Script \<Rightarrow> int \<times> mc_Script" where
  "script_SetAssetGenesis quantity s =
    (if sint quantity < 0 then (MC_ERR_NOT_ALLOWED, s)
     else (MC_ERR_NOERROR, script_SetData (MULTICHAIN_IDENTIFIER @ [ASSET_GENESIS_PREFIX] @ mc_PutLE 8 quantity)
       (script_AddElement s)))"

section \<open>Block signatures\<close>

text \<open>The sizes of the buffers the signature and the key are copied to are arguments.\<close>

definition script_GetBlockSignature :: "int \<Rightarrow> int \<Rightarrow> mc_Script \<Rightarrow> int + (u8 list \<times> u32 \<times> u8 list)" where
  "script_GetBlockSignature sig_size key_size s =
    (let e = cur_data s in
     if sc_CurrentElement s < 0 then Inl MC_ERR_INVALID_PARAMETER_VALUE
     else if cur_size s < IDENTIFIER_LEN + 1 + 3 then Inl MC_ERR_WRONG_SCRIPT
     else if \<not> tagged FREE_DATA_IDENTIFIER BLOCK_SIGNATURE_PREFIX e then Inl MC_ERR_WRONG_SCRIPT
     else let sig_len = unat (le32 e 4 1) in
       if int sig_len > sig_size then Inl MC_ERR_WRONG_SCRIPT
       else if cur_size s < IDENTIFIER_LEN + 1 + 3 + sig_len then Inl MC_ERR_WRONG_SCRIPT
       else let hash_type = le32 e (5 + sig_len) 1; key_len = unat (le32 e (6 + sig_len) 1) in
         if int key_len > key_size then Inl MC_ERR_WRONG_SCRIPT
         else if cur_size s \<noteq> IDENTIFIER_LEN + 1 + 3 + sig_len + key_len then Inl MC_ERR_WRONG_SCRIPT
         else Inr (take sig_len (drop 5 e), hash_type, take key_len (drop (7 + sig_len) e)))"

definition script_SetBlockSignature :: "u8 list \<Rightarrow> u32 \<Rightarrow> u8 list \<Rightarrow> mc_Script \<Rightarrow> int \<times> mc_Script" where
  "script_SetBlockSignature sig hash_type key s =
    (if length sig > 0xff \<or> length key > 0xff then (MC_ERR_INVALID_PARAMETER_VALUE, s)
     else
       let s = script_AddElement s;
           s = script_SetData (FREE_DATA_IDENTIFIER @ [BLOCK_SIGNATURE_PREFIX]) s;
           s = script_SetData (mc_PutLE 1 (of_nat (length sig) :: u32)) s;
           s = script_SetData sig s;
           s = script_SetData (mc_PutLE 1 hash_type) s;
           s = script_SetData (mc_PutLE 1 (of_nat (length key) :: u32)) s;
           s = script_SetData key s
       in (MC_ERR_NOERROR, s))"

section \<open>Details of entities\<close>

definition script_GetGeneralDetails :: "mc_Script \<Rightarrow> int + u8 list" where
  "script_GetGeneralDetails s =
    (let e = cur_data s in
     if sc_CurrentElement s < 0 then Inl MC_ERR_INVALID_PARAMETER_VALUE
     else if cur_size s < IDENTIFIER_LEN + 1 then Inl MC_ERR_WRONG_SCRIPT
     else if cur_size s > IDENTIFIER_LEN + 1 + MC_ENT_MAX_SCRIPT_SIZE then Inl MC_ERR_WRONG_SCRIPT
     else if \<not> tagged FREE_DATA_IDENTIFIER GENERAL_DETAILS_PREFIX e then Inl MC_ERR_WRONG_SCRIPT
     else Inr (drop 4 e))"

text \<open>A negative \<open>script_size\<close> is refused like one that is too large; a list has none.\<close>

definition script_SetGeneralDetails :: "u8 list \<Rightarrow> mc_Script \<Rightarrow> int \<times> mc_Script" where
  "script_SetGeneralDetails script s =
    (if length script > MC_ENT_MAX_SCRIPT_SIZE then (MC_ERR_INVALID_PARAMETER_VALUE, s)
     else
       let s = script_AddElement s;
           s = script_SetData (FREE_DATA_IDENTIFIER @ [GENERAL_DETAILS_PREFIX]) s
       in (MC_ERR_NOERROR, if script \<noteq> [] then script_SetData script s else s))"

text \<open>The length of the name at a pointer, \<open>None\<close> if it is too long or has no end.\<close>

fun name_scan :: "nat \<Rightarrow> u8 list \<Rightarrow> nat option" where
  "name_scan i [] = None"
| "name_scan i (c # p) = (if c = 0 then Some i else if i \<ge> MC_ENT_MAX_NAME_SIZE then None else name_scan (i + 1) p)"

definition script_GetAssetDetails :: "mc_Script \<Rightarrow> int + (u8 list \<times> int \<times> u8 list)" where
  "script_GetAssetDetails s =
    (let e = cur_data s in
     if sc_CurrentElement s < 0 then Inl MC_ERR_INVALID_PARAMETER_VALUE
     else case script_GetGeneralDetails s of Inr script \<Rightarrow> Inr ([], 1, script)
     | Inl _ \<Rightarrow>
       if cur_size s < IDENTIFIER_LEN + 1 + 4 + 1 then Inl MC_ERR_WRONG_SCRIPT
       else if cur_size s > IDENTIFIER_LEN + 1 + MC_ENT_MAX_SCRIPT_SIZE + 4 + MC_ENT_MAX_NAME_SIZE + 1 then Inl MC_ERR_WRONG_SCRIPT
       else if \<not> tagged FREE_DATA_IDENTIFIER ASSET_DETAILS_PREFIX e then Inl MC_ERR_WRONG_SCRIPT
       else case name_scan 0 (drop 8 e) of None \<Rightarrow> Inl MC_ERR_WRONG_SCRIPT
         | Some n \<Rightarrow> Inr (take n (drop 8 e), sint (le32 e 4 4), drop (9 + n) e))"

definition script_SetAssetDetails :: "u8 list \<Rightarrow> int \<Rightarrow> u8 list \<Rightarrow> mc_Script \<Rightarrow> int \<times> mc_Script" where
  "script_SetAssetDetails name multiple script s =
    (if length script > MC_ENT_MAX_SCRIPT_SIZE then (MC_ERR_INVALID_PARAMETER_VALUE, s)
     else
       let s = script_AddElement s;
           s = script_SetData (FREE_DATA_IDENTIFIER @ [ASSET_DETAILS_PREFIX]) s;
           s = script_SetData (mc_PutLE 4 (of_int multiple :: u32)) s;
           s = script_SetData (name @ [0x00]) s
       in (MC_ERR_NOERROR, if script \<noteq> [] then script_SetData script s else s))"

text \<open>
  The two forms of \<open>GetNewEntityType\<close>. The longer one checks the details and would not return if
  that check did not; \<open>None\<close> stands for that.
\<close>

definition script_GetNewEntityType_script :: "mc_Script \<Rightarrow> (int + (u32 \<times> bool \<times> u8 list)) option" where
  "script_GetNewEntityType_script s =
    (let e = cur_data s in
     if sc_CurrentElement s < 0 then Some (Inl MC_ERR_INVALID_PARAMETER_VALUE)
     else if cur_size s < IDENTIFIER_LEN + 1 + 1 then Some (Inl MC_ERR_WRONG_SCRIPT)
     else if cur_size s > IDENTIFIER_LEN + 1 + 1 + MC_ENT_MAX_SCRIPT_SIZE then Some (Inl MC_ERR_WRONG_SCRIPT)
     else if \<not> tagged MULTICHAIN_IDENTIFIER NEW_ENTITY_PREFIX e \<and> \<not> tagged MULTICHAIN_IDENTIFIER UPDATE_ENTITY_PREFIX e
     then Some (Inl MC_ERR_WRONG_SCRIPT)
     else case mc_VerifyDetailsScript (drop 5 e) of None \<Rightarrow> None
       | Some err \<Rightarrow> Some (if err \<noteq> MC_ERR_NOERROR then Inl err
           else Inr (ucast (e ! 4), e ! 3 = UPDATE_ENTITY_PREFIX, drop 5 e)))"

definition script_SetNewEntityType_script :: "u32 \<Rightarrow> bool \<Rightarrow> u8 list \<Rightarrow> mc_Script \<Rightarrow> (int \<times> mc_Script) option" where
  "script_SetNewEntityType_script type update script s =
    (if length script > MC_ENT_MAX_SCRIPT_SIZE then Some (MC_ERR_INVALID_PARAMETER_VALUE, s)
     else case mc_VerifyDetailsScript script of None \<Rightarrow> None
       | Some err \<Rightarrow> Some
         (if err \<noteq> MC_ERR_NOERROR then (err, s)
          else
            let s = script_AddElement s;
                s = script_SetData (MULTICHAIN_IDENTIFIER @
                  [if update then UPDATE_ENTITY_PREFIX else NEW_ENTITY_PREFIX, ucast (type AND 0xff)]) s
            in (MC_ERR_NOERROR, if script \<noteq> [] then script_SetData script s else s)))"

definition script_GetNewEntityType :: "bool \<Rightarrow> mc_Script \<Rightarrow> int + u32" where
  "script_GetNewEntityType OpDropDetailsScripts s =
    (let e = cur_data s in
     if sc_CurrentElement s < 0 then Inl MC_ERR_INVALID_PARAMETER_VALUE
     else if (if OpDropDetailsScripts then cur_size s < IDENTIFIER_LEN + 1 + 1 else cur_size s \<noteq> IDENTIFIER_LEN + 1 + 1)
     then Inl MC_ERR_WRONG_SCRIPT
     else if \<not> tagged MULTICHAIN_IDENTIFIER NEW_ENTITY_PREFIX e then Inl MC_ERR_WRONG_SCRIPT
     else Inr (ucast (e ! 4)))"

definition script_SetNewEntityType :: "u32 \<Rightarrow> mc_Script \<Rightarrow> int \<times> mc_Script" where
  "script_SetNewEntityType type s =
    (MC_ERR_NOERROR, script_SetData (MULTICHAIN_IDENTIFIER @ [NEW_ENTITY_PREFIX, ucast (type AND 0xff)]) (script_AddElement s))"

section \<open>Stream items and entities\<close>

definition script_GetItemKey :: "mc_Script \<Rightarrow> int + u8 list" where
  "script_GetItemKey s =
    (let e = cur_data s in
     if sc_CurrentElement s < 0 then Inl MC_ERR_INVALID_PARAMETER_VALUE
     else if cur_size s < IDENTIFIER_LEN + 1 then Inl MC_ERR_WRONG_SCRIPT
     else if cur_size s > IDENTIFIER_LEN + 1 + MC_ENT_MAX_ITEM_KEY_SIZE then Inl MC_ERR_WRONG_SCRIPT
     else if \<not> tagged MULTICHAIN_IDENTIFIER KEY_PREFIX e then Inl MC_ERR_WRONG_SCRIPT
     else Inr (drop 4 e))"

definition script_SetItemKey :: "u8 list \<Rightarrow> mc_Script \<Rightarrow> int \<times> mc_Script" where
  "script_SetItemKey key s =
    (if length key > MC_ENT_MAX_ITEM_KEY_SIZE then (MC_ERR_INVALID_PARAMETER_VALUE, s)
     else
       let s = script_AddElement s;
           s = script_SetData (MULTICHAIN_IDENTIFIER @ [KEY_PREFIX]) s
       in (MC_ERR_NOERROR, if key \<noteq> [] then script_SetData key s else s))"

definition script_GetEntity :: "mc_Script \<Rightarrow> int + u8 list" where
  "script_GetEntity s =
    (let e = cur_data s in
     if sc_CurrentElement s < 0 then Inl MC_ERR_INVALID_PARAMETER_VALUE
     else if cur_size s \<noteq> IDENTIFIER_LEN + 1 + MC_AST_SHORT_TXID_SIZE then Inl MC_ERR_WRONG_SCRIPT
     else if \<not> tagged MULTICHAIN_IDENTIFIER ENTITY_PREFIX e then Inl MC_ERR_WRONG_SCRIPT
     else Inr (take MC_AST_SHORT_TXID_SIZE (drop 4 e)))"

text \<open>The identifier has 16 bytes; the code copies as many from the pointer.\<close>

definition script_SetEntity :: "u8 list \<Rightarrow> mc_Script \<Rightarrow> int \<times> mc_Script" where
  "script_SetEntity short_txid s =
    (MC_ERR_NOERROR, script_SetData (MULTICHAIN_IDENTIFIER @ [ENTITY_PREFIX] @ take MC_AST_SHORT_TXID_SIZE short_txid)
       (script_AddElement s))"

end
