(* ===== verification/Script_Codec.thy ===== *)
theory Script_Codec
  imports Script_Elements
begin

text \<open>
  What is written is read: the contract \<open>element_codec\<close> of a kind of element, and its interpretations.
\<close>

section \<open>The contract\<close>

text \<open>
  \<open>writes x s s'\<close>: writing \<open>x\<close> succeeds from \<open>s\<close> with \<open>s'\<close>. \<open>reads s x\<close>: the current element is read as
  \<open>x\<close>. \<open>enc\<close> is the content of the element.
\<close>

locale element_codec =
  fixes valid :: "'a \<Rightarrow> bool"
    and enc :: "'a \<Rightarrow> u8 list"
    and writes :: "'a \<Rightarrow> mc_Script \<Rightarrow> mc_Script \<Rightarrow> bool"
    and reads :: "mc_Script \<Rightarrow> 'a \<Rightarrow> bool"
  assumes writes: "script_ok s \<Longrightarrow> sc_CurrentElement s = sc_NumElements s - 1 \<Longrightarrow> valid x \<Longrightarrow>
      \<exists>s'. writes x s s' \<and> script_ok s' \<and> at_end s' \<and> elements s' = elements s @ [enc x] \<and>
        sc_ScriptType s' = sc_ScriptType s"
    and reads: "valid x \<Longrightarrow> 0 \<le> sc_CurrentElement s \<Longrightarrow> cur_data s = enc x \<Longrightarrow> cur_size s = length (enc x) \<Longrightarrow> reads s x"
begin

lemma reads_element:
  assumes "valid x" and "script_ok s" and "0 \<le> sc_CurrentElement s"
    and "elements s ! nat (sc_CurrentElement s) = enc x"
  shows "reads s x"
  using assms cur_data_nth [OF assms(3) script_okD(3) [OF assms(2)]] by (intro reads) simp_all

lemma reads_selected:
  assumes "valid x" and "script_ok s" and "i < length (elements s)" and "elements s ! i = enc x"
  shows "\<exists>s'. script_SetElement (int i) s = (MC_ERR_NOERROR, s') \<and> reads s' x"
proof -
  obtain err s' where e: "script_SetElement (int i) s = (err, s')" by fastforce
  have i: "int i < sc_NumElements s" using assms(3) by simp
  note f = SetElement_frame [OF i _ assms(2) e]
  have "reads s' x" using f assms by (intro reads_element) simp_all
  then show ?thesis using e f(1) by simp
qed

lemma writes_reads:
  assumes "script_ok s" and "sc_CurrentElement s = sc_NumElements s - 1" and "valid x"
  shows "\<exists>s'. writes x s s' \<and> script_ok s' \<and> at_end s' \<and> elements s' = elements s @ [enc x] \<and> reads s' x"
proof -
  obtain s' where s': "writes x s s'" "script_ok s'" "at_end s'" "elements s' = elements s @ [enc x]"
    using writes [OF assms] by blast
  have "sc_NumElements s' = sc_NumElements s + 1"
    using arg_cong [OF s'(4), of length] script_okD(1) [OF s'(2)] script_okD(1) [OF assms(1)]
    by (simp add: nat_add_distrib eq_nat_nat_iff)
  then have "sc_CurrentElement s' = sc_NumElements s" using s'(3) by (simp add: at_end_def)
  then have "reads s' x"
    using s' assms(3) script_okD(1) [OF assms(1)] by (intro reads_element) (simp_all add: nth_append)
  with s' show ?thesis by blast
qed

end

section \<open>Elements in pieces\<close>

text \<open>A new element filled by a sequence of writes.\<close>

lemma new_element:
  assumes "script_ok s" and "sc_CurrentElement s = sc_NumElements s - 1"
  shows "script_ok (fold script_SetData bss (script_AddElement s)) \<and>
    at_end (fold script_SetData bss (script_AddElement s)) \<and>
    0 < sc_NumElements (fold script_SetData bss (script_AddElement s)) \<and>
    elements (fold script_SetData bss (script_AddElement s)) = elements s @ [concat bss] \<and>
    sc_ScriptType (fold script_SetData bss (script_AddElement s)) = sc_ScriptType s"
proof (induction bss rule: rev_induct)
  case Nil
  then show ?case using AddElement_ok [OF assms] by simp
next
  case (snoc bs bss)
  then show ?case
    using SetData_ok [of "fold script_SetData bss (script_AddElement s)" bs] by simp
qed

lemma new_element_opt:
  assumes "script_ok s" and "sc_CurrentElement s = sc_NumElements s - 1"
    and "t = (if bs \<noteq> [] then script_SetData bs (fold script_SetData bss (script_AddElement s))
      else fold script_SetData bss (script_AddElement s))"
  shows "script_ok t \<and> at_end t \<and> elements t = elements s @ [concat bss @ bs] \<and> sc_ScriptType t = sc_ScriptType s"
  using new_element [OF assms(1,2), of bss] new_element [OF assms(1,2), of "bss @ [bs]"] assms(3) by simp

lemma le32_PutLE:
  assumes "drop off e = mc_PutLE 4 (w :: u32) @ rest"
  shows "le32 e off 4 = w"
proof -
  have "ucast (ucast w :: u64) = w" by (rule bit_word_eqI) (simp add: bit_simps)
  then show ?thesis using assms by (simp add: le32_def mc_GetLE_PutLE_full)
qed

lemma le32_PutLE1:
  assumes "drop off e = mc_PutLE 1 (w :: u32) @ rest"
  shows "le32 e off 1 = take_bit 8 w"
proof -
  have "ucast (ucast (take_bit 8 w) :: u64) = take_bit 8 w" by (rule bit_word_eqI) (simp add: bit_simps)
  then show ?thesis using assms by (simp add: le32_def mc_GetLE_PutLE)
qed

lemma drop_at: "length pre = off \<Longrightarrow> drop off (pre @ rest) = rest"
  by simp

lemma le32_PutLE1_at: "length pre = off \<Longrightarrow> le32 (pre @ mc_PutLE 1 (w :: u32) @ rest) off 1 = take_bit 8 w"
  by (rule le32_PutLE1) simp

lemma take_bit_u32: "uint (w :: u32) < 256 \<Longrightarrow> take_bit 8 w = w"
  by (rule take_bit_id_of_uint) simp

section \<open>The kinds\<close>

definition enc_permission :: "u32 \<times> u32 \<times> u32 \<times> u32 \<Rightarrow> u8 list" where
  "enc_permission = (\<lambda>(type, bfrom, bto, timestamp). MULTICHAIN_IDENTIFIER @ [PERMISSIONS_PREFIX] @
     mc_PutLE 4 type @ mc_PutLE 4 bfrom @ mc_PutLE 4 bto @ mc_PutLE 4 timestamp)"

interpretation permission_codec: element_codec "\<lambda>_. True" enc_permission
  "\<lambda>(type, bfrom, bto, timestamp) s s'. script_SetPermission type bfrom bto timestamp s = (MC_ERR_NOERROR, s')"
  "\<lambda>s x. script_GetPermission s = Inr x"
proof (unfold_locales, goal_cases)
  case (1 s x)
  then show ?case
    using new_element [of s "[enc_permission x]"] by (auto simp: script_SetPermission_def enc_permission_def split: prod.splits)
next
  case (2 x s)
  obtain t f b u where x: "x = (t, f, b, u)" by (metis surj_pair)
  have "le32 (enc_permission x) 4 4 = t" "le32 (enc_permission x) 8 4 = f" "le32 (enc_permission x) 12 4 = b"
    "le32 (enc_permission x) 16 4 = u"
    by (rule le32_PutLE; simp add: x enc_permission_def MULTICHAIN_IDENTIFIER_def)+
  then show ?case using 2
    by (simp add: script_GetPermission_def x) (simp add: enc_permission_def tagged_def MULTICHAIN_IDENTIFIER_def)
qed

definition enc_approval :: "u32 \<times> u32 \<Rightarrow> u8 list" where
  "enc_approval = (\<lambda>(approval, timestamp). MULTICHAIN_IDENTIFIER @ [APPROVE_PREFIX] @ mc_PutLE 1 approval @ mc_PutLE 4 timestamp)"

interpretation approval_codec: element_codec "\<lambda>(approval, timestamp). uint approval < 256" enc_approval
  "\<lambda>(approval, timestamp) s s'. script_SetApproval approval timestamp s = (MC_ERR_NOERROR, s')"
  "\<lambda>s x. script_GetApproval s = Inr x"
proof (unfold_locales, goal_cases)
  case (1 s x)
  then show ?case
    using new_element [of s "[enc_approval x]"] by (auto simp: script_SetApproval_def enc_approval_def split: prod.splits)
next
  case (2 x s)
  obtain a t where x: "x = (a, t)" by fastforce
  have "le32 (enc_approval x) 4 1 = take_bit 8 a" by (rule le32_PutLE1; simp add: x enc_approval_def MULTICHAIN_IDENTIFIER_def)
  moreover have "le32 (enc_approval x) 5 4 = t" by (rule le32_PutLE; simp add: x enc_approval_def MULTICHAIN_IDENTIFIER_def)
  ultimately show ?case using 2 take_bit_u32 [of a]
    by (simp add: script_GetApproval_def x) (simp add: enc_approval_def tagged_def MULTICHAIN_IDENTIFIER_def)
qed

definition enc_genesis :: "u64 \<Rightarrow> u8 list" where
  "enc_genesis quantity = MULTICHAIN_IDENTIFIER @ [ASSET_GENESIS_PREFIX] @ mc_PutLE 8 quantity"

interpretation genesis_codec: element_codec "\<lambda>quantity. 0 \<le> sint quantity" enc_genesis
  "\<lambda>quantity s s'. script_SetAssetGenesis quantity s = (MC_ERR_NOERROR, s')"
  "\<lambda>s x. script_GetAssetGenesis s = Inr x"
proof (unfold_locales, goal_cases)
  case (1 s x)
  then show ?case
    using new_element [of s "[enc_genesis x]"] by (auto simp: script_SetAssetGenesis_def enc_genesis_def)
next
  case (2 x s)
  then show ?case
    by (simp add: script_GetAssetGenesis_def enc_genesis_def tagged_def MULTICHAIN_IDENTIFIER_def mc_GetLE_PutLE_full)
qed

definition enc_signature :: "u8 list \<times> u32 \<times> u8 list \<Rightarrow> u8 list" where
  "enc_signature = (\<lambda>(sig, hash_type, key). FREE_DATA_IDENTIFIER @ [BLOCK_SIGNATURE_PREFIX] @
     mc_PutLE 1 (of_nat (length sig) :: u32) @ sig @ mc_PutLE 1 hash_type @ mc_PutLE 1 (of_nat (length key) :: u32) @ key)"

interpretation signature_codec: element_codec
  "\<lambda>(sig, hash_type, key). length sig \<le> 255 \<and> uint hash_type < 256 \<and> length key \<le> 255" enc_signature
  "\<lambda>(sig, hash_type, key) s s'. script_SetBlockSignature sig hash_type key s = (MC_ERR_NOERROR, s')"
  "\<lambda>s (sig, hash_type, key). \<forall>sig_size key_size. int (length sig) \<le> sig_size \<longrightarrow> int (length key) \<le> key_size \<longrightarrow>
     script_GetBlockSignature sig_size key_size s = Inr (sig, hash_type, key)"
proof (unfold_locales, goal_cases)
  case (1 s x)
  obtain sig h key where x: "x = (sig, h, key)" by (metis surj_pair)
  show ?case
    using new_element [of s "[FREE_DATA_IDENTIFIER @ [BLOCK_SIGNATURE_PREFIX], mc_PutLE 1 (of_nat (length sig) :: u32), sig,
        mc_PutLE 1 h, mc_PutLE 1 (of_nat (length key) :: u32), key]"] 1
    by (auto simp: script_SetBlockSignature_def enc_signature_def x Let_def)
next
  case (2 x s)
  obtain sig h key where x: "x = (sig, h, key)" by (metis surj_pair)
  let ?e = "enc_signature x"
  have b: "take_bit 8 (of_nat (length sig) :: u32) = of_nat (length sig)" "take_bit 8 (of_nat (length key) :: u32) = of_nat (length key)"
    "take_bit 8 h = h"
    using 2(1) x by (auto intro!: take_bit_u32 simp: unsigned_of_nat take_bit_nat_eq_self)
  have l: "le32 ?e 4 1 = of_nat (length sig)" "le32 ?e (5 + length sig) 1 = h" "le32 ?e (6 + length sig) 1 = of_nat (length key)"
    using le32_PutLE1_at [of "FREE_DATA_IDENTIFIER @ [BLOCK_SIGNATURE_PREFIX]" 4 "of_nat (length sig)"]
      le32_PutLE1_at [of "FREE_DATA_IDENTIFIER @ [BLOCK_SIGNATURE_PREFIX] @ mc_PutLE 1 (of_nat (length sig) :: u32) @ sig" "5 + length sig" h]
      le32_PutLE1_at [of "FREE_DATA_IDENTIFIER @ [BLOCK_SIGNATURE_PREFIX] @ mc_PutLE 1 (of_nat (length sig) :: u32) @ sig @ mc_PutLE 1 h"
        "6 + length sig" "of_nat (length key)"] b
    by (simp_all add: x enc_signature_def FREE_DATA_IDENTIFIER_def)
  have u: "unat (of_nat (length sig) :: u32) = length sig" "unat (of_nat (length key) :: u32) = length key"
    using 2(1) x by simp_all
  have t: "tagged FREE_DATA_IDENTIFIER BLOCK_SIGNATURE_PREFIX ?e" "take (length sig) (drop 5 ?e) = sig"
    "drop (7 + length sig) ?e = key" "length ?e = 7 + length sig + length key"
    using drop_at [of "FREE_DATA_IDENTIFIER @ [BLOCK_SIGNATURE_PREFIX] @ mc_PutLE 1 (of_nat (length sig) :: u32) @ sig @ mc_PutLE 1 h @
        mc_PutLE 1 (of_nat (length key) :: u32)" "7 + length sig" key]
    by (simp_all add: x enc_signature_def tagged_def FREE_DATA_IDENTIFIER_def)
  show ?case using 2(2-4) l u t by (simp add: script_GetBlockSignature_def x Let_def)
qed

definition enc_general :: "u8 list \<Rightarrow> u8 list" where
  "enc_general script = FREE_DATA_IDENTIFIER @ [GENERAL_DETAILS_PREFIX] @ script"

interpretation general_codec: element_codec "\<lambda>script. length script \<le> MC_ENT_MAX_SCRIPT_SIZE" enc_general
  "\<lambda>script s s'. script_SetGeneralDetails script s = (MC_ERR_NOERROR, s')"
  "\<lambda>s x. script_GetGeneralDetails s = Inr x"
proof (unfold_locales, goal_cases)
  case (1 s x)
  then show ?case
    using new_element_opt [of s _ x "[FREE_DATA_IDENTIFIER @ [GENERAL_DETAILS_PREFIX]]", OF _ _ refl]
    by (cases "x = []") (simp_all add: script_SetGeneralDetails_def enc_general_def Let_def)
next
  case (2 x s)
  then show ?case
    by (simp add: script_GetGeneralDetails_def enc_general_def tagged_def FREE_DATA_IDENTIFIER_def)
qed

lemma name_scan_found:
  "0 \<notin> set n \<Longrightarrow> i + length n \<le> MC_ENT_MAX_NAME_SIZE \<Longrightarrow> name_scan i (n @ 0 # rest) = Some (i + length n)"
  by (induction n arbitrary: i) auto

definition enc_asset :: "u8 list \<times> int \<times> u8 list \<Rightarrow> u8 list" where
  "enc_asset = (\<lambda>(name, multiple, script). FREE_DATA_IDENTIFIER @ [ASSET_DETAILS_PREFIX] @
     mc_PutLE 4 (of_int multiple :: u32) @ name @ [0x00] @ script)"

interpretation asset_codec: element_codec
  "\<lambda>(name, multiple, script). 0 \<notin> set name \<and> length name \<le> MC_ENT_MAX_NAME_SIZE \<and>
     - (2 ^ 31) \<le> multiple \<and> multiple < 2 ^ 31 \<and> length script \<le> MC_ENT_MAX_SCRIPT_SIZE" enc_asset
  "\<lambda>(name, multiple, script) s s'. script_SetAssetDetails name multiple script s = (MC_ERR_NOERROR, s')"
  "\<lambda>s x. script_GetAssetDetails s = Inr x"
proof (unfold_locales, goal_cases)
  case (1 s x)
  obtain n m scr where x: "x = (n, m, scr)" by (metis surj_pair)
  show ?case
    using new_element_opt [of s _ scr "[FREE_DATA_IDENTIFIER @ [ASSET_DETAILS_PREFIX], mc_PutLE 4 (of_int m :: u32), n @ [0x00]]", OF _ _ refl] 1
    by (cases "scr = []") (simp_all add: script_SetAssetDetails_def enc_asset_def x Let_def)
next
  case (2 x s)
  obtain n m scr where x: "x = (n, m, scr)" by (metis surj_pair)
  have l: "le32 (enc_asset x) 4 4 = of_int m"
    by (rule le32_PutLE [where rest = "n @ 0x00 # scr"]; simp add: x enc_asset_def FREE_DATA_IDENTIFIER_def)
  have m: "sint (of_int m :: u32) = m" using 2(1) to_i32_id [of m] by (simp add: x to_i32_def)
  have g: "script_GetGeneralDetails s = Inl (MC_ERR_WRONG_SCRIPT :: int)"
    using 2(2-4) by (simp add: script_GetGeneralDetails_def x enc_asset_def tagged_def FREE_DATA_IDENTIFIER_def Let_def)
  have t: "tagged FREE_DATA_IDENTIFIER ASSET_DETAILS_PREFIX (enc_asset x)" "drop 8 (enc_asset x) = n @ 0 # scr"
    "length (enc_asset x) = 9 + length n + length scr"
    by (simp_all add: x enc_asset_def tagged_def FREE_DATA_IDENTIFIER_def)
  have d: "drop (9 + length n) (enc_asset x) = scr"
    using arg_cong [OF t(2), of "drop (Suc (length n))"] by (simp add: add.commute)
  have "name_scan 0 (n @ 0 # scr) = Some (length n)" using 2(1) x by (simp add: name_scan_found)
  then show ?case using 2 l m g t d by (simp add: script_GetAssetDetails_def x Let_def)
qed

lemma low_byte: "uint (t :: u32) < 256 \<Longrightarrow> ucast (ucast (t AND 0xff) :: u8) = t"
proof -
  assume "uint t < 256"
  moreover have "t AND 0xff = take_bit 8 t" by (simp add: take_bit_eq_mask mask_eq_exp_minus_1)
  then have "ucast (ucast (t AND 0xff) :: u8) = take_bit 8 t"
    by (auto intro!: bit_word_eqI simp: bit_simps dest: bit_imp_le_length)
  ultimately show ?thesis by (simp add: take_bit_u32)
qed

definition enc_new_entity :: "u32 \<times> bool \<times> u8 list \<Rightarrow> u8 list" where
  "enc_new_entity = (\<lambda>(type, update, script). MULTICHAIN_IDENTIFIER @
     [if update then UPDATE_ENTITY_PREFIX else NEW_ENTITY_PREFIX, ucast (type AND 0xff)] @ script)"

interpretation new_entity_codec: element_codec
  "\<lambda>(type, update, script). uint type < 256 \<and> length script \<le> MC_ENT_MAX_SCRIPT_SIZE \<and>
     mc_VerifyDetailsScript script = Some MC_ERR_NOERROR" enc_new_entity
  "\<lambda>(type, update, script) s s'. script_SetNewEntityType_script type update script s = Some (MC_ERR_NOERROR, s')"
  "\<lambda>s x. script_GetNewEntityType_script s = Some (Inr x)"
proof (unfold_locales, goal_cases)
  case (1 s x)
  obtain t u scr where x: "x = (t, u, scr)" by (metis surj_pair)
  show ?case
    using new_element_opt [of s _ scr "[MULTICHAIN_IDENTIFIER @ [if u then UPDATE_ENTITY_PREFIX else NEW_ENTITY_PREFIX, ucast (t AND 0xff)]]", OF _ _ refl] 1
    by (cases "scr = []") (simp_all add: script_SetNewEntityType_script_def enc_new_entity_def x Let_def)
next
  case (2 x s)
  obtain t u scr where x: "x = (t, u, scr)" by (metis surj_pair)
  then show ?case
    using 2 low_byte [of t]
    by (simp add: script_GetNewEntityType_script_def enc_new_entity_def tagged_def MULTICHAIN_IDENTIFIER_def Let_def)
qed

interpretation entity_type_codec: element_codec "\<lambda>type. uint type < 256" "\<lambda>type. enc_new_entity (type, False, [])"
  "\<lambda>type s s'. script_SetNewEntityType type s = (MC_ERR_NOERROR, s')"
  "\<lambda>s type. \<forall>op_drop. script_GetNewEntityType op_drop s = Inr type"
proof (unfold_locales, goal_cases)
  case (1 s x)
  then show ?case
    using new_element [of s "[enc_new_entity (x, False, [])]"] by (auto simp: script_SetNewEntityType_def enc_new_entity_def)
next
  case (2 x s)
  then show ?case
    using low_byte [of x]
    by (simp add: script_GetNewEntityType_def enc_new_entity_def tagged_def MULTICHAIN_IDENTIFIER_def)
qed

definition enc_item_key :: "u8 list \<Rightarrow> u8 list" where
  "enc_item_key key = MULTICHAIN_IDENTIFIER @ [KEY_PREFIX] @ key"

interpretation item_key_codec: element_codec "\<lambda>key. length key \<le> MC_ENT_MAX_ITEM_KEY_SIZE" enc_item_key
  "\<lambda>key s s'. script_SetItemKey key s = (MC_ERR_NOERROR, s')"
  "\<lambda>s x. script_GetItemKey s = Inr x"
proof (unfold_locales, goal_cases)
  case (1 s x)
  then show ?case
    using new_element_opt [of s _ x "[MULTICHAIN_IDENTIFIER @ [KEY_PREFIX]]", OF _ _ refl]
    by (cases "x = []") (simp_all add: script_SetItemKey_def enc_item_key_def Let_def)
next
  case (2 x s)
  then show ?case
    by (simp add: script_GetItemKey_def enc_item_key_def tagged_def MULTICHAIN_IDENTIFIER_def)
qed

definition enc_entity :: "u8 list \<Rightarrow> u8 list" where
  "enc_entity short_txid = MULTICHAIN_IDENTIFIER @ [ENTITY_PREFIX] @ short_txid"

interpretation entity_codec: element_codec "\<lambda>short_txid. length short_txid = MC_AST_SHORT_TXID_SIZE" enc_entity
  "\<lambda>short_txid s s'. script_SetEntity short_txid s = (MC_ERR_NOERROR, s')"
  "\<lambda>s x. script_GetEntity s = Inr x"
proof (unfold_locales, goal_cases)
  case (1 s x)
  then show ?case
    using new_element [of s "[enc_entity x]"] by (auto simp: script_SetEntity_def enc_entity_def)
next
  case (2 x s)
  then show ?case
    by (simp add: script_GetEntity_def enc_entity_def tagged_def MULTICHAIN_IDENTIFIER_def)
qed

end
