(* ===== verification/Script_Parse.thy ===== *)
theory Script_Parse
  imports Script_Codec
begin

text \<open>
  Reading the elements out of a transaction script, \<^verbatim>\<open>src/src/protocol/multichainscript.cpp\<close>. The
  script is a list of bytes and a pointer into it a position, which may leave the script: the size of
  a pushed element is an \<open>int\<close> that a four-byte size makes negative. A call returns, reads or copies
  \<open>Outside\<close> the script, or \<open>Runs\<close> out of the fuel given to its loop.
\<close>

section \<open>Pushed elements\<close>

datatype 'a run = Returns 'a | Outside | Runs

abbreviation (input) OP_PUSHDATA1 :: u8 where "OP_PUSHDATA1 \<equiv> 0x4c"
abbreviation (input) OP_PUSHDATA2 :: u8 where "OP_PUSHDATA2 \<equiv> 0x4d"
abbreviation (input) OP_PUSHDATA4 :: u8 where "OP_PUSHDATA4 \<equiv> 0x4e"
abbreviation (input) OP_16 :: u8 where "OP_16 \<equiv> 0x60"
abbreviation (input) OP_RETURN :: u8 where "OP_RETURN \<equiv> 0x6a"
abbreviation (input) OP_DROP :: u8 where "OP_DROP \<equiv> 0x75"

text \<open>\<^verbatim>\<open>(int)mc_GetLE(ptr,n)\<close>\<close>

definition push_size :: "u8 list \<Rightarrow> int" where
  "push_size bs = to_i32 (sint (mc_GetLE bs))"

text \<open>
  The operation at \<open>p\<close>: where its data starts and how long it is, \<open>None\<close> if it does not fit. An
  operation that pushes no bytes has size 0.
\<close>

definition push_header :: "u8 list \<Rightarrow> nat \<Rightarrow> (nat \<times> int) option" where
  "push_header src p =
    (let opcode = src ! p; ptr = p + 1; rest = length src - ptr
     in if opcode \<le> OP_PUSHDATA4 then
       let r = (if opcode < OP_PUSHDATA1 then Some (ptr, int (unat opcode))
         else if opcode = OP_PUSHDATA1 then if rest < 1 then None else Some (ptr + 1, push_size (take 1 (drop ptr src)))
         else if opcode = OP_PUSHDATA2 then if rest < 2 then None else Some (ptr + 2, push_size (take 2 (drop ptr src)))
         else if rest < 4 then None else Some (ptr + 4, push_size (take 4 (drop ptr src))))
       in case r of None \<Rightarrow> None
         | Some (ptr, nSize) \<Rightarrow> if int (length src) < int ptr + nSize then None else Some (ptr, nSize)
     else Some (ptr, 0))"

text \<open>Offset and size of the element at the start of a script; \<open>None\<close> is \<open>MC_ERR_WRONG_SCRIPT\<close>.\<close>

definition mc_GetPushDataElement :: "u8 list \<Rightarrow> (nat \<times> int) option" where
  "mc_GetPushDataElement src =
    (if length src = 0 then None else if src ! 0 > OP_16 then None else push_header src 0)"

section \<open>Metadata and \<open>OP_RETURN\<close>\<close>

text \<open>
  The first loop of \<^verbatim>\<open>mc_ParseOpDropOpReturnScript\<close>: the offsets and sizes of up to \<open>op_drop_count\<close> elements before an
  \<open>OP_DROP\<close>, and where it stops. Entries of the arrays that no element fills are left out.
\<close>

fun op_drop_loop :: "nat \<Rightarrow> u8 list \<Rightarrow> nat \<Rightarrow> (nat \<times> int) list \<Rightarrow> int \<Rightarrow> ((nat \<times> int) list \<times> int) run" where
  "op_drop_loop 0 src op_drop_count found ptr = Runs"
| "op_drop_loop (Suc fuel) src op_drop_count found ptr =
    (if length found < op_drop_count \<and> ptr < int (length src) then
       if ptr < 0 then Outside
       else if src ! nat ptr = OP_RETURN then Returns (found, ptr)
       else case mc_GetPushDataElement (drop (nat ptr) src) of
         None \<Rightarrow> op_drop_loop fuel src op_drop_count found (ptr + 1)
       | Some (off, n) \<Rightarrow>
           let nxt = ptr + int off + n in
           if nxt < 0 then Outside
           else if nxt < int (length src) \<and> src ! nat nxt = OP_DROP
           then op_drop_loop fuel src op_drop_count (found @ [(nat ptr + off, n)]) (nxt + 1)
           else op_drop_loop fuel src op_drop_count found nxt
     else Returns (found, ptr))"

text \<open>The second loop: to the next \<open>OP_RETURN\<close>.\<close>

fun op_return_loop :: "nat \<Rightarrow> u8 list \<Rightarrow> int \<Rightarrow> int run" where
  "op_return_loop 0 src ptr = Runs"
| "op_return_loop (Suc fuel) src ptr =
    (if ptr < int (length src) then
       if ptr < 0 then Outside
       else if src ! nat ptr = OP_RETURN then Returns ptr
       else case mc_GetPushDataElement (drop (nat ptr) src) of
         None \<Rightarrow> op_return_loop fuel src (ptr + 1)
       | Some (off, n) \<Rightarrow> op_return_loop fuel src (ptr + int off + n)
     else Returns ptr)"

text \<open>The elements and the offset and size of the data after \<open>OP_RETURN\<close>; \<open>Returns None\<close> is the result NULL.\<close>

definition mc_ParseOpDropOpReturnScript :: "nat \<Rightarrow> u8 list \<Rightarrow> nat \<Rightarrow> ((nat \<times> int) list \<times> nat \<times> int) option run" where
  "mc_ParseOpDropOpReturnScript fuel src op_drop_count =
    (case op_drop_loop fuel src op_drop_count [] 0 of
       Outside \<Rightarrow> Outside | Runs \<Rightarrow> Runs
     | Returns (found, ptr) \<Rightarrow>
       (case op_return_loop fuel src ptr of
          Outside \<Rightarrow> Outside | Runs \<Rightarrow> Runs
        | Returns ptr \<Rightarrow>
          if ptr \<ge> int (length src) then Returns None
          else let ptr = nat (ptr + 1) in
            Returns (Some (found, case mc_GetPushDataElement (drop ptr src) of
              None \<Rightarrow> (ptr, 0) | Some (off, n) \<Rightarrow> (ptr + off, n)))))"

text \<open>\<^verbatim>\<open>CScript::IsUnspendable\<close> of \<^verbatim>\<open>src/src/script/script.h\<close>\<close>

definition IsUnspendable :: "nat \<Rightarrow> u8 list \<Rightarrow> bool run" where
  "IsUnspendable fuel src =
    (case mc_ParseOpDropOpReturnScript fuel src 2 of
       Outside \<Rightarrow> Outside | Runs \<Rightarrow> Runs | Returns r \<Rightarrow> Returns (r \<noteq> None))"

section \<open>Signature scripts\<close>

definition sighash_bits :: "u8 \<Rightarrow> u32 \<Rightarrow> u32" where
  "sighash_bits sighash_type result =
    (let result = (if sighash_type AND 0x1f = 0 then result OR 0x01 else result);
         sighash_type = sighash_type AND 0x1f
     in if sighash_type = 1 then result OR 0x02
        else if sighash_type = 3 then result OR 0x04
        else if sighash_type \<noteq> 2 then result OR 0x07 else result)"

fun check_sig_loop :: "nat \<Rightarrow> u8 list \<Rightarrow> int \<Rightarrow> u32 \<Rightarrow> u32 run" where
  "check_sig_loop 0 src ptr result = Runs"
| "check_sig_loop (Suc fuel) src ptr result =
    (if ptr \<ge> int (length src) then Returns result
     else if ptr < 0 then Outside
     else case mc_GetPushDataElement (drop (nat ptr) src) of
       Some (off, len) \<Rightarrow>
         let nxt = ptr + int off + len in
         if nxt \<noteq> int (length src) then
           if len \<noteq> 0
           then if nxt - 1 < 0 then Outside
             else check_sig_loop fuel src nxt (sighash_bits (src ! nat (nxt - 1)) result)
           else check_sig_loop fuel src nxt (if ptr \<noteq> 0 then result OR 0x07 else result)
         else check_sig_loop fuel src nxt result
     | None \<Rightarrow> check_sig_loop fuel src ptr (result OR 0x07))"

definition mc_CheckSigScriptForMutableTx :: "nat \<Rightarrow> u8 list \<Rightarrow> u32 run" where
  "mc_CheckSigScriptForMutableTx fuel src = check_sig_loop fuel src 0 0"

text \<open>
  The address in an input script: whether the result is a pointer or NULL, the offset and size of the last element
  (set only if all elements are pushes), whether it is a redeem script, and the signature hash type.
\<close>

definition input_sighash :: "u8 \<Rightarrow> int \<Rightarrow> int" where
  "input_sighash b sighash_type =
    (if b AND 0x1f \<noteq> 1 then if b AND 0x1f \<noteq> 3 then 2 else if sighash_type \<noteq> 2 then 3 else sighash_type
     else sighash_type)"

text \<open>One turn of the loop: a result, or the position, the flags and the size of the element.\<close>

type_synonym input_address = "bool \<times> (int \<times> int) option \<times> bool \<times> int"

definition extract_step :: "u8 list \<Rightarrow> int \<Rightarrow> bool \<Rightarrow> bool \<Rightarrow> int \<Rightarrow> input_address run + (int \<times> bool \<times> int \<times> int)" where
  "extract_step src ptr check_last is_redeem sighash_type =
    (case mc_GetPushDataElement (drop (nat ptr) src) of
       None \<Rightarrow> Inl (Returns (False, None, is_redeem, 2))
     | Some (off, len) \<Rightarrow>
         let nxt = ptr + int off + len;
             sighash_type = (if sighash_type < 0 then 1 else sighash_type);
             reads = (nxt \<noteq> int (length src) \<or> check_last) \<and> len \<noteq> 0
         in if reads \<and> nxt - 1 < 0 then Inl Outside
         else
           let sighash_type = (if reads then input_sighash (src ! nat (nxt - 1)) sighash_type else sighash_type) in
           if ptr = 0 \<and> len = 0 then Inr (nxt, True, sighash_type, len)
           else if ptr = 0 \<and> nxt = int (length src) then Inl (Returns (False, None, is_redeem, sighash_type))
           else Inr (nxt, is_redeem, sighash_type, len))"

fun extract_loop :: "nat \<Rightarrow> u8 list \<Rightarrow> bool \<Rightarrow> int \<times> bool \<times> int \<times> int \<Rightarrow> input_address run" where
  "extract_loop 0 src check_last l = Runs"
| "extract_loop (Suc fuel) src check_last (ptr, is_redeem, sighash_type, len) =
    (if ptr \<ge> int (length src) then
       Returns (if sighash_type < 0 then (False, None, is_redeem, 2)
         else (\<not> check_last, Some (ptr - len, len), is_redeem, sighash_type))
     else if ptr < 0 then Outside
     else case extract_step src ptr check_last is_redeem sighash_type of
       Inl r \<Rightarrow> r
     | Inr l \<Rightarrow> extract_loop fuel src check_last l)"

definition mc_ExtractAddressFromInputScript :: "nat \<Rightarrow> u8 list \<Rightarrow> bool \<Rightarrow> input_address run" where
  "mc_ExtractAddressFromInputScript fuel src check_last = extract_loop fuel src check_last (0, False, -1, 0)"

section \<open>The elements of a script\<close>

abbreviation (input) MC_SCR_TYPE_SCRIPTPUBKEY :: nat where "MC_SCR_TYPE_SCRIPTPUBKEY \<equiv> 0"
abbreviation (input) MC_SCR_TYPE_SCRIPTSIG :: nat where "MC_SCR_TYPE_SCRIPTSIG \<equiv> 1"
abbreviation (input) MC_SCR_TYPE_SCRIPTSIGRAW :: nat where "MC_SCR_TYPE_SCRIPTSIGRAW \<equiv> 2"

definition add_type :: "u32 \<Rightarrow> mc_Script \<Rightarrow> mc_Script" where
  "add_type flag s = s\<lparr>sc_ScriptType := sc_ScriptType s OR flag\<rparr>"

text \<open>The variables of the loop of \<open>SetScript\<close>.\<close>

record set_script =
  ss_script :: mc_Script
  ss_ptr :: int
  ss_ptrPrev :: nat
  ss_lastSize :: int
  ss_is_op_return :: bool

text \<open>An operation of an output script, before an \<open>OP_RETURN\<close>: a pushed element is taken at the \<open>OP_DROP\<close> after it.\<close>

definition output_op :: "u8 list \<Rightarrow> u8 \<Rightarrow> set_script \<Rightarrow> set_script" where
  "output_op src opcode l =
    (let s = ss_script l; lastSize = ss_lastSize l in
     if opcode = OP_RETURN then
       l\<lparr>ss_is_op_return := True,
         ss_script := (if lastSize \<ge> 0 then add_type MC_DCT_SCRIPT_TYPE_DIRTY_OP_RETURN (add_type MC_DCT_SCRIPT_TYPE_OP_RETURN s)
           else add_type MC_DCT_SCRIPT_TYPE_OP_RETURN s)\<rparr>
     else if opcode = OP_DROP then
       let s = add_type MC_DCT_SCRIPT_TYPE_OP_DROP s in
       l\<lparr>ss_script := (if lastSize \<ge> 0
         then script_SetData (take (nat lastSize) (drop (ss_ptrPrev l) src)) (script_AddElement s)
         else add_type MC_DCT_SCRIPT_TYPE_DIRTY_OP_RETURN s)\<rparr>
     else if lastSize \<ge> 0 then l\<lparr>ss_script := add_type MC_DCT_SCRIPT_TYPE_DIRTY_OP_RETURN s\<rparr>
     else l)"

text \<open>
  An operation of an input script, or the one after \<open>OP_RETURN\<close>: an element of its own, unless it is the redeem script
  of a multisignature input, whose operations are then read instead. The result has the position and the size
  to skip; a negative size would be copied.
\<close>

definition input_op :: "u8 list \<Rightarrow> nat \<Rightarrow> nat \<Rightarrow> int \<Rightarrow> set_script \<Rightarrow> (set_script \<times> nat \<times> int) option" where
  "input_op src type ptr nSize l =
    (let s = ss_script l in
     if type = MC_SCR_TYPE_SCRIPTSIG \<and> nSize > 1 \<and> src ! ptr > 0x50 \<and> src ! ptr \<le> 0x60 \<and>
        sc_NumElements s > int (unat (src ! ptr)) - 0x50
     then Some (l, ptr, 0)
     else if nSize < 0 then None
     else
       let s = script_AddElement s;
           s = (if nSize \<noteq> 0 then script_SetData (take (nat nSize) (drop ptr src)) s
             else if ss_is_op_return l then script_SetData [] s
             else script_SetData [src ! (ptr - 1)] s)
       in Some (l\<lparr>ss_script := s, ss_is_op_return := False\<rparr>, if ss_is_op_return l then length src else ptr, nSize))"

text \<open>The end of the loop's body, from \<open>ptrPrev=ptr\<close> on.\<close>

definition after_op :: "bool \<Rightarrow> u8 \<Rightarrow> set_script \<times> nat \<times> int \<Rightarrow> set_script" where
  "after_op FixedIn10007 opcode = (\<lambda>(l, ptr, nSize).
    let lastSize = (if \<not> ss_is_op_return l \<and> nSize = 0 \<and> (FixedIn10007 \<longrightarrow> opcode > OP_16) then -1 else nSize);
        s = ss_script l
    in l\<lparr>ss_ptrPrev := ptr, ss_lastSize := lastSize, ss_ptr := int ptr + nSize,
      ss_script := (if lastSize < 0 \<and> opcode \<noteq> OP_RETURN \<and> opcode \<noteq> OP_DROP
        then add_type MC_DCT_SCRIPT_TYPE_DIRTY_OP_RETURN s else s)\<rparr>)"

text \<open>After the loop: the element of an empty \<open>OP_RETURN\<close>, and the type.\<close>

definition set_script_end :: "set_script \<Rightarrow> mc_Script" where
  "set_script_end l =
    (let s = ss_script l; s = (if ss_is_op_return l then script_SetData [] (script_AddElement s) else s)
     in if sc_ScriptType s AND MC_DCT_SCRIPT_TYPE_DIRTY_OP_RETURN \<noteq> 0 \<and> sc_ScriptType s AND MC_DCT_SCRIPT_TYPE_OP_RETURN = 0
        then s\<lparr>sc_ScriptType := sc_ScriptType s - MC_DCT_SCRIPT_TYPE_DIRTY_OP_RETURN\<rparr> else s)"

fun set_script_loop :: "nat \<Rightarrow> bool \<Rightarrow> u8 list \<Rightarrow> nat \<Rightarrow> set_script \<Rightarrow> (int \<times> mc_Script) run" where
  "set_script_loop 0 fixed10007 src type l = Runs"
| "set_script_loop (Suc fuel) fixed10007 src type l =
    (if ss_ptr l \<ge> int (length src) then Returns (MC_ERR_NOERROR, set_script_end l)
     else if ss_ptr l < 0 then Outside
     else
       let p = nat (ss_ptr l); opcode = src ! p
       in case push_header src p of None \<Rightarrow> Returns (MC_ERR_WRONG_SCRIPT, ss_script l)
       | Some (ptr, nSize) \<Rightarrow>
         (case (if type = MC_SCR_TYPE_SCRIPTPUBKEY \<and> \<not> ss_is_op_return l
             then Some (output_op src opcode l, ptr, nSize) else input_op src type ptr nSize l) of
           None \<Rightarrow> Outside
         | Some r \<Rightarrow> set_script_loop fuel fixed10007 src type (after_op fixed10007 opcode r)))"

definition script_SetScript :: "nat \<Rightarrow> bool \<Rightarrow> u8 list \<Rightarrow> nat \<Rightarrow> mc_Script \<Rightarrow> (int \<times> mc_Script) run" where
  "script_SetScript fuel fixed10007 src type s =
    (let s = script_Clear s in
     if length src = 0 then Returns (MC_ERR_NOERROR, s)
     else set_script_loop fuel fixed10007 src type
       \<lparr>ss_script = s, ss_ptr = 0, ss_ptrPrev = 0, ss_lastSize = -1, ss_is_op_return = False\<rparr>)"

end
