(* ===== verification/Cscript.thy ===== *)
theory Cscript
  imports Byte_Codec
begin

text \<open>
  Transaction scripts, \<^verbatim>\<open>CScript\<close> of \<^verbatim>\<open>src/src/script/script.h\<close> and \<^verbatim>\<open>script.cpp\<close>: writing
  and reading of operations, the numbers of the script machine, and the scans over a script. A script is the list
  of its bytes, an iterator a position. Reading an operation moves the iterator forward, also when it fails, so
  every scan stops.
\<close>

section \<open>Operations\<close>

abbreviation (input) OP_0 :: u8 where "OP_0 \<equiv> 0x00"
abbreviation (input) OP_1 :: u8 where "OP_1 \<equiv> 0x51"
abbreviation (input) OP_EQUAL :: u8 where "OP_EQUAL \<equiv> 0x87"
abbreviation (input) OP_HASH160 :: u8 where "OP_HASH160 \<equiv> 0xa9"
abbreviation (input) OP_CHECKSIG :: u8 where "OP_CHECKSIG \<equiv> 0xac"
abbreviation (input) OP_CHECKSIGVERIFY :: u8 where "OP_CHECKSIGVERIFY \<equiv> 0xad"
abbreviation (input) OP_CHECKMULTISIG :: u8 where "OP_CHECKMULTISIG \<equiv> 0xae"
abbreviation (input) OP_CHECKMULTISIGVERIFY :: u8 where "OP_CHECKMULTISIGVERIFY \<equiv> 0xaf"
abbreviation (input) OP_INVALIDOPCODE :: u8 where "OP_INVALIDOPCODE \<equiv> 0xff"

text \<open>\<^verbatim>\<open>operator<<\<close> of an element; sizes are below \<open>2 ^ 32\<close>.\<close>

definition push_prefix :: "nat \<Rightarrow> u8 list" where
  "push_prefix n =
    (if n < 0x4c then [of_nat n]
     else if n \<le> 0xff then [0x4c, of_nat n]
     else if n \<le> 0xffff then 0x4d # mc_PutLE 2 (of_nat n :: u16)
     else 0x4e # mc_PutLE 4 (of_nat n :: u32))"

definition script_push :: "u8 list \<Rightarrow> u8 list \<Rightarrow> u8 list" where
  "script_push s b = s @ push_prefix (length b) @ b"

definition script_op :: "u8 list \<Rightarrow> u8 \<Rightarrow> u8 list" where
  "script_op s opcode = s @ [opcode]"

text \<open>
  \<^verbatim>\<open>GetOp2\<close>: success, the iterator, the opcode and the data. The size is unsigned.
\<close>

definition GetOp2 :: "u8 list \<Rightarrow> nat \<Rightarrow> bool \<times> nat \<times> u8 \<times> u8 list" where
  "GetOp2 src pc =
    (if pc \<ge> length src then (False, pc, OP_INVALIDOPCODE, [])
     else
       let opcode = src ! pc; pc = pc + 1; rest = length src - pc
       in if opcode \<le> 0x4e then
         let (fits, pc, nSize) =
           (if opcode < 0x4c then (True, pc, unat opcode)
            else if opcode = 0x4c then if rest < 1 then (False, pc, 0) else (True, pc + 1, unat (src ! pc))
            else if opcode = 0x4d then if rest < 2 then (False, pc, 0)
              else (True, pc + 2, unat (mc_GetLE (take 2 (drop pc src))))
            else if rest < 4 then (False, pc, 0)
              else (True, pc + 4, unat (mc_GetLE (take 4 (drop pc src)))))
         in if \<not> fits \<or> length src - pc < nSize then (False, pc, OP_INVALIDOPCODE, [])
            else (True, pc + nSize, opcode, take nSize (drop pc src))
       else (True, pc, opcode, []))"

lemma GetOp2_progress:
  assumes "GetOp2 src pc = (ok, pc', opcode, vch)"
  shows "pc < length src \<Longrightarrow> pc < pc' \<and> pc' \<le> length src" and "ok \<Longrightarrow> pc < length src"
  using assms by (auto simp: GetOp2_def Let_def split: if_splits)

lemma GetOp2_less:
  "(ok, pc', opcode, vch) = GetOp2 src pc \<Longrightarrow> pc < length src \<Longrightarrow> length src - pc' < length src - pc"
  using GetOp2_progress(1) [of src pc ok pc' opcode vch] by simp linarith

section \<open>Scans\<close>

function find_op :: "u8 list \<Rightarrow> u8 \<Rightarrow> nat \<Rightarrow> nat \<Rightarrow> nat" where
  "find_op src op pc nFound =
    (if pc < length src
     then (case GetOp2 src pc of (ok, pc', opcode, vch) \<Rightarrow>
       if ok then find_op src op pc' (if opcode = op then nFound + 1 else nFound) else nFound)
     else nFound)"
  by pat_completeness auto
termination
  by (relation "measure (\<lambda>(src, op, pc, n). length src - pc)") (auto dest: GetOp2_less)

definition script_Find :: "u8 list \<Rightarrow> u8 \<Rightarrow> nat" where
  "script_Find src op = find_op src op 0 0"

text \<open>\<^verbatim>\<open>DecodeOP_N\<close> of an opcode for a small number.\<close>

definition DecodeOP_N :: "u8 \<Rightarrow> nat" where
  "DecodeOP_N opcode = (if opcode = OP_0 then 0 else unat opcode - 0x50)"

function sigop_loop :: "u8 list \<Rightarrow> bool \<Rightarrow> nat \<Rightarrow> u8 \<Rightarrow> nat \<Rightarrow> nat" where
  "sigop_loop src fAccurate pc lastOpcode n =
    (if pc < length src
     then (case GetOp2 src pc of (ok, pc', opcode, vch) \<Rightarrow>
       if \<not> ok then n
       else sigop_loop src fAccurate pc' opcode
         (if opcode = OP_CHECKSIG \<or> opcode = OP_CHECKSIGVERIFY then n + 1
          else if opcode = OP_CHECKMULTISIG \<or> opcode = OP_CHECKMULTISIGVERIFY
          then if fAccurate \<and> lastOpcode \<ge> OP_1 \<and> lastOpcode \<le> 0x60 then n + DecodeOP_N lastOpcode else n + 20
          else n))
     else n)"
  by pat_completeness auto
termination
  by (relation "measure (\<lambda>(src, a, pc, l, n). length src - pc)") (auto dest: GetOp2_less)

definition GetSigOpCount :: "u8 list \<Rightarrow> bool \<Rightarrow> nat" where
  "GetSigOpCount src fAccurate = sigop_loop src fAccurate 0 OP_INVALIDOPCODE 0"

definition IsPayToScriptHash :: "u8 list \<Rightarrow> bool" where
  "IsPayToScriptHash src \<longleftrightarrow> length src \<ge> 23 \<and> src ! 0 = OP_HASH160 \<and> src ! 1 = 0x14 \<and> src ! 22 = OP_EQUAL"

text \<open>The last element of a script of pushes, \<open>None\<close> if there is another operation.\<close>

function last_push :: "u8 list \<Rightarrow> nat \<Rightarrow> u8 list \<Rightarrow> u8 list option" where
  "last_push src pc data =
    (if pc < length src
     then (case GetOp2 src pc of (ok, pc', opcode, vch) \<Rightarrow>
       if \<not> ok then None else if opcode > 0x60 then None else last_push src pc' vch)
     else Some data)"
  by pat_completeness auto
termination
  by (relation "measure (\<lambda>(src, pc, d). length src - pc)") (auto dest: GetOp2_less)

definition GetSigOpCount_P2SH :: "u8 list \<Rightarrow> u8 list \<Rightarrow> nat" where
  "GetSigOpCount_P2SH src scriptSig =
    (if \<not> IsPayToScriptHash src then GetSigOpCount src True
     else case last_push scriptSig 0 [] of None \<Rightarrow> 0 | Some data \<Rightarrow> GetSigOpCount data True)"

function push_only :: "u8 list \<Rightarrow> nat \<Rightarrow> bool" where
  "push_only src pc =
    (if pc < length src
     then (case GetOp2 src pc of (ok, pc', opcode, vch) \<Rightarrow>
       if \<not> ok then False else if opcode > 0x60 then False else push_only src pc')
     else True)"
  by pat_completeness auto
termination
  by (relation "measure (\<lambda>(src, pc). length src - pc)") (auto dest: GetOp2_less)

definition IsPushOnly :: "u8 list \<Rightarrow> bool" where
  "IsPushOnly src \<longleftrightarrow> push_only src 0"

definition HasSmallIntegerInTheBeginning :: "u8 list \<Rightarrow> bool" where
  "HasSmallIntegerInTheBeginning src \<longleftrightarrow>
    0 < length src \<and> (src ! 0 = OP_0 \<or> src ! 0 \<ge> OP_1 \<and> src ! 0 \<le> 0x60)"

declare find_op.simps [simp del] sigop_loop.simps [simp del] last_push.simps [simp del] push_only.simps [simp del]

section \<open>Taking off the metadata\<close>

text \<open>Whether an \<open>OP_RETURN\<close> is read; an operation that does not fit is stepped over.\<close>

function has_op_return :: "u8 list \<Rightarrow> nat \<Rightarrow> bool" where
  "has_op_return src pc =
    (if pc < length src
     then (case GetOp2 src pc of (ok, pc', opcode, vch) \<Rightarrow>
       if ok \<and> opcode = 0x6a then True else has_op_return src pc')
     else False)"
  by pat_completeness auto
termination
  by (relation "measure (\<lambda>(src, pc). length src - pc)") (auto dest: GetOp2_less)

text \<open>The number of operations before the first \<open>OP_DROP\<close>, -1 if there is none; \<open>None\<close> if one does not fit.\<close>

function op_drop_pos :: "u8 list \<Rightarrow> nat \<Rightarrow> int \<Rightarrow> int option" where
  "op_drop_pos src pc count =
    (if pc < length src
     then (case GetOp2 src pc of (ok, pc', opcode, vch) \<Rightarrow>
       if \<not> ok then None else if opcode = 0x75 then Some count else op_drop_pos src pc' (count + 1))
     else Some (-1))"
  by pat_completeness auto
termination
  by (relation "measure (\<lambda>(src, pc, c). length src - pc)") (auto dest: GetOp2_less)

declare has_op_return.simps [simp del] op_drop_pos.simps [simp del]

text \<open>The first \<open>n\<close> operations, written again.\<close>

fun copy_ops :: "nat \<Rightarrow> u8 list \<Rightarrow> nat \<Rightarrow> u8 list \<Rightarrow> u8 list" where
  "copy_ops 0 src pc scriptOutput = scriptOutput"
| "copy_ops (Suc n) src pc scriptOutput =
    (case GetOp2 src pc of (ok, pc', opcode, vch) \<Rightarrow>
      copy_ops n src pc' (if vch \<noteq> [] then script_push scriptOutput vch else script_op scriptOutput opcode))"

definition RemoveOpDrops :: "u8 list \<Rightarrow> u8 list" where
  "RemoveOpDrops src =
    (if has_op_return src 0 then src
     else case op_drop_pos src 0 0 of None \<Rightarrow> src
       | Some opDropPos \<Rightarrow> if opDropPos < 0 then src else copy_ops (nat (opDropPos - 1)) src 0 [])"

section \<open>Numbers of the script machine\<close>

text \<open>\<^verbatim>\<open>while(absvalue)\<close> of \<^verbatim>\<open>CScriptNum::serialize\<close>\<close>

fun abs_bytes :: "nat \<Rightarrow> u8 list" where
  "abs_bytes absvalue = (if absvalue = 0 then [] else of_nat (absvalue mod 256) # abs_bytes (absvalue div 256))"

declare abs_bytes.simps [simp del]

definition num_serialize :: "int \<Rightarrow> u8 list" where
  "num_serialize v =
    (if v = 0 then []
     else
       let result = abs_bytes (nat \<bar>v\<bar>)
       in if last result AND 0x80 \<noteq> 0 then result @ [if v < 0 then 0x80 else 0x00]
          else if v < 0 then butlast result @ [last result OR 0x80]
          else result)"

definition num_set_vch :: "u8 list \<Rightarrow> int" where
  "num_set_vch vch =
    (if vch = [] then 0
     else
       let result = le_loop 0 0 vch
       in if last vch AND 0x80 \<noteq> 0 then - sint (result AND NOT (push_bit (8 * (length vch - 1)) 0x80))
          else sint result)"

text \<open>The constructor from bytes; \<open>None\<close> stands for the exception \<^verbatim>\<open>scriptnum_error\<close>.\<close>

definition CScriptNum :: "u8 list \<Rightarrow> bool \<Rightarrow> int option" where
  "CScriptNum vch fRequireMinimal =
    (if length vch > 4 then None
     else if fRequireMinimal \<and> length vch > 0 \<and> last vch AND 0x7f = 0 \<and>
       (length vch \<le> 1 \<or> vch ! (length vch - 2) AND 0x80 = 0) then None
     else Some (num_set_vch vch))"

definition num_getint :: "int \<Rightarrow> int" where
  "num_getint v = (if v > 2 ^ 31 - 1 then 2 ^ 31 - 1 else if v < - (2 ^ 31) then - (2 ^ 31) else v)"

definition push_int64 :: "u8 list \<Rightarrow> int \<Rightarrow> u8 list" where
  "push_int64 s n =
    (if n = -1 \<or> n \<ge> 1 \<and> n \<le> 16 then s @ [of_int (n + 0x50)]
     else if n = 0 then s @ [OP_0]
     else script_push s (num_serialize n))"

section \<open>Bytes as numbers\<close>

lemma u8_forall: "list_all (\<lambda>n. P (of_nat n)) [0..<256] \<Longrightarrow> P (w :: u8)"
proof -
  assume a: "list_all (\<lambda>n. P (of_nat n)) [0..<256]"
  have "unat w < 256" by (simp add: unsigned_less [where 'a = nat and 'b = 8, simplified])
  then have "P (of_nat (unat w))" using a [unfolded list_all_iff, THEN bspec, of "unat w"] by auto
  then show "P w" by simp
qed

fun le_value :: "u8 list \<Rightarrow> nat" where
  "le_value [] = 0"
| "le_value (b # bs) = unat b + 256 * le_value bs"

lemma unat_u8: "unat (b :: u8) < 256"
  by (simp add: unsigned_less [where 'a = nat and 'b = 8, simplified])

lemma le_value_less: "le_value bs < 256 ^ length bs"
proof (induction bs)
  case (Cons b bs)
  have "unat b + 256 * le_value bs < 256 + 256 * (256 ^ length bs - 1)" if "le_value bs < 256 ^ length bs"
    using that unat_u8 [of b] by (intro add_less_le_mono) simp_all
  then show ?case using Cons by (simp add: algebra_simps)
qed simp

lemma mc_GetLE_Cons: "mc_GetLE (b # bs) = ucast b + push_bit 8 (mc_GetLE bs)"
proof -
  have "mc_GetLE (b # bs) = ucast b OR push_bit 8 (mc_GetLE bs)"
  proof (rule bit_word_eqI)
    fix n :: nat
    assume "n < LENGTH(64)"
    show "bit (mc_GetLE (b # bs)) n = bit (ucast b OR push_bit 8 (mc_GetLE bs)) n"
    proof (cases "n < 8")
      case True
      then show ?thesis by (auto simp: bit_mc_GetLE bit_simps)
    next
      case False
      moreover have "n div 8 = Suc ((n - 8) div 8)" "n mod 8 = (n - 8) mod 8"
        using False by (simp_all add: div_if [of n] mod_if [of n])
      ultimately show ?thesis
        by (auto simp: bit_mc_GetLE bit_simps dest: bit_imp_le_length)
    qed
  qed
  also have "\<dots> = ucast b + push_bit 8 (mc_GetLE bs)"
    using bit_imp_le_length [of b]
    by (intro disjunctive_add_eq_or [symmetric] bit_word_eqI) (fastforce simp: bit_simps)
  finally show ?thesis .
qed

lemma unat_mc_GetLE: "length bs \<le> 8 \<Longrightarrow> mc_GetLE bs = of_nat (le_value bs)"
proof (induction bs)
  case Nil
  then show ?case by (simp add: mc_GetLE_def)
next
  case (Cons b bs)
  have "(ucast b :: u64) = of_nat (unat b)" by (simp add: word_unat_eq_iff unsigned_ucast_eq unsigned_of_nat)
  then show ?case using Cons by (simp add: mc_GetLE_Cons push_bit_eq_mult)
qed

lemma unat_mc_GetLE_value: "length bs \<le> 8 \<Longrightarrow> unat (mc_GetLE bs) = le_value bs"
proof -
  assume l: "length bs \<le> 8"
  have "le_value bs < 256 ^ length bs" by (rule le_value_less)
  also have "\<dots> \<le> 256 ^ 8" using l by (rule power_increasing) simp
  finally show ?thesis using l by (simp add: unat_mc_GetLE unsigned_of_nat take_bit_nat_eq_self)
qed

lemma le_value_append: "le_value (as @ bs) = le_value as + 256 ^ length as * le_value bs"
  by (induction as) (simp_all add: algebra_simps)

lemma abs_bytes_Nil [simp]: "abs_bytes 0 = []" "abs_bytes n = [] \<longleftrightarrow> n = 0"
  by (subst abs_bytes.simps; simp)+

lemma le_value_abs_bytes: "le_value (abs_bytes n) = n"
proof (induction n rule: abs_bytes.induct)
  case (1 n)
  show ?case
  proof (cases "n = 0")
    case False
    then have "le_value (abs_bytes n) = unat (of_nat (n mod 256) :: u8) + 256 * le_value (abs_bytes (n div 256))"
      by (subst abs_bytes.simps) simp
    also have "unat (of_nat (n mod 256) :: u8) = n mod 256"
      by (simp add: unsigned_of_nat take_bit_nat_eq_self)
    finally show ?thesis using 1 False by simp
  qed simp
qed

lemma abs_bytes_le_value:
  assumes "bs \<noteq> [] \<Longrightarrow> last bs \<noteq> 0"
  shows "abs_bytes (le_value bs) = bs"
  using assms
proof (induction bs)
  case (Cons b bs)
  have "le_value (b # bs) \<noteq> 0"
  proof
    assume "le_value (b # bs) = 0"
    then have z: "b = 0" "le_value bs = 0" by (simp_all add: unat_eq_zero)
    then have "bs = []" using Cons by (cases "bs = []") auto
    then show False using Cons.prems z by simp
  qed
  then have "abs_bytes (le_value (b # bs)) = of_nat (le_value (b # bs) mod 256) # abs_bytes (le_value (b # bs) div 256)"
    by (subst abs_bytes.simps) simp
  moreover have "le_value (b # bs) mod 256 = unat b" "le_value (b # bs) div 256 = le_value bs"
    using unat_u8 [of b] by simp_all
  ultimately show ?case using Cons by (cases "bs = []") simp_all
qed simp

lemma last_abs_bytes: "n \<noteq> 0 \<Longrightarrow> last (abs_bytes n) \<noteq> 0"
proof (induction n rule: abs_bytes.induct)
  case (1 n)
  have e: "abs_bytes n = of_nat (n mod 256) # abs_bytes (n div 256)"
    using 1(2) by (subst abs_bytes.simps) simp
  show ?case
  proof (cases "n div 256 = 0")
    case True
    then have "n < 256" by simp
    then have "unat (of_nat (n mod 256) :: u8) = n" by (simp add: unsigned_of_nat take_bit_nat_eq_self)
    then have "(of_nat (n mod 256) :: u8) \<noteq> 0" using 1(2) by (metis unsigned_0)
    then show ?thesis using True e by simp
  next
    case False
    then show ?thesis using 1 e by simp
  qed
qed

lemma length_abs_bytes: "n < 256 ^ k \<Longrightarrow> length (abs_bytes n) \<le> k"
proof (induction k arbitrary: n)
  case (Suc k)
  show ?case
  proof (cases "n = 0")
    case False
    have "n div 256 < 256 ^ k" using Suc.prems by (simp add: less_mult_imp_div_less mult.commute)
    then show ?thesis using Suc.IH [of "n div 256"] False by (subst abs_bytes.simps) simp
  qed simp
qed simp

end
