(* ===== verification/Cscript_Facts.thy ===== *)
theory Cscript_Facts
  imports Cscript
begin

text \<open>
  Facts about transaction scripts: script numbers have exactly one minimal encoding, operations are read as they
  were written, and taking off the metadata leaves the operations before it.
\<close>

section \<open>Script numbers\<close>

lemma u8_msb:
  "b AND 0x80 \<noteq> 0 \<longleftrightarrow> 0x80 \<le> (b :: u8)"
  "b AND 0x7f = 0 \<longleftrightarrow> b = 0 \<or> b = 0x80"
  "0x80 \<le> b \<Longrightarrow> unat b = 128 + unat (b AND 0x7f)"
  "b < 0x80 \<Longrightarrow> b OR 0x80 = b + 0x80"
  "0x80 \<le> b \<Longrightarrow> (b AND 0x7f) OR 0x80 = b \<and> b AND 0x7f < 0x80"
  "b < 0x80 \<Longrightarrow> (b OR 0x80) AND 0x7f = b \<and> 0x80 \<le> b OR 0x80"
proof -
  show "b AND 0x80 \<noteq> 0 \<longleftrightarrow> 0x80 \<le> b" by (rule u8_forall) code_simp
  show "b AND 0x7f = 0 \<longleftrightarrow> b = 0 \<or> b = 0x80" by (rule u8_forall) code_simp
  have "0x80 \<le> b \<longrightarrow> unat b = 128 + unat (b AND 0x7f)" by (rule u8_forall) code_simp
  then show "0x80 \<le> b \<Longrightarrow> unat b = 128 + unat (b AND 0x7f)" by blast
  have "b < 0x80 \<longrightarrow> b OR 0x80 = b + 0x80" by (rule u8_forall) code_simp
  then show "b < 0x80 \<Longrightarrow> b OR 0x80 = b + 0x80" by blast
  have "0x80 \<le> b \<longrightarrow> (b AND 0x7f) OR 0x80 = b \<and> b AND 0x7f < 0x80" by (rule u8_forall) code_simp
  then show "0x80 \<le> b \<Longrightarrow> (b AND 0x7f) OR 0x80 = b \<and> b AND 0x7f < 0x80" by blast
  have "b < 0x80 \<longrightarrow> (b OR 0x80) AND 0x7f = b \<and> 0x80 \<le> b OR 0x80" by (rule u8_forall) code_simp
  then show "b < 0x80 \<Longrightarrow> (b OR 0x80) AND 0x7f = b \<and> 0x80 \<le> b OR 0x80" by blast
qed

lemma le_loop_value: "length bs \<le> 8 \<Longrightarrow> le_loop 0 0 bs = of_nat (le_value bs)"
  using unat_mc_GetLE [of bs] by (simp add: mc_GetLE_def)

lemma sint_of_nat_small: "n < 2 ^ 63 \<Longrightarrow> sint (of_nat n :: u64) = int n"
  by (simp add: sint_uint unsigned_of_nat take_bit_nat_eq_self signed_take_bit_int_eq_self)

text \<open>The value of an encoding of at most seven bytes: magnitude, then sign in the top bit.\<close>

lemma num_set_vch_pos:
  assumes "length bs < 8" and "bs \<noteq> [] \<Longrightarrow> last bs < 0x80"
  shows "num_set_vch bs = int (le_value bs)"
proof -
  have "le_value bs < 256 ^ length bs" by (rule le_value_less)
  also have "(256 :: nat) ^ length bs \<le> 256 ^ 7" using assms(1) by (intro power_increasing) auto
  finally have "le_value bs < 2 ^ 63" by simp
  then show ?thesis
    using assms u8_msb(1) [of "last bs"] by (auto simp: num_set_vch_def le_loop_value sint_of_nat_small)
qed

lemma num_set_vch_neg:
  assumes "length bs < 7" and "0x80 \<le> b"
  shows "num_set_vch (bs @ [b]) = - int (le_value (bs @ [b AND 0x7f]))"
proof -
  let ?v = "le_value (bs @ [b AND 0x7f])"
  have "?v < 256 ^ length (bs @ [b AND 0x7f])" by (rule le_value_less)
  also have "(256 :: nat) ^ length (bs @ [b AND 0x7f]) \<le> 256 ^ 7" using assms(1) by (intro power_increasing) auto
  finally have v: "?v < 2 ^ 63" by simp
  have "le_loop 0 0 (bs @ [b]) AND NOT (push_bit (8 * length bs) 0x80) = le_loop 0 0 (bs @ [b AND 0x7f])"
  proof (rule bit_word_eqI)
    fix n :: nat
    assume n: "n < LENGTH(64)"
    have p: "bit (push_bit (8 * length bs) (0x80 :: u64)) n \<longleftrightarrow> n = 8 * length bs + 7"
    proof -
      have "push_bit (8 * length bs) (0x80 :: u64) = push_bit (8 * length bs + 7) 1"
        by (simp add: push_bit_eq_mult power_add)
      then show ?thesis using n by (auto simp: bit_simps)
    qed
    have q: "bit (b AND 0x7f) m \<longleftrightarrow> bit b m \<and> m < 7" for m
    proof -
      have "(0x7f :: u8) = mask 7" by (simp add: mask_eq_exp_minus_1)
      then have "bit (b AND 0x7f) m \<longleftrightarrow> bit (b AND mask 7) m" by simp
      then show ?thesis by (auto simp: bit_simps)
    qed
    have e: "bit (le_loop 0 0 (bs @ [c])) n \<longleftrightarrow> n < 8 * length bs + 8 \<and> bit ((bs @ [c]) ! (n div 8)) (n mod 8)" for c
      using n by (simp add: bit_le_loop add.commute)
    have l: "bit (le_loop 0 0 (bs @ [b]) AND NOT (push_bit (8 * length bs) 0x80)) n \<longleftrightarrow>
        bit (le_loop 0 0 (bs @ [b])) n \<and> n \<noteq> 8 * length bs + 7"
      using n p by (simp add: bit_and_iff bit_not_iff)
    consider (low) "n div 8 < length bs" | (at) "n div 8 = length bs" | (high) "8 * length bs + 8 \<le> n" by linarith
    then show "bit (le_loop 0 0 (bs @ [b]) AND NOT (push_bit (8 * length bs) 0x80)) n =
        bit (le_loop 0 0 (bs @ [b AND 0x7f])) n"
    proof cases
      case low
      then have "n \<noteq> 8 * length bs + 7" by linarith
      with low show ?thesis by (simp only: l e) (simp add: nth_append)
    next
      case at
      then have "n \<noteq> 8 * length bs + 7 \<longleftrightarrow> n mod 8 < 7" using mult_div_mod_eq [of 8 n] by auto
      with at show ?thesis by (simp only: l e) (simp add: q)
    next
      case high
      then show ?thesis by (simp only: l e) simp
    qed
  qed
  then have "num_set_vch (bs @ [b]) = - sint (le_loop 0 0 (bs @ [b AND 0x7f]))"
    using assms u8_msb(1) [of b] by (simp add: num_set_vch_def Let_def)
  also have "\<dots> = - int ?v"
    using le_loop_value [of "bs @ [b AND 0x7f]"] assms(1) sint_of_nat_small [OF v] by simp
  finally show ?thesis .
qed

lemma le_value_butlast: "bs \<noteq> [] \<Longrightarrow> le_value bs = le_value (butlast bs) + 256 ^ (length bs - 1) * unat (last bs)"
  using le_value_append [of "butlast bs" "[last bs]"] by simp

lemma le_value_top:
  assumes "length bs \<le> 3" and "b < 0x80"
  shows "le_value (bs @ [b]) < 2 ^ 31"
proof -
  have u: "unat b \<le> 127" using assms(2) by (simp add: word_less_nat_alt)
  have "le_value (bs @ [b]) < 256 ^ length bs * (1 + unat b)"
    using le_value_less [of bs] by (simp add: le_value_append algebra_simps)
  also have "\<dots> \<le> 256 ^ length bs * 128" using u by simp
  also have "\<dots> \<le> 256 ^ 3 * 128" using assms(1) by (intro mult_right_mono power_increasing) simp_all
  finally show ?thesis by simp
qed

lemma num_set_vch_range:
  assumes "length vch \<le> 4"
  shows "\<bar>num_set_vch vch\<bar> < 2 ^ 31"
proof (cases vch rule: rev_cases)
  case Nil
  then show ?thesis by (simp add: num_set_vch_def)
next
  case (snoc bs b)
  show ?thesis
  proof (cases "0x80 \<le> b")
    case True
    then show ?thesis
      using snoc assms num_set_vch_neg [of bs b] le_value_top [of bs "b AND 0x7f"] u8_msb(5) [OF True] by simp
  next
    case False
    then show ?thesis using snoc assms num_set_vch_pos [of vch] le_value_top [of bs b] by simp
  qed
qed

lemma num_serialize_cases:
  assumes "v \<noteq> 0" and "r = abs_bytes (nat \<bar>v\<bar>)"
  obtains (extra) "0x80 \<le> last r" "num_serialize v = r @ [if v < 0 then 0x80 else 0x00]"
    | (neg) "last r < 0x80" "v < 0" "num_serialize v = butlast r @ [last r OR 0x80]"
    | (pos) "last r < 0x80" "0 < v" "num_serialize v = r"
proof -
  have e: "num_serialize v = (if 0x80 \<le> last r then r @ [if v < 0 then 0x80 else 0x00]
      else if v < 0 then butlast r @ [last r OR 0x80] else r)"
    using assms u8_msb(1) [of "last r"] by (simp add: num_serialize_def Let_def)
  show thesis
  proof (cases "0x80 \<le> last r")
    case True
    then show ?thesis using e extra by simp
  next
    case False
    then have low: "last r < 0x80" by simp
    show ?thesis
    proof (cases "v < 0")
      case True
      show ?thesis by (rule neg) (use low True False e in simp_all)
    next
      case False
      show ?thesis by (rule pos) (use low False \<open>\<not> 0x80 \<le> last r\<close> e assms(1) in simp_all)
    qed
  qed
qed

lemma CScriptNum_serialize:
  assumes "\<bar>v\<bar> < 2 ^ 31"
  shows "CScriptNum (num_serialize v) minimal = Some v"
proof (cases "v = 0")
  case True
  then show ?thesis by (simp add: num_serialize_def CScriptNum_def num_set_vch_def)
next
  case False
  define r where "r = abs_bytes (nat \<bar>v\<bar>)"
  have r: "r \<noteq> []" "last r \<noteq> 0" "le_value r = nat \<bar>v\<bar>" "length r \<le> 4"
    using False assms last_abs_bytes [of "nat \<bar>v\<bar>"] length_abs_bytes [of "nat \<bar>v\<bar>" 4]
    by (simp_all add: r_def le_value_abs_bytes)
  from False r_def show ?thesis
  proof (cases rule: num_serialize_cases)
    case extra
    have "length r \<noteq> 4"
    proof
      assume l: "length r = 4"
      have "128 \<le> unat (last r)" using u8_msb(3) [OF extra(1)] by simp
      then have "256 ^ 3 * 128 \<le> le_value r" using le_value_butlast [OF r(1)] l by simp
      then show False using r(3) assms by simp
    qed
    then have l: "length r \<le> 3" using r(4) by simp
    have p: "num_set_vch (r @ [0]) = int (le_value r)"
      using num_set_vch_pos [of "r @ [0]"] l by (simp add: le_value_append)
    have n: "num_set_vch (r @ [0x80]) = - int (le_value r)"
      using num_set_vch_neg [of r "0x80"] l by (simp add: le_value_append)
    have "(r @ [c]) ! (length r - 1) AND 0x80 \<noteq> 0" for c
      using extra(1) r(1) u8_msb(1) [of "last r"] by (simp add: nth_append last_conv_nth)
    then show ?thesis
      using extra p n l r False by (auto simp: CScriptNum_def)
  next
    case neg
    have b: "0x80 \<le> last r OR 0x80" "(last r OR 0x80) AND 0x7f = last r" using u8_msb(6) [OF neg(1)] by auto
    have "num_set_vch (butlast r @ [last r OR 0x80]) = - int (le_value r)"
      using num_set_vch_neg [of "butlast r" "last r OR 0x80"] b r by simp
    then show ?thesis
      using neg r b u8_msb(2) [of "last r OR 0x80"] by (simp add: CScriptNum_def)
  next
    case pos
    have "num_set_vch r = int (le_value r)" using num_set_vch_pos [of r] pos(1) r by simp
    then show ?thesis
      using pos r u8_msb(2) [of "last r"] by (auto simp: CScriptNum_def)
  qed
qed

lemma num_serialize_minimal:
  assumes "CScriptNum vch True = Some v"
  shows "num_serialize v = vch"
proof (cases vch rule: rev_cases)
  case Nil
  then show ?thesis using assms by (simp add: CScriptNum_def num_set_vch_def num_serialize_def)
next
  case (snoc bs b)
  have l: "length bs < 4" and v: "v = num_set_vch (bs @ [b])"
    and m: "b AND 0x7f = 0 \<Longrightarrow> bs \<noteq> [] \<and> 0x80 \<le> last bs"
    using assms snoc u8_msb(1) [of "last bs"]
    by (auto simp: CScriptNum_def nth_append last_conv_nth Suc_le_eq split: if_splits)
  have big: "bs \<noteq> [] \<Longrightarrow> 0x80 \<le> last bs \<Longrightarrow> last bs \<noteq> 0 \<and> le_value bs \<noteq> 0"
    using le_value_butlast [of bs] u8_msb(3) [of "last bs"] by auto
  show ?thesis
  proof (cases "0x80 \<le> b")
    case True
    let ?c = "b AND 0x7f"
    have vn: "v = - int (le_value (bs @ [?c]))" using num_set_vch_neg [of bs b] True l v by simp
    show ?thesis
    proof (cases "?c = 0")
      case c: True
      then have "v = - int (le_value bs)" using vn by (simp add: le_value_append)
      moreover have "abs_bytes (le_value bs) = bs" using m [OF c] big by (intro abs_bytes_le_value) auto
      moreover have "b = 0x80" using c u8_msb(2) [of b] True by auto
      ultimately show ?thesis
        using m [OF c] big snoc u8_msb(1) [of "last bs"] by (simp add: num_serialize_def Let_def)
    next
      case c: False
      have "abs_bytes (le_value (bs @ [?c])) = bs @ [?c]" using c by (intro abs_bytes_le_value) simp
      moreover have "le_value (bs @ [?c]) \<noteq> 0" using c by (simp add: le_value_append unat_eq_zero)
      moreover have "?c OR 0x80 = b" "\<not> 0x80 \<le> ?c" using u8_msb(5) [OF True] by auto
      ultimately show ?thesis
        using vn snoc u8_msb(1) [of ?c] by (simp add: num_serialize_def Let_def)
    qed
  next
    case False
    then have vp: "v = int (le_value (bs @ [b]))" using num_set_vch_pos [of "bs @ [b]"] l v by simp
    show ?thesis
    proof (cases "b = 0")
      case c: True
      then have "v = int (le_value bs)" using vp by (simp add: le_value_append)
      moreover have "abs_bytes (le_value bs) = bs" using m big c by (intro abs_bytes_le_value) auto
      ultimately show ?thesis
        using m big snoc u8_msb(1) [of "last bs"] c by (simp add: num_serialize_def Let_def)
    next
      case c: False
      have "abs_bytes (le_value (bs @ [b])) = bs @ [b]" using c by (intro abs_bytes_le_value) simp
      moreover have "le_value (bs @ [b]) \<noteq> 0" using c by (simp add: le_value_append unat_eq_zero)
      ultimately show ?thesis
        using vp snoc u8_msb(1) [of b] False by (simp add: num_serialize_def Let_def)
    qed
  qed
qed

section \<open>Operations\<close>

text \<open>An operation of a script as the wallet writes it.\<close>

datatype script_item = Push "u8 list" | Op u8

fun item_ok :: "script_item \<Rightarrow> bool" where
  "item_ok (Push b) \<longleftrightarrow> b \<noteq> [] \<and> length b < 2 ^ 32"
| "item_ok (Op c) \<longleftrightarrow> c = OP_0 \<or> c > 0x4e"

fun item_bytes :: "script_item \<Rightarrow> u8 list" where
  "item_bytes (Push b) = push_prefix (length b) @ b"
| "item_bytes (Op c) = [c]"

fun item_opcode :: "script_item \<Rightarrow> u8" where
  "item_opcode (Push b) = hd (push_prefix (length b))"
| "item_opcode (Op c) = c"

fun item_data :: "script_item \<Rightarrow> u8 list" where
  "item_data (Push b) = b"
| "item_data (Op c) = []"

definition script_of :: "script_item list \<Rightarrow> u8 list" where
  "script_of items = concat (map item_bytes items)"

lemma script_of_simps [simp]:
  "script_of [] = []" "script_of (i # items) = item_bytes i @ script_of items"
  "script_of (items @ items') = script_of items @ script_of items'"
  by (simp_all add: script_of_def)

lemma unat_of_nat_small: "n < 2 ^ LENGTH('a::len) \<Longrightarrow> unat (of_nat n :: 'a word) = n"
  by (simp add: unsigned_of_nat take_bit_nat_eq_self)

lemma le_size:
  "n < 2 ^ 16 \<Longrightarrow> mc_GetLE (mc_PutLE 2 (of_nat n :: u16)) = of_nat n"
  "n < 2 ^ 32 \<Longrightarrow> mc_GetLE (mc_PutLE 4 (of_nat n :: u32)) = of_nat n"
  by (simp_all add: mc_GetLE_PutLE_full word_unat_eq_iff unsigned_ucast_eq unsigned_of_nat take_bit_nat_eq_self)

lemma push_prefix_cases:
  assumes "n < 2 ^ 32"
  obtains (direct) "n < 0x4c" "push_prefix n = [of_nat n]" "(of_nat n :: u8) < 0x4c" "unat (of_nat n :: u8) = n"
    | (one) "0x4c \<le> n" "n < 2 ^ 8" "push_prefix n = [0x4c, of_nat n]" "unat (of_nat n :: u8) = n"
    | (two) "2 ^ 8 \<le> n" "n < 2 ^ 16" "push_prefix n = 0x4d # mc_PutLE 2 (of_nat n :: u16)"
    | (four) "2 ^ 16 \<le> n" "push_prefix n = 0x4e # mc_PutLE 4 (of_nat n :: u32)"
proof -
  consider "n < 0x4c" | "0x4c \<le> n" "n < 2 ^ 8" | "2 ^ 8 \<le> n" "n < 2 ^ 16" | "2 ^ 16 \<le> n" by linarith
  then show thesis
  proof cases
    case 1
    moreover have "unat (of_nat n :: u8) = n" using 1 by (simp add: unat_of_nat_small)
    ultimately show thesis by (intro direct) (simp_all add: push_prefix_def word_less_nat_alt)
  next
    case 2
    then show thesis by (intro one) (simp_all add: push_prefix_def unat_of_nat_small)
  next
    case 3
    then show thesis by (intro two) (simp_all add: push_prefix_def)
  next
    case 4
    then show thesis by (intro four) (simp_all add: push_prefix_def)
  qed
qed

lemma push_prefix_opcode:
  assumes "n < 2 ^ 32"
  shows "push_prefix n \<noteq> []" and "hd (push_prefix n) \<le> 0x4e" and "0 < n \<Longrightarrow> hd (push_prefix n) \<noteq> 0"
  using assms
  by (cases rule: push_prefix_cases; auto simp: word_le_nat_alt word_unat_eq_iff)+

lemma item_bytes_ok:
  assumes "item_ok i"
  shows "item_bytes i \<noteq> []" and "item_opcode i = hd (item_bytes i)"
  using assms push_prefix_opcode(1) by (cases i; simp)+

text \<open>Reading an operation where it was written.\<close>

lemma GetOp2_item:
  assumes "item_ok i"
  shows "GetOp2 (pre @ item_bytes i @ rest) (length pre) =
    (True, length pre + length (item_bytes i), item_opcode i, item_data i)"
proof (cases i)
  case (Op c)
  then have "c = 0 \<or> \<not> c \<le> 0x4e" using assms by auto
  then show ?thesis using Op by (auto simp: GetOp2_def Let_def nth_append)
next
  case (Push b)
  then have l: "length b < 2 ^ 32" using assms by simp
  then show ?thesis
  proof (cases rule: push_prefix_cases)
    case direct
    then have "(of_nat (length b) :: u8) \<le> 0x4e" by (simp add: word_le_nat_alt)
    with direct Push show ?thesis by (simp add: GetOp2_def Let_def nth_append)
  next
    case one
    with Push show ?thesis by (simp add: GetOp2_def Let_def nth_append)
  next
    case two
    then have "unat (of_nat (length b) :: u64) = length b" by (simp add: unat_of_nat_small)
    with two Push le_size(1) [of "length b"] show ?thesis by (simp add: GetOp2_def Let_def nth_append)
  next
    case four
    then have "unat (of_nat (length b) :: u64) = length b" using l by (simp add: unat_of_nat_small)
    with four Push le_size(2) [of "length b"] l show ?thesis by (simp add: GetOp2_def Let_def nth_append)
  qed
qed

lemma GetOp2_script:
  assumes "item_ok i" and "src = script_of pre @ item_bytes i @ rest"
  shows "GetOp2 src (length (script_of pre)) =
      (True, length (script_of (pre @ [i])), item_opcode i, item_data i)"
    and "length (script_of pre) < length src"
  using GetOp2_item [OF assms(1), of "script_of pre" rest] item_bytes_ok(1) [OF assms(1)] assms(2) by simp_all

lemma copy_ops_script:
  assumes "\<forall>i\<in>set items. item_ok i" and "src = script_of pre @ script_of items @ rest"
  shows "copy_ops (length items) src (length (script_of pre)) out = out @ script_of items"
  using assms
proof (induction items arbitrary: pre out)
  case Nil
  then show ?case by simp
next
  case (Cons i items)
  then have i: "item_ok i" by simp
  have s: "src = script_of pre @ item_bytes i @ script_of items @ rest" using Cons.prems by simp
  have IH: "copy_ops (length items) src (length (script_of (pre @ [i]))) o' = o' @ script_of items" for o'
    using Cons.prems by (intro Cons.IH) simp_all
  have "(if item_data i \<noteq> [] then script_push out (item_data i) else script_op out (item_opcode i)) = out @ item_bytes i"
    using i by (cases i) (auto simp: script_push_def script_op_def)
  then show ?case using GetOp2_script [OF i s] IH by (simp del: script_of_simps(3))
qed

lemma op_drop_pos_script:
  assumes "\<forall>i\<in>set (items @ [i]). item_ok i" and "src = script_of pre @ script_of (items @ [i]) @ rest"
    and "\<forall>i\<in>set items. item_opcode i \<noteq> 0x75" and "item_opcode i = 0x75"
  shows "op_drop_pos src (length (script_of pre)) n = Some (n + int (length items))"
  using assms
proof (induction items arbitrary: pre n)
  case Nil
  then have s: "src = script_of pre @ item_bytes i @ rest" and i: "item_ok i" by simp_all
  show ?case using GetOp2_script [OF i s] Nil.prems(4) by (subst op_drop_pos.simps) simp
next
  case (Cons j items)
  then have j: "item_ok j" by simp
  have s: "src = script_of pre @ item_bytes j @ script_of (items @ [i]) @ rest" using Cons.prems by simp
  have "op_drop_pos src (length (script_of (pre @ [j]))) (n + 1) = Some (n + 1 + int (length items))"
    using Cons.prems by (intro Cons.IH) simp_all
  then show ?case using GetOp2_script [OF j s] Cons.prems(3) by (subst op_drop_pos.simps) simp
qed

lemma has_op_return_script:
  assumes "\<forall>i\<in>set items. item_ok i \<and> item_opcode i \<noteq> 0x6a" and "src = script_of pre @ script_of items"
  shows "\<not> has_op_return src (length (script_of pre))"
  using assms
proof (induction items arbitrary: pre)
  case Nil
  then show ?case by (subst has_op_return.simps) simp
next
  case (Cons i items)
  then have i: "item_ok i" by simp
  have s: "src = script_of pre @ item_bytes i @ script_of items" using Cons.prems by simp
  have "\<not> has_op_return src (length (script_of (pre @ [i])))"
    using Cons.prems by (intro Cons.IH) simp_all
  then show ?case using GetOp2_script [OF i s] Cons.prems(1) by (subst has_op_return.simps) simp
qed

lemma push_only_script:
  assumes "\<forall>i\<in>set items. item_ok i" and "src = script_of pre @ script_of items"
  shows "push_only src (length (script_of pre)) \<longleftrightarrow> (\<forall>i\<in>set items. item_opcode i \<le> 0x60)"
  using assms
proof (induction items arbitrary: pre)
  case Nil
  then show ?case by (subst push_only.simps) simp
next
  case (Cons i items)
  then have i: "item_ok i" by simp
  have s: "src = script_of pre @ item_bytes i @ script_of items" using Cons.prems by simp
  have "push_only src (length (script_of (pre @ [i]))) \<longleftrightarrow> (\<forall>i\<in>set items. item_opcode i \<le> 0x60)"
    using Cons.prems by (intro Cons.IH) simp_all
  then show ?case using GetOp2_script [OF i s] by (subst push_only.simps) auto
qed

text \<open>The conditions of an output, its metadata elements with their \<open>OP_DROP\<close>s taken off.\<close>

definition with_metadata :: "script_item list \<Rightarrow> u8 list list \<Rightarrow> u8 list" where
  "with_metadata items elems = script_of (items @ concat (map (\<lambda>e. [Push e, Op 0x75]) elems))"

lemma item_opcode_Push: "item_ok (Push e) \<Longrightarrow> item_opcode (Push e) \<le> 0x4e"
  using push_prefix_opcode(2) [of "length e"] by simp

lemma RemoveOpDrops_metadata:
  assumes "\<forall>i\<in>set items. item_ok i \<and> item_opcode i \<noteq> 0x6a \<and> item_opcode i \<noteq> 0x75"
    and "\<forall>e\<in>set elems. e \<noteq> [] \<and> length e < 2 ^ 32"
  shows "RemoveOpDrops (with_metadata items elems) = script_of items"
proof -
  let ?all = "items @ concat (map (\<lambda>e. [Push e, Op 0x75]) elems)"
  have push: "item_opcode (Push e) \<noteq> 0x6a \<and> item_opcode (Push e) \<noteq> 0x75" if "e \<in> set elems" for e
    using item_opcode_Push [of e] that assms(2) by (auto simp del: item_opcode.simps)
  have all: "\<forall>i\<in>set ?all. item_ok i \<and> item_opcode i \<noteq> 0x6a"
    using assms push by (auto simp del: item_opcode.simps(1))
  then have r: "\<not> has_op_return (script_of ?all) 0"
    using has_op_return_script [of ?all "script_of ?all" "[]"] by simp
  show ?thesis
  proof (cases elems)
    case Nil
    have "op_drop_pos src (length (script_of pre)) n = Some (-1)"
      if "\<forall>i\<in>set items. item_ok i \<and> item_opcode i \<noteq> 0x75" "src = script_of pre @ script_of items" for src pre items n
      using that
    proof (induction items arbitrary: pre n)
      case Nil
      then show ?case by (subst op_drop_pos.simps) simp
    next
      case (Cons i items)
      then have i: "item_ok i" by simp
      have s: "src = script_of pre @ item_bytes i @ script_of items" using Cons.prems by simp
      have "op_drop_pos src (length (script_of (pre @ [i]))) (n + 1) = Some (-1)"
        using Cons.prems by (intro Cons.IH) simp_all
      then show ?case using GetOp2_script [OF i s] Cons.prems(1) by (subst op_drop_pos.simps) simp
    qed
    from this [of items "script_of items" "[]" 0] show ?thesis
      using r Nil assms(1) by (simp add: RemoveOpDrops_def with_metadata_def)
  next
    case (Cons e es)
    have "op_drop_pos (script_of ?all) 0 0 = Some (0 + int (length (items @ [Push e])))"
      using op_drop_pos_script [of "items @ [Push e]" "Op 0x75" "script_of ?all" "[]"
          "script_of (concat (map (\<lambda>e. [Push e, Op 0x75]) es))" 0] assms push [of e] Cons
      by (auto simp del: item_opcode.simps(1))
    moreover have "copy_ops (length items) (script_of ?all) 0 [] = script_of items"
      using copy_ops_script [of items "script_of ?all" "[]" "script_of (concat (map (\<lambda>e. [Push e, Op 0x75]) elems))" "[]"]
        assms by simp
    ultimately show ?thesis
      using r Cons by (simp add: RemoveOpDrops_def with_metadata_def)
  qed
qed

end
