(* ===== verification/Script_Wire.thy ===== *)
theory Script_Wire
  imports Script_Parse Cscript_Facts "HOL-Library.Sublist"
begin

text \<open>
  From elements to a transaction script and back: \<open>SetScript\<close> returns and stays inside the script unless a four-byte
  size is negative as an \<open>int\<close>, it runs for ever on such a size, and it reads the elements that the wallet has put
  into an output.
\<close>

section \<open>Sizes that are not negative\<close>

text \<open>No four-byte size with its top bit set follows a byte that may be read as \<open>OP_PUSHDATA4\<close>.\<close>

definition sizes_ok :: "u8 list \<Rightarrow> bool" where
  "sizes_ok src \<longleftrightarrow> (\<forall>p. p + 4 < length src \<longrightarrow> src ! p = OP_PUSHDATA4 \<longrightarrow> src ! (p + 4) < 0x80)"

lemma push_size_small:
  assumes "length bs \<le> 3 \<or> length bs = 4 \<and> bs ! 3 < 0x80"
  shows "0 \<le> push_size bs" and "push_size bs = int (le_value bs)"
proof -
  have "le_value bs < 2 ^ 31"
  proof (cases "length bs \<le> 3")
    case True
    have "le_value bs < 256 ^ length bs" by (rule le_value_less)
    also have "(256 :: nat) ^ length bs \<le> 256 ^ 3" using True by (rule power_increasing) simp
    finally show ?thesis by simp
  next
    case False
    then have l: "length bs = 4" "bs ! 3 < 0x80" using assms by auto
    have "le_value (butlast bs) < 256 ^ 3" using le_value_less [of "butlast bs"] l(1) by simp
    moreover have "unat (last bs) < 128" using l by (simp add: word_less_nat_alt last_conv_nth flip: length_greater_0_conv)
    moreover have "bs \<noteq> []" using l by auto
    ultimately show ?thesis using le_value_butlast [of bs] l(1) by simp
  qed
  moreover have "length bs \<le> 8" using assms by auto
  ultimately show e: "push_size bs = int (le_value bs)"
    by (simp add: push_size_def unat_mc_GetLE sint_of_nat_small to_i32_id)
  show "0 \<le> push_size bs" by (simp add: e)
qed

lemma sizes_ok_four:
  assumes "sizes_ok src" and "src ! p = OP_PUSHDATA4" and "4 \<le> length src - (p + 1)" and "p < length src"
  shows "length (take 4 (drop (p + 1) src)) = 4 \<and> take 4 (drop (p + 1) src) ! 3 < 0x80"
proof -
  have "p + 4 < length src" using assms(3,4) by linarith
  then have "src ! (p + 4) < 0x80" using assms(1,2) by (simp add: sizes_ok_def)
  then show ?thesis using assms(3) by (simp add: add.commute)
qed

lemma push_opcodes:
  "(c :: u8) \<le> OP_PUSHDATA4 \<Longrightarrow> \<not> c < OP_PUSHDATA1 \<Longrightarrow> c \<noteq> OP_PUSHDATA1 \<Longrightarrow> c \<noteq> OP_PUSHDATA2 \<Longrightarrow> c = OP_PUSHDATA4"
  by unat_arith

lemma push_header_ok:
  assumes "sizes_ok src" and "p < length src" and "push_header src p = Some (q, n)"
  shows "p < q" and "0 \<le> n" and "int q + n \<le> int (length src)"
proof -
  have two: "0 \<le> push_size (take k bs)" if "k \<le> 3" for k bs
    using that by (intro push_size_small) auto
  have four: "0 \<le> push_size (take 4 (drop (p + 1) src))" if "src ! p = OP_PUSHDATA4" "4 \<le> length src - (p + 1)"
    using sizes_ok_four [OF assms(1) that assms(2)] by (intro push_size_small) auto
  show "p < q" and "int q + n \<le> int (length src)"
    using assms(2,3) by (auto simp: push_header_def Let_def split: if_splits option.splits)
  show "0 \<le> n"
    using assms(2,3) two [of 1] two [of 2] four push_opcodes [of "src ! p"]
    by (auto simp: push_header_def Let_def split: if_splits option.splits)
qed

lemma push_header_GetOp2:
  assumes "sizes_ok src" and "p < length src"
  shows "push_header src p = (case GetOp2 src p of (ok, pc, opcode, vch) \<Rightarrow>
    if ok then Some (pc - length vch, int (length vch)) else None)"
proof -
  have s: "push_size bs = int (le_value bs)" "unat (mc_GetLE bs) = le_value bs"
    if "length bs \<le> 3 \<or> length bs = 4 \<and> bs ! 3 < 0x80" for bs
    using push_size_small(2) [OF that] that by (auto intro!: unat_mc_GetLE_value)
  have first: "take 1 (drop (p + 1) src) = [src ! (p + 1)]" if "1 \<le> length src - (p + 1)"
    using that by (simp add: take_Suc_conv_app_nth)
  consider (no) "\<not> src ! p \<le> OP_PUSHDATA4" | (direct) "src ! p < OP_PUSHDATA1" | (one) "src ! p = OP_PUSHDATA1"
    | (two) "src ! p = OP_PUSHDATA2" | (four) "src ! p = OP_PUSHDATA4"
    using push_opcodes by blast
  then show ?thesis
  proof cases
    case no
    then show ?thesis using assms(2) by (simp add: push_header_def GetOp2_def)
  next
    case direct
    then have "src ! p \<le> OP_PUSHDATA4" by unat_arith
    define k where "k = unat (src ! p)"
    have k: "unat (src ! p) = k" "uint (src ! p) = int k" by (simp_all add: k_def)
    show ?thesis
      using assms(2) direct \<open>src ! p \<le> OP_PUSHDATA4\<close> by (auto simp: push_header_def GetOp2_def Let_def k)
  next
    case one
    define k where "k = unat (src ! Suc p)"
    have k: "unat (src ! Suc p) = k" "uint (src ! Suc p) = int k" by (simp_all add: k_def)
    have ps: "push_size [src ! Suc p] = int k" using s [of "[src ! Suc p]"] by (simp add: k_def)
    show ?thesis
    proof (cases "length src - (p + 1) < 1")
      case True
      then show ?thesis using assms(2) one by (simp add: push_header_def GetOp2_def)
    next
      case False
      then have "take 1 (drop (p + 1) src) = [src ! (p + 1)]" using first by simp
      then show ?thesis
        using assms(2) one False by (auto simp: push_header_def GetOp2_def Let_def k ps)
    qed
  next
    case two
    then show ?thesis using assms(2) s [of "take 2 (drop (p + 1) src)"]
      by (auto simp: push_header_def GetOp2_def Let_def)
  next
    case four
    then show ?thesis using assms(2) s [of "take 4 (drop (p + 1) src)"] sizes_ok_four [OF assms(1) four _ assms(2)]
      by (auto simp: push_header_def GetOp2_def Let_def)
  qed
qed

section \<open>\<open>SetScript\<close> returns, inside the script\<close>

text \<open>Every element is a piece of the script.\<close>

definition parse_ok :: "u8 list \<Rightarrow> mc_Script \<Rightarrow> bool" where
  "parse_ok src s \<longleftrightarrow> script_ok s \<and> sc_CurrentElement s = sc_NumElements s - 1 \<and> (\<forall>e\<in>set (elements s). sublist e src)"

lemma add_type_simps [simp]:
  "script_ok (add_type f s) \<longleftrightarrow> script_ok s" "elements (add_type f s) = elements s"
  "sc_NumElements (add_type f s) = sc_NumElements s" "sc_CurrentElement (add_type f s) = sc_CurrentElement s"
  "sc_ScriptType (add_type f s) = sc_ScriptType s OR f" "parse_ok src (add_type f s) \<longleftrightarrow> parse_ok src s"
  by (simp_all add: add_type_def script_ok_def elements_def elem_at_def parse_ok_def)

lemma set_type_simps [simp]:
  "script_ok (s\<lparr>sc_ScriptType := t\<rparr>) \<longleftrightarrow> script_ok s" "elements (s\<lparr>sc_ScriptType := t\<rparr>) = elements s"
  by (simp_all add: script_ok_def elements_def elem_at_def)

lemma add_element:
  assumes "script_ok s" and "sc_CurrentElement s = sc_NumElements s - 1"
  shows "script_ok (script_SetData bs (script_AddElement s))"
    and "elements (script_SetData bs (script_AddElement s)) = elements s @ [bs]"
    and "sc_CurrentElement (script_SetData bs (script_AddElement s)) = sc_NumElements (script_SetData bs (script_AddElement s)) - 1"
    and "sc_ScriptType (script_SetData bs (script_AddElement s)) = sc_ScriptType s"
  using new_element [OF assms, of "[bs]"] by (simp_all add: at_end_def)

lemma parse_ok_add:
  "parse_ok src s \<Longrightarrow> sublist bs src \<Longrightarrow> parse_ok src (script_SetData bs (script_AddElement s))"
  using add_element [of s bs] by (auto simp: parse_ok_def)

lemma sublist_take_drop: "sublist (take n (drop m xs)) xs"
  by (meson sublist_drop sublist_take sublist_order.order_trans)

lemma output_op_ok:
  assumes "parse_ok src (ss_script l)"
  shows "parse_ok src (ss_script (output_op src opcode l))" and "ss_ptr (output_op src opcode l) = ss_ptr l"
  using assms by (auto simp: output_op_def Let_def intro!: parse_ok_add sublist_take_drop)

lemma input_op_ok:
  assumes "parse_ok src (ss_script l)" and "0 \<le> nSize" and "0 < ptr" and "ptr \<le> length src"
  obtains l' q n where "input_op src type ptr nSize l = Some (l', q, n)" and "parse_ok src (ss_script l')"
    and "0 \<le> n" and "ptr \<le> q"
proof -
  have one: "sublist [src ! (ptr - 1)] src"
    using assms(3,4) sublist_take_drop [of 1 "ptr - 1" src] by (simp add: take_Suc_conv_app_nth)
  let ?s = "script_AddElement (ss_script l)"
  have add: "parse_ok src (if nSize \<noteq> 0 then script_SetData (take (nat nSize) (drop ptr src)) ?s
      else if ss_is_op_return l then script_SetData [] ?s else script_SetData [src ! (ptr - 1)] ?s)"
    using parse_ok_add [OF assms(1) one] parse_ok_add [OF assms(1) sublist_take_drop [of "nat nSize" ptr]]
      parse_ok_add [OF assms(1), of "[]"] by simp
  show thesis
  proof (cases "type = MC_SCR_TYPE_SCRIPTSIG \<and> nSize > 1 \<and> src ! ptr > 0x50 \<and> src ! ptr \<le> 0x60 \<and>
      sc_NumElements (ss_script l) > int (unat (src ! ptr)) - 0x50")
    case True
    then show ?thesis using assms(1) by (intro that [of l ptr 0]) (simp_all add: input_op_def Let_def)
  next
    case False
    then have "input_op src type ptr nSize l = Some (l\<lparr>ss_script := (if nSize \<noteq> 0 then script_SetData (take (nat nSize) (drop ptr src)) ?s
      else if ss_is_op_return l then script_SetData [] ?s else script_SetData [src ! (ptr - 1)] ?s), ss_is_op_return := False\<rparr>,
      if ss_is_op_return l then length src else ptr, nSize)"
      using assms(2) by (simp only: input_op_def Let_def if_False not_less [symmetric])
    then show ?thesis by (rule that) (use add assms in simp_all)
  qed
qed

lemma after_op_simps:
  "ss_ptr (after_op fx opcode (l, q, n)) = int q + n"
  "parse_ok src (ss_script (after_op fx opcode (l, q, n))) \<longleftrightarrow> parse_ok src (ss_script l)"
  by (simp_all add: after_op_def Let_def)

lemma set_script_end_ok: "parse_ok src (ss_script l) \<Longrightarrow> parse_ok src (set_script_end l)"
  using parse_ok_add [of src "ss_script l" "[]"] by (auto simp: set_script_end_def Let_def parse_ok_def)

lemma set_script_loop_returns:
  assumes "sizes_ok src" and "parse_ok src (ss_script l)" and "0 \<le> ss_ptr l"
    and "length src - nat (ss_ptr l) < fuel"
  shows "\<exists>err s. set_script_loop fuel fx src type l = Returns (err, s) \<and> err \<in> {MC_ERR_NOERROR, MC_ERR_WRONG_SCRIPT} \<and> parse_ok src s"
  using assms(2-4)
proof (induction fuel arbitrary: l)
  case 0
  then show ?case by simp
next
  case (Suc fuel)
  show ?case
  proof (cases "ss_ptr l \<ge> int (length src)")
    case True
    then show ?thesis using Suc.prems set_script_end_ok by simp
  next
    case False
    define p where "p = nat (ss_ptr l)"
    have p: "ss_ptr l = int p" "p < length src" using False Suc.prems(2) by (simp_all add: p_def)
    show ?thesis
    proof (cases "push_header src p")
      case None
      then show ?thesis using p Suc.prems(1) by simp
    next
      case (Some qn)
      obtain q n where h: "push_header src p = Some (q, n)" using Some by (cases qn) simp
      note b = push_header_ok [OF assms(1) p(2) h]
      have "q \<le> length src" using b by linarith
      then obtain l2 q2 n2 where i: "input_op src type q n l = Some (l2, q2, n2)" "parse_ok src (ss_script l2)" "0 \<le> n2" "q \<le> q2"
        using input_op_ok [OF Suc.prems(1) b(2)] b(1) by (metis less_nat_zero_code neq0_conv)
      have IH: "\<exists>err s. set_script_loop fuel fx src type (after_op fx c (l', q', n')) = Returns (err, s) \<and>
          err \<in> {MC_ERR_NOERROR, MC_ERR_WRONG_SCRIPT} \<and> parse_ok src s"
        if "parse_ok src (ss_script l')" "0 \<le> n'" "q \<le> q'" for c l' q' n'
      proof (rule Suc.IH)
        have "length src - p < Suc fuel" using Suc.prems(3) p by simp
        then show "length src - nat (ss_ptr (after_op fx c (l', q', n'))) < fuel"
          using that b(1) p(2) by (simp add: after_op_simps)
      qed (use that in \<open>simp_all add: after_op_simps\<close>)
      show ?thesis
      proof (cases "type = MC_SCR_TYPE_SCRIPTPUBKEY \<and> \<not> ss_is_op_return l")
        case True
        then show ?thesis
          using p h IH [OF output_op_ok(1) [OF Suc.prems(1)] b(2) order_refl] by (simp add: Let_def)
      next
        case False
        then show ?thesis using p h IH [OF i(2-4)] i(1) by (auto simp: Let_def)
      qed
    qed
  qed
qed

lemma SetScript_returns:
  assumes "sizes_ok src" and "script_ok s" and "length src < fuel"
  obtains err s' where "script_SetScript fuel fx src type s = Returns (err, s')"
    and "err = MC_ERR_NOERROR \<or> err = MC_ERR_WRONG_SCRIPT" and "parse_ok src s'"
proof (cases "length src = 0")
  case True
  have "parse_ok src (script_Clear s)"
    using assms(2) Clear_ok(2) [of s] by (simp add: parse_ok_def at_end_def)
  with True show thesis by (intro that [of MC_ERR_NOERROR "script_Clear s"]) (simp_all add: script_SetScript_def)
next
  case False
  have "parse_ok src (script_Clear s)"
    using assms(2) Clear_ok(2) [of s] by (simp add: parse_ok_def at_end_def)
  then show thesis
    using set_script_loop_returns [OF assms(1), of "\<lparr>ss_script = script_Clear s, ss_ptr = 0, ss_ptrPrev = 0,
        ss_lastSize = -1, ss_is_op_return = False\<rparr>" fuel fx type] False assms(3) that
    by (auto simp: script_SetScript_def)
qed

section \<open>A size that takes the pointer back\<close>

text \<open>\<open>OP_PUSHDATA4\<close> with the size \<open>-5\<close>: the five bytes of the operation are skipped back.\<close>

definition back_five :: "u8 list" where
  "back_five = [OP_PUSHDATA4, 0xfb, 0xff, 0xff, 0xff]"

lemma push_header_back: "push_header (back_five @ rest) 0 = Some (5, -5)"
proof -
  have "push_size [0xfb, 0xff, 0xff, 0xff] = -5" by code_simp
  then show ?thesis by (simp add: push_header_def back_five_def Let_def)
qed

lemma set_script_loop_back:
  assumes "ss_ptr l = 0" and "\<not> ss_is_op_return l"
  shows "set_script_loop fuel fx (back_five @ rest) MC_SCR_TYPE_SCRIPTPUBKEY l = Runs"
  using assms
proof (induction fuel arbitrary: l)
  case 0
  then show ?case by simp
next
  case (Suc fuel)
  have "(back_five @ rest) ! 0 = OP_PUSHDATA4" by (simp add: back_five_def)
  moreover have "ss_ptr (after_op fx OP_PUSHDATA4 (output_op (back_five @ rest) OP_PUSHDATA4 l, 5, -5)) = 0"
    "\<not> ss_is_op_return (after_op fx OP_PUSHDATA4 (output_op (back_five @ rest) OP_PUSHDATA4 l, 5, -5))"
    using Suc.prems by (auto simp: after_op_def output_op_def Let_def)
  moreover have "length back_five = 5" by (simp add: back_five_def)
  ultimately show ?case
    using Suc push_header_back [of rest] by (simp add: Let_def)
qed

section \<open>What the wallet writes\<close>

lemma push_header_item:
  assumes "item_ok i" and "length (item_data i) < 2 ^ 31"
  shows "push_header (pre @ item_bytes i @ rest) (length pre) =
    Some (length pre + length (item_bytes i) - length (item_data i), int (length (item_data i)))"
proof (cases i)
  case (Op c)
  then have "c = 0 \<or> \<not> c \<le> OP_PUSHDATA4" using assms by auto
  then show ?thesis using Op by (auto simp: push_header_def Let_def nth_append)
next
  case (Push b)
  then have l: "length b < 2 ^ 32" "length b < 2 ^ 31" using assms by simp_all
  have ps: "push_size bs = int (length b)" if "mc_GetLE bs = of_nat (length b)" for bs
    using that l(2) by (simp add: push_size_def sint_of_nat_small to_i32_id)
  from l(1) show ?thesis
  proof (cases rule: push_prefix_cases)
    case direct
    then have "(of_nat (length b) :: u8) \<le> OP_PUSHDATA4" by (simp add: word_le_nat_alt)
    moreover have "uint (of_nat (length b) :: u8) = int (length b)" using direct(1) by (simp add: unsigned_of_nat take_bit_nat_eq_self)
    ultimately show ?thesis using direct Push by (simp add: push_header_def Let_def nth_append)
  next
    case one
    have "mc_GetLE [of_nat (length b)] = of_nat (length b)"
      using unat_mc_GetLE [of "[of_nat (length b)]"] one(4) by simp
    with one Push ps show ?thesis by (simp add: push_header_def Let_def nth_append)
  next
    case two
    with Push ps le_size(1) [of "length b"] show ?thesis by (simp add: push_header_def Let_def nth_append)
  next
    case four
    with Push ps le_size(2) [of "length b"] l show ?thesis by (simp add: push_header_def Let_def nth_append)
  qed
qed

text \<open>The loop between two operations of an output script, with the elements read so far.\<close>

definition between :: "set_script \<Rightarrow> nat \<Rightarrow> u8 list list \<Rightarrow> bool" where
  "between l pos E \<longleftrightarrow> script_ok (ss_script l) \<and> sc_CurrentElement (ss_script l) = sc_NumElements (ss_script l) - 1 \<and>
     elements (ss_script l) = E \<and> ss_ptr l = int pos \<and> \<not> ss_is_op_return l"

definition type_bit :: "nat \<Rightarrow> set_script \<Rightarrow> bool" where
  "type_bit n l \<longleftrightarrow> bit (sc_ScriptType (ss_script l)) n"

lemma type_flags:
  "bit (MC_DCT_SCRIPT_TYPE_OP_RETURN) n \<longleftrightarrow> n = 0" "bit (MC_DCT_SCRIPT_TYPE_OP_DROP) n \<longleftrightarrow> n = 1"
  "bit (MC_DCT_SCRIPT_TYPE_DIRTY_OP_RETURN) n \<longleftrightarrow> n = 2"
  using bit_exp_iff [where 'a = "32 word", of 0 n] bit_exp_iff [where 'a = "32 word", of 1 n]
    bit_exp_iff [where 'a = "32 word", of 2 n] by auto

lemma flag_test: "(w :: u32) AND 0x01 \<noteq> 0 \<longleftrightarrow> bit w 0" "w AND 0x04 \<noteq> 0 \<longleftrightarrow> bit w 2"
  using and_exp_eq_0_iff_not_bit [of w 0] and_exp_eq_0_iff_not_bit [of w 2] by simp_all

declare set_script_loop.simps(2) [simp del]

lemma loop_step:
  assumes "item_ok i" and "length (item_data i) < 2 ^ 31" and "src = pre @ item_bytes i @ rest"
    and "ss_ptr l = int (length pre)" and "\<not> ss_is_op_return l"
  shows "set_script_loop (Suc f) fx src MC_SCR_TYPE_SCRIPTPUBKEY l = set_script_loop f fx src MC_SCR_TYPE_SCRIPTPUBKEY
    (after_op fx (item_opcode i) (output_op src (item_opcode i) l,
      length pre + length (item_bytes i) - length (item_data i), int (length (item_data i))))"
proof -
  have "src ! length pre = item_opcode i"
    using item_bytes_ok [OF assms(1)] assms(3) by (simp add: nth_append hd_conv_nth)
  moreover have "length pre < length src" using item_bytes_ok(1) [OF assms(1)] assms(3) by simp
  moreover have "push_header src (length pre) =
      Some (length pre + length (item_bytes i) - length (item_data i), int (length (item_data i)))"
    using push_header_item [OF assms(1,2), of pre rest] assms(3) by simp
  ultimately show ?thesis
    using assms(4,5) by (subst set_script_loop.simps(2)) (simp add: Let_def)
qed

lemma item_data_le: "length (item_data i) \<le> length (item_bytes i)"
  by (cases i) simp_all

lemma step_condition:
  assumes "item_ok i" and "length (item_data i) < 2 ^ 31" and "src = pre @ item_bytes i @ rest"
    and "between l (length pre) E" and "item_opcode i \<noteq> OP_RETURN" and "item_opcode i \<noteq> OP_DROP"
  obtains l' where "between l' (length (pre @ item_bytes i)) E" and "type_bit 0 l' = type_bit 0 l"
    and "\<And>f. set_script_loop (Suc f) fx src MC_SCR_TYPE_SCRIPTPUBKEY l = set_script_loop f fx src MC_SCR_TYPE_SCRIPTPUBKEY l'"
proof -
  let ?l = "after_op fx (item_opcode i) (output_op src (item_opcode i) l,
      length pre + length (item_bytes i) - length (item_data i), int (length (item_data i)))"
  have "between ?l (length (pre @ item_bytes i)) E" "type_bit 0 ?l = type_bit 0 l"
    using assms(4-6) item_data_le [of i]
    by (auto simp: between_def type_bit_def after_op_def output_op_def Let_def bit_or_iff type_flags)
  then show thesis
    using loop_step [OF assms(1-3), of l] assms(4) by (intro that [of ?l]) (simp_all add: between_def)
qed

lemma steps_conditions:
  assumes "\<forall>i\<in>set items. item_ok i \<and> length (item_data i) < 2 ^ 31 \<and> item_opcode i \<noteq> OP_RETURN \<and> item_opcode i \<noteq> OP_DROP"
    and "src = script_of pre @ script_of items @ rest" and "between l (length (script_of pre)) E"
  shows "\<exists>l'. between l' (length (script_of (pre @ items))) E \<and> type_bit 0 l' = type_bit 0 l \<and>
    (\<forall>f. set_script_loop (f + length items) fx src MC_SCR_TYPE_SCRIPTPUBKEY l = set_script_loop f fx src MC_SCR_TYPE_SCRIPTPUBKEY l')"
  using assms
proof (induction items arbitrary: pre l)
  case Nil
  then show ?case by auto
next
  case (Cons i items)
  have s: "src = script_of pre @ item_bytes i @ script_of items @ rest" using Cons.prems(2) by simp
  obtain l1 where l1: "between l1 (length (script_of pre @ item_bytes i)) E" "type_bit 0 l1 = type_bit 0 l"
    "\<And>f. set_script_loop (Suc f) fx src MC_SCR_TYPE_SCRIPTPUBKEY l = set_script_loop f fx src MC_SCR_TYPE_SCRIPTPUBKEY l1"
    using step_condition [OF _ _ s Cons.prems(3)] Cons.prems(1) by auto
  have "\<exists>l'. between l' (length (script_of ((pre @ [i]) @ items))) E \<and> type_bit 0 l' = type_bit 0 l1 \<and>
    (\<forall>f. set_script_loop (f + length items) fx src MC_SCR_TYPE_SCRIPTPUBKEY l1 = set_script_loop f fx src MC_SCR_TYPE_SCRIPTPUBKEY l')"
    using Cons.prems l1(1) by (intro Cons.IH) simp_all
  with l1 show ?case by auto
qed

text \<open>A pushed element and its \<open>OP_DROP\<close>.\<close>

lemma step_element:
  assumes "e \<noteq> []" and "length e < 2 ^ 31" and "src = pre @ item_bytes (Push e) @ OP_DROP # rest"
    and "between l (length pre) E"
  obtains l' where "between l' (length (pre @ item_bytes (Push e) @ [OP_DROP])) (E @ [e])" and "type_bit 0 l' = type_bit 0 l"
    and "ss_lastSize l < 0 \<Longrightarrow> type_bit 2 l' = type_bit 2 l" and "ss_lastSize l' < 0"
    and "\<And>f. set_script_loop (Suc (Suc f)) fx src MC_SCR_TYPE_SCRIPTPUBKEY l = set_script_loop f fx src MC_SCR_TYPE_SCRIPTPUBKEY l'"
proof -
  have ok: "item_ok (Push e)" "length (item_data (Push e)) < 2 ^ 31" using assms(1,2) by simp_all
  have c: "item_opcode (Push e) \<noteq> OP_RETURN" "item_opcode (Push e) \<noteq> OP_DROP"
    using item_opcode_Push [OF ok(1)] by (auto simp del: item_opcode.simps)
  define l1 where "l1 = after_op fx (item_opcode (Push e)) (output_op src (item_opcode (Push e)) l,
      length pre + length (item_bytes (Push e)) - length e, int (length e))"
  have l1: "between l1 (length (pre @ item_bytes (Push e))) E" "type_bit 0 l1 = type_bit 0 l" "ss_lastSize l1 = int (length e)"
    "ss_ptrPrev l1 = length pre + length (push_prefix (length e))" "ss_lastSize l < 0 \<Longrightarrow> type_bit 2 l1 = type_bit 2 l"
    using assms(1,4) c
    by (auto simp: l1_def between_def type_bit_def after_op_def output_op_def Let_def bit_or_iff type_flags)
  have e: "take (length e) (drop (ss_ptrPrev l1) src) = e" using l1(4) assms(3) by simp
  have s2: "src = (pre @ item_bytes (Push e)) @ item_bytes (Op OP_DROP) @ rest" using assms(3) by simp
  define l2 where "l2 = after_op fx OP_DROP (output_op src OP_DROP l1, length (pre @ item_bytes (Push e) @ [OP_DROP]), 0)"
  have sc: "ss_script l2 = script_SetData e (script_AddElement (add_type MC_DCT_SCRIPT_TYPE_OP_DROP (ss_script l1)))"
    "ss_lastSize l2 = -1" "ss_ptr l2 = int (length (pre @ item_bytes (Push e) @ [OP_DROP]))" "ss_is_op_return l2 = ss_is_op_return l1"
    using l1(1,3) e by (auto simp: l2_def between_def after_op_def output_op_def Let_def)
  have "between l2 (length (pre @ item_bytes (Push e) @ [OP_DROP])) (E @ [e])"
    "type_bit 0 l2 = type_bit 0 l1" "type_bit 2 l2 = type_bit 2 l1"
    using l1(1) add_element [of "add_type MC_DCT_SCRIPT_TYPE_OP_DROP (ss_script l1)" e] sc
    by (auto simp: between_def type_bit_def bit_or_iff type_flags)
  moreover have "set_script_loop (Suc (Suc f)) fx src MC_SCR_TYPE_SCRIPTPUBKEY l =
      set_script_loop f fx src MC_SCR_TYPE_SCRIPTPUBKEY l2" for f
  proof -
    have "set_script_loop (Suc (Suc f)) fx src MC_SCR_TYPE_SCRIPTPUBKEY l = set_script_loop (Suc f) fx src MC_SCR_TYPE_SCRIPTPUBKEY l1"
      using loop_step [OF ok assms(3), of l "Suc f" fx] assms(4) by (simp add: between_def l1_def)
    also have "\<dots> = set_script_loop f fx src MC_SCR_TYPE_SCRIPTPUBKEY l2"
      using loop_step [OF _ _ s2, of l1 f fx] l1(1) by (simp add: between_def l2_def)
    finally show ?thesis .
  qed
  ultimately show thesis using l1 sc(2) by (intro that [of l2]) simp_all
qed

lemma steps_elements:
  assumes "\<forall>e\<in>set elems. e \<noteq> [] \<and> length e < 2 ^ 31"
    and "src = pre @ script_of (concat (map (\<lambda>e. [Push e, Op OP_DROP]) elems)) @ rest" and "between l (length pre) E"
  shows "\<exists>l'. between l' (length (pre @ script_of (concat (map (\<lambda>e. [Push e, Op OP_DROP]) elems)))) (E @ elems) \<and>
    type_bit 0 l' = type_bit 0 l \<and> (ss_lastSize l < 0 \<longrightarrow> type_bit 2 l' = type_bit 2 l \<and> ss_lastSize l' < 0) \<and>
    (\<forall>f. set_script_loop (f + 2 * length elems) fx src MC_SCR_TYPE_SCRIPTPUBKEY l = set_script_loop f fx src MC_SCR_TYPE_SCRIPTPUBKEY l')"
  using assms
proof (induction elems arbitrary: pre l E)
  case Nil
  then show ?case by auto
next
  case (Cons e elems)
  have s: "src = pre @ item_bytes (Push e) @ OP_DROP # script_of (concat (map (\<lambda>e. [Push e, Op OP_DROP]) elems)) @ rest"
    using Cons.prems(2) by simp
  have e: "e \<noteq> []" "length e < 2 ^ 31" using Cons.prems(1) by simp_all
  obtain l1 where l1: "between l1 (length (pre @ item_bytes (Push e) @ [OP_DROP])) (E @ [e])" "type_bit 0 l1 = type_bit 0 l"
    "ss_lastSize l < 0 \<Longrightarrow> type_bit 2 l1 = type_bit 2 l" "ss_lastSize l1 < 0"
    "\<And>f. set_script_loop (Suc (Suc f)) fx src MC_SCR_TYPE_SCRIPTPUBKEY l = set_script_loop f fx src MC_SCR_TYPE_SCRIPTPUBKEY l1"
    using step_element [OF e s Cons.prems(3), of fx] by blast
  have "\<exists>l'. between l' (length ((pre @ item_bytes (Push e) @ [OP_DROP]) @ script_of (concat (map (\<lambda>e. [Push e, Op OP_DROP]) elems))))
      ((E @ [e]) @ elems) \<and>
    type_bit 0 l' = type_bit 0 l1 \<and> (ss_lastSize l1 < 0 \<longrightarrow> type_bit 2 l' = type_bit 2 l1 \<and> ss_lastSize l' < 0) \<and>
    (\<forall>f. set_script_loop (f + 2 * length elems) fx src MC_SCR_TYPE_SCRIPTPUBKEY l1 = set_script_loop f fx src MC_SCR_TYPE_SCRIPTPUBKEY l')"
    using Cons.prems l1(1) by (intro Cons.IH) simp_all
  with l1 show ?case by (auto simp: add.commute)
qed

definition start_script :: "mc_Script \<Rightarrow> set_script" where
  "start_script s = \<lparr>ss_script = script_Clear s, ss_ptr = 0, ss_ptrPrev = 0, ss_lastSize = -1, ss_is_op_return = False\<rparr>"

lemma start_script_between:
  "script_ok s \<Longrightarrow> between (start_script s) 0 []" "\<not> type_bit n (start_script s)" "ss_lastSize (start_script s) < 0"
proof -
  show "script_ok s \<Longrightarrow> between (start_script s) 0 []"
    using Clear_ok [of s] by (simp add: between_def start_script_def at_end_def)
  show "\<not> type_bit n (start_script s)" by (simp add: start_script_def type_bit_def script_Clear_def)
  show "ss_lastSize (start_script s) < 0" by (simp add: start_script_def)
qed

lemma IsOpReturn_bit: "script_IsOpReturnScript s \<longleftrightarrow> bit (sc_ScriptType s) 0"
  and IsDirty_bit: "script_IsDirtyOpReturnScript s \<longleftrightarrow> bit (sc_ScriptType s) 2"
  by (simp_all add: script_IsOpReturnScript_def script_IsDirtyOpReturnScript_def flag_test)

text \<open>An output with metadata: the elements, in order.\<close>

lemma SetScript_metadata:
  assumes "script_ok s" and "\<forall>i\<in>set items. item_ok i \<and> length (item_data i) < 2 ^ 31 \<and> item_opcode i \<noteq> OP_RETURN \<and> item_opcode i \<noteq> OP_DROP"
    and "\<forall>e\<in>set elems. e \<noteq> [] \<and> length e < 2 ^ 31" and "length items + 2 * length elems < fuel"
  shows "\<exists>s'. script_SetScript fuel fx (with_metadata items elems) MC_SCR_TYPE_SCRIPTPUBKEY s = Returns (MC_ERR_NOERROR, s') \<and>
    script_ok s' \<and> elements s' = elems \<and> \<not> script_IsOpReturnScript s'"
proof -
  let ?src = "with_metadata items elems"
  have s1: "?src = script_of [] @ script_of items @ script_of (concat (map (\<lambda>e. [Push e, Op OP_DROP]) elems))"
    by (simp add: with_metadata_def)
  have s2: "?src = script_of items @ script_of (concat (map (\<lambda>e. [Push e, Op OP_DROP]) elems)) @ []"
    by (simp add: with_metadata_def)
  have b: "between (start_script s) (length (script_of [])) []" using start_script_between(1) [OF assms(1)] by simp
  obtain l1 where l1: "between l1 (length (script_of items)) []" "\<not> type_bit 0 l1"
    "\<And>f. set_script_loop (f + length items) fx ?src MC_SCR_TYPE_SCRIPTPUBKEY (start_script s) =
      set_script_loop f fx ?src MC_SCR_TYPE_SCRIPTPUBKEY l1"
    using steps_conditions [OF assms(2) s1 b, of fx] start_script_between(2) [of 0 s] by auto
  obtain l2 where l2: "between l2 (length ?src) elems" "\<not> type_bit 0 l2"
    "\<And>f. set_script_loop (f + 2 * length elems) fx ?src MC_SCR_TYPE_SCRIPTPUBKEY l1 =
      set_script_loop f fx ?src MC_SCR_TYPE_SCRIPTPUBKEY l2"
    using steps_elements [OF assms(3) s2 l1(1), of fx] l1(2) s2 by auto
  obtain f where f: "fuel = (Suc f + 2 * length elems) + length items"
    using less_imp_Suc_add [OF assms(4)] by (auto simp: add.commute add.left_commute)
  have "set_script_loop fuel fx ?src MC_SCR_TYPE_SCRIPTPUBKEY (start_script s) = Returns (MC_ERR_NOERROR, set_script_end l2)"
    unfolding f l1(3) l2(3) using l2(1) by (simp add: set_script_loop.simps(2) between_def)
  moreover have "script_ok (set_script_end l2) \<and> elements (set_script_end l2) = elems \<and> \<not> script_IsOpReturnScript (set_script_end l2)"
  proof -
    have t: "\<not> bit (sc_ScriptType (ss_script l2)) 0" using l2(2) by (simp add: type_bit_def)
    have "\<not> bit (sc_ScriptType (ss_script l2) - MC_DCT_SCRIPT_TYPE_DIRTY_OP_RETURN) 0"
      using t by (simp add: bit_0 even_diff_nat)
    then show ?thesis
      using l2(1) t by (auto simp: set_script_end_def Let_def between_def IsOpReturn_bit)
  qed
  moreover have "script_SetScript fuel fx ?src MC_SCR_TYPE_SCRIPTPUBKEY s = Returns (MC_ERR_NOERROR, script_Clear s)"
    if "?src = []"
    using that by (simp add: script_SetScript_def)
  moreover have "elems = [] \<and> items = []" if "?src = []"
  proof -
    have "item_bytes i \<noteq> []" if "i \<in> set items" for i using assms(2) that item_bytes_ok(1) by blast
    moreover have "\<And>e. item_bytes (Op OP_DROP) \<noteq> []" by simp
    ultimately show ?thesis using that by (cases items; cases elems; auto simp: with_metadata_def)
  qed
  ultimately show ?thesis
    using Clear_ok(1) [OF assms(1)] Clear_ok(3) [of s]
    by (cases "?src = []") (auto simp: script_SetScript_def start_script_def IsOpReturn_bit script_Clear_def)
qed

end
