(* ===== verification/Script_Sig.thy ===== *)
theory Script_Sig
  imports Script_Wire
begin

text \<open>
  Scans of a script by \<^verbatim>\<open>mc_GetPushDataElement\<close>: which of them return, and what they find in the scripts that
  the wallet writes.
\<close>

section \<open>The element at a position\<close>

lemma push_header_drop:
  assumes "p < length src"
  shows "push_header (drop p src) 0 = map_option (\<lambda>(q, n). (q - p, n)) (push_header src p)"
proof -
  have n: "(drop p src) ! k = src ! (p + k)" for k using assms by simp
  show ?thesis
    using assms by (auto simp: push_header_def Let_def n add.commute split: option.splits)
qed

lemma GetPush_at:
  assumes "p < length src"
  shows "mc_GetPushDataElement (drop p src) =
    (if src ! p > OP_16 then None else map_option (\<lambda>(q, n). (q - p, n)) (push_header src p))"
  using assms push_header_drop [OF assms] by (simp add: mc_GetPushDataElement_def)

lemma GetPush_ok:
  assumes "sizes_ok src" and "p < length src" and "mc_GetPushDataElement (drop p src) = Some (off, n)"
  shows "0 < off" and "0 \<le> n" and "int p + int off + n \<le> int (length src)"
proof -
  obtain q where h: "push_header src p = Some (q, n)" "off = q - p"
    using assms(3) GetPush_at [OF assms(2)] by (auto split: if_splits)
  note b = push_header_ok [OF assms(1,2) h(1)]
  show "0 < off" and "0 \<le> n" and "int p + int off + n \<le> int (length src)" using b h(2) by auto
qed

text \<open>The same element as \<open>GetOp2\<close> reads, when that is a push.\<close>

lemma GetPush_GetOp2:
  assumes "sizes_ok src" and "p < length src" and "GetOp2 src p = (ok, pc, opcode, vch)"
  shows "mc_GetPushDataElement (drop p src) =
    (if ok \<and> opcode \<le> OP_16 then Some (pc - length vch - p, int (length vch)) else None)"
    and "ok \<Longrightarrow> opcode = src ! p" and "ok \<Longrightarrow> p + length vch < pc"
proof -
  show o: "ok \<Longrightarrow> opcode = src ! p"
    using assms(2,3) by (auto simp: GetOp2_def Let_def split: if_splits)
  show "ok \<Longrightarrow> p + length vch < pc"
    using assms(2,3) by (auto simp: GetOp2_def Let_def split: if_splits)
  have "src ! p \<le> 0x4e" if "\<not> ok" using that assms(2,3) by (auto simp: GetOp2_def Let_def split: if_splits)
  then have "src ! p \<le> OP_16" if "\<not> ok" using that order_trans [of "src ! p" "0x4e" OP_16] by simp
  then show "mc_GetPushDataElement (drop p src) =
    (if ok \<and> opcode \<le> OP_16 then Some (pc - length vch - p, int (length vch)) else None)"
    using GetPush_at [OF assms(2)] push_header_GetOp2 [OF assms(1,2)] o by (auto simp: assms(3) not_less)
qed

section \<open>Signature scripts\<close>

text \<open>A script that is not push-only is scanned for ever.\<close>

lemma check_sig_push_only:
  assumes "sizes_ok src"
  shows "p \<le> length src \<Longrightarrow> push_only src p \<Longrightarrow> length src - p < fuel \<Longrightarrow> \<exists>r. check_sig_loop fuel src (int p) result = Returns r"
    and "p \<le> length src \<Longrightarrow> \<not> push_only src p \<Longrightarrow> check_sig_loop fuel src (int p) result = Runs"
proof -
  have step: "(\<exists>r'. check_sig_loop (Suc f) src (int p) r = check_sig_loop f src (int pc) r') \<and> p < pc \<and> pc \<le> length src"
    if "p < length src" "GetOp2 src p = (ok, pc, opcode, vch)" "ok" "opcode \<le> OP_16" for p pc ok opcode vch f r
  proof -
    note g = GetPush_GetOp2 [OF assms that(1,2)]
    have pc: "p < pc" "pc \<le> length src" using GetOp2_progress(1) [OF that(2,1)] by auto
    have "int p + int (pc - length vch - p) + int (length vch) = int pc"
      using g(3) [OF that(3)] by simp
    then show ?thesis using g(1) that pc by (auto simp: Let_def)
  qed
  have stuck: "check_sig_loop f src (int p) r = Runs"
    if "p < length src" "GetOp2 src p = (ok, pc, opcode, vch)" "\<not> (ok \<and> opcode \<le> OP_16)" for p pc ok opcode vch f r
    using GetPush_GetOp2(1) [OF assms that(1,2)] that by (induction f arbitrary: r) simp_all
  show "\<exists>r. check_sig_loop fuel src (int p) result = Returns r"
    if "p \<le> length src" "push_only src p" "length src - p < fuel"
    using that
  proof (induction fuel arbitrary: p result)
    case 0
    then show ?case by simp
  next
    case (Suc fuel)
    show ?case
    proof (cases "p < length src")
      case False
      then show ?thesis using Suc.prems by simp
    next
      case True
      obtain ok pc opcode vch where g: "GetOp2 src p = (ok, pc, opcode, vch)" by (metis surj_pair)
      then have o: "ok" "opcode \<le> OP_16" "push_only src pc"
        using Suc.prems(2) True by (subst (asm) push_only.simps, auto split: if_splits)+
      obtain r' where "check_sig_loop (Suc fuel) src (int p) result = check_sig_loop fuel src (int pc) r'" "p < pc" "pc \<le> length src"
        using step [OF True g o(1,2)] by blast
      then show ?thesis using Suc.IH [of pc r'] Suc.prems(3) o(3) by simp
    qed
  qed
  show "check_sig_loop fuel src (int p) result = Runs" if "p \<le> length src" "\<not> push_only src p"
    using that
  proof (induction fuel arbitrary: p result)
    case 0
    then show ?case by simp
  next
    case (Suc fuel)
    have True: "p < length src" using Suc.prems by (subst (asm) push_only.simps) (simp split: if_splits)
    obtain ok pc opcode vch where g: "GetOp2 src p = (ok, pc, opcode, vch)" by (metis surj_pair)
    show ?case
    proof (cases "ok \<and> opcode \<le> OP_16")
      case False
      then show ?thesis using stuck [OF True g] by blast
    next
      case o: True
      then have "\<not> push_only src pc"
        using Suc.prems(2) True g by (subst (asm) push_only.simps) (auto split: if_splits)
      then show ?thesis
        using step [OF True g, of fuel result] o Suc.IH [of pc] by metis
    qed
  qed
qed

lemma CheckSig_returns_iff:
  assumes "sizes_ok src"
  shows "(\<exists>fuel r. mc_CheckSigScriptForMutableTx fuel src = Returns r) \<longleftrightarrow> IsPushOnly src"
proof
  assume "IsPushOnly src"
  then show "\<exists>fuel r. mc_CheckSigScriptForMutableTx fuel src = Returns r"
    using check_sig_push_only(1) [OF assms, of 0 "Suc (length src)" 0]
    by (auto simp: mc_CheckSigScriptForMutableTx_def IsPushOnly_def simp del: check_sig_loop.simps)
next
  assume "\<exists>fuel r. mc_CheckSigScriptForMutableTx fuel src = Returns r"
  then obtain fuel r where "check_sig_loop fuel src 0 0 = Returns r" by (auto simp: mc_CheckSigScriptForMutableTx_def)
  then show "IsPushOnly src"
    using check_sig_push_only(2) [OF assms, of 0 fuel 0] by (cases "push_only src 0") (simp_all add: IsPushOnly_def)
qed

section \<open>Input scripts\<close>

text \<open>The scan for the address returns, and the address lies in the script, at its end.\<close>

definition address_ok :: "u8 list \<Rightarrow> input_address \<Rightarrow> bool" where
  "address_ok src = (\<lambda>(found, addr, redeem, sighash). (found \<longrightarrow> addr \<noteq> None) \<and>
    (case addr of None \<Rightarrow> True | Some (off, n) \<Rightarrow> 0 \<le> off \<and> 0 \<le> n \<and> off + n = int (length src)))"

lemma extract_loop_returns:
  assumes "sizes_ok src"
  shows "p \<le> length src \<Longrightarrow> 0 \<le> n \<Longrightarrow> n \<le> int p \<Longrightarrow> length src - p < fuel \<Longrightarrow>
    \<exists>a. extract_loop fuel src check_last (int p, r, h, n) = Returns a \<and> address_ok src a"
proof (induction fuel arbitrary: p r h n)
  case 0
  then show ?case by simp
next
  case (Suc fuel)
  show ?case
  proof (cases "p < length src")
    case False
    then show ?thesis using Suc.prems by (auto simp: address_ok_def)
  next
    case True
    show ?thesis
    proof (cases "mc_GetPushDataElement (drop p src)")
      case None
      then show ?thesis using True by (auto simp: extract_step_def address_ok_def)
    next
      case (Some on)
      obtain off k where g: "mc_GetPushDataElement (drop p src) = Some (off, k)" using Some by (cases on) simp
      note b = GetPush_ok [OF assms True g]
      define q where "q = nat (int p + int off + k)"
      have q: "int p + int off + k = int q" "p < q" "q \<le> length src" "k \<le> int q" using b by (auto simp: q_def)
      have "(\<exists>a. extract_step src (int p) check_last r h = Inl (Returns a) \<and> address_ok src a) \<or>
          (\<exists>r' h'. extract_step src (int p) check_last r h = Inr (int q, r', h', k))"
        using g q by (auto simp: extract_step_def Let_def address_ok_def)
      moreover have "\<exists>a. extract_loop fuel src check_last (int q, r', h', k) = Returns a \<and> address_ok src a" for r' h'
        using Suc.prems(4) q b(2) by (intro Suc.IH) auto
      ultimately show ?thesis using True by auto
    qed
  qed
qed

section \<open>Outputs that cannot be spent\<close>

lemma op_drop_loop_returns:
  assumes "sizes_ok src"
  shows "p \<le> length src \<Longrightarrow> length src - p < fuel \<Longrightarrow>
    \<exists>found' q. op_drop_loop fuel src k found (int p) = Returns (found', int q) \<and> p \<le> q \<and> q \<le> length src"
proof (induction fuel arbitrary: p found)
  case 0
  then show ?case by simp
next
  case (Suc fuel)
  have IH: "\<exists>found' q'. op_drop_loop fuel src k found1 (int q) = Returns (found', int q') \<and> p \<le> q' \<and> q' \<le> length src"
    if q: "p < q" "q \<le> length src" for q found1
    using Suc.IH [of q found1] Suc.prems q by fastforce
  show ?case
  proof (cases "length found < k \<and> p < length src \<and> src ! p \<noteq> OP_RETURN")
    case False
    then show ?thesis using Suc.prems(1) by auto
  next
    case True
    then have p: "p < length src" by simp
    show ?thesis
    proof (cases "mc_GetPushDataElement (drop p src)")
      case None
      then show ?thesis using True IH [of "Suc p" found] by (simp add: add.commute)
    next
      case (Some on)
      obtain off n where g: "mc_GetPushDataElement (drop p src) = Some (off, n)" using Some by (cases on) simp
      note b = GetPush_ok [OF assms p g]
      define q where "q = nat (int p + int off + n)"
      have q: "int p + int off + n = int q" "p < q" "q \<le> length src" using b by (auto simp: q_def)
      show ?thesis
        using True g q IH [of q found] IH [of "Suc q" "found @ [(p + off, n)]"] by (simp add: Let_def add.commute)
    qed
  qed
qed

lemma op_return_loop_returns:
  assumes "sizes_ok src"
  shows "p \<le> length src \<Longrightarrow> length src - p < fuel \<Longrightarrow>
    \<exists>q. op_return_loop fuel src (int p) = Returns (int q) \<and> p \<le> q \<and> q \<le> length src"
proof (induction fuel arbitrary: p)
  case 0
  then show ?case by simp
next
  case (Suc fuel)
  have IH: "\<exists>q'. op_return_loop fuel src (int q) = Returns (int q') \<and> p \<le> q' \<and> q' \<le> length src"
    if q: "p < q" "q \<le> length src" for q
    using Suc.IH [of q] Suc.prems q by fastforce
  show ?case
  proof (cases "p < length src \<and> src ! p \<noteq> OP_RETURN")
    case False
    then show ?thesis using Suc.prems(1) by auto
  next
    case True
    then have p: "p < length src" by simp
    show ?thesis
    proof (cases "mc_GetPushDataElement (drop p src)")
      case None
      then show ?thesis using True IH [of "Suc p"] by (simp add: add.commute)
    next
      case (Some on)
      obtain off n where g: "mc_GetPushDataElement (drop p src) = Some (off, n)" using Some by (cases on) simp
      note b = GetPush_ok [OF assms p g]
      define q where "q = nat (int p + int off + n)"
      have q: "int p + int off + n = int q" "p < q" "q \<le> length src" using b by (auto simp: q_def)
      show ?thesis using True g q IH [of q] by simp
    qed
  qed
qed

lemma ParseOpDrop_returns:
  assumes "sizes_ok src" and "length src < fuel"
  shows "\<exists>r. mc_ParseOpDropOpReturnScript fuel src k = Returns r"
proof -
  obtain found q where q: "op_drop_loop fuel src k [] 0 = Returns (found, int q)" "q \<le> length src"
    using op_drop_loop_returns [OF assms(1), of 0 fuel k "[]"] assms(2) by auto
  obtain q' where "op_return_loop fuel src (int q) = Returns (int q')"
    using op_return_loop_returns [OF assms(1) q(2), of fuel] assms(2) by fastforce
  with q show ?thesis by (simp add: mc_ParseOpDropOpReturnScript_def Let_def)
qed

text \<open>In a script of operations: at an operation, and after it.\<close>

definition small_items :: "script_item list \<Rightarrow> bool" where
  "small_items items \<longleftrightarrow> (\<forall>i\<in>set items. item_ok i \<and> length (item_data i) < 2 ^ 31)"

lemma GetPush_item:
  assumes "item_ok i" and "length (item_data i) < 2 ^ 31" and "src = pre @ item_bytes i @ rest"
  shows "mc_GetPushDataElement (drop (length pre) src) = (if item_opcode i > OP_16 then None
      else Some (length (item_bytes i) - length (item_data i), int (length (item_data i))))"
    and "src ! length pre = item_opcode i" and "length pre < length src"
    and "item_opcode i > OP_16 \<Longrightarrow> length (item_bytes i) = 1"
proof -
  show o: "src ! length pre = item_opcode i"
    using item_bytes_ok [OF assms(1)] assms(3) by (simp add: nth_append hd_conv_nth)
  show l: "length pre < length src" using item_bytes_ok(1) [OF assms(1)] assms(3) by simp
  show "mc_GetPushDataElement (drop (length pre) src) = (if item_opcode i > OP_16 then None
      else Some (length (item_bytes i) - length (item_data i), int (length (item_data i))))"
    using GetPush_at [OF l] push_header_item [OF assms(1,2), of pre rest] o assms(3) item_data_le [of i] by simp
  show "length (item_bytes i) = 1" if "item_opcode i > OP_16"
  proof (cases i)
    case (Push b)
    then have "item_opcode i \<le> 0x4e" using item_opcode_Push assms(1) by blast
    then show ?thesis using that order_trans [of "item_opcode i" "0x4e" OP_16] by simp
  qed simp
qed

lemma item_opcode_special:
  assumes "item_ok i" and "item_opcode i = c" and "c > OP_16"
  shows "i = Op c"
proof (cases i)
  case (Push b)
  then have "c \<le> 0x4e" using item_opcode_Push assms(1,2) by blast
  then show ?thesis using assms(3) order_trans [of c "0x4e" OP_16] by simp
qed (use assms in simp)

lemma op_return_loop_items:
  assumes "small_items items" and "src = script_of pre @ script_of items" and "length items < fuel"
  shows "\<exists>q. op_return_loop fuel src (int (length (script_of pre))) = Returns (int q) \<and>
    (q < length src \<longleftrightarrow> (\<exists>i\<in>set items. item_opcode i = OP_RETURN))"
  using assms
proof (induction items arbitrary: pre fuel)
  case Nil
  then show ?case by (cases fuel) auto
next
  case (Cons i items)
  obtain f where f: "fuel = Suc f" using Cons.prems(3) by (cases fuel) auto
  have i: "item_ok i" "length (item_data i) < 2 ^ 31" using Cons.prems(1) by (simp_all add: small_items_def)
  have s: "src = script_of pre @ item_bytes i @ script_of items" using Cons.prems(2) by simp
  note g = GetPush_item [OF i s]
  show ?case
  proof (cases "item_opcode i = OP_RETURN")
    case True
    then show ?thesis using g(2,3) f by auto
  next
    case False
    obtain q where q: "op_return_loop f src (int (length (script_of (pre @ [i])))) = Returns (int q)"
      "q < length src \<longleftrightarrow> (\<exists>i\<in>set items. item_opcode i = OP_RETURN)"
      using Cons.IH [of "pre @ [i]" f] Cons.prems f by (auto simp: small_items_def)
    have n: "op_return_loop fuel src (int (length (script_of pre))) = op_return_loop f src (int (length (script_of (pre @ [i]))))"
    proof (cases "item_opcode i > OP_16")
      case True
      then show ?thesis using g False f by (simp add: add.commute)
    next
      case not: False
      then have "int (length (item_bytes i) - length (item_data i)) + int (length (item_data i)) = int (length (item_bytes i))"
        using item_data_le [of i] by simp
      then show ?thesis using g False not f by (simp add: add.assoc)
    qed
    show ?thesis using q False by (simp only: n) auto
  qed
qed

lemma op_drop_loop_items:
  assumes "small_items items" and "src = script_of pre @ script_of items" and "length items < fuel"
  shows "\<exists>mid rest found'. items = mid @ rest \<and> (\<forall>i\<in>set mid. item_opcode i \<noteq> OP_RETURN) \<and>
    op_drop_loop fuel src k found (int (length (script_of pre))) = Returns (found', int (length (script_of (pre @ mid))))"
  using assms
proof (induction fuel arbitrary: items pre found)
  case 0
  then show ?case by simp
next
  case (Suc f)
  show ?case
  proof (cases items)
    case Nil
    then show ?thesis using Suc.prems by auto
  next
    case (Cons i js)
    have i: "item_ok i" "length (item_data i) < 2 ^ 31" "small_items js" using Suc.prems(1) Cons by (simp_all add: small_items_def)
    have s: "src = script_of pre @ item_bytes i @ script_of js" using Suc.prems(2) Cons by simp
    note g = GetPush_item [OF i(1,2) s]
    show ?thesis
    proof (cases "length found < k \<and> item_opcode i \<noteq> OP_RETURN")
      case False
      then show ?thesis using g(2,3) by (intro exI [of _ "[]"] exI [of _ items] exI [of _ found]) auto
    next
      case True
      have step: ?thesis if "js = mid @ rest" "\<forall>i\<in>set mid. item_opcode i \<noteq> OP_RETURN"
        "op_drop_loop (Suc f) src k found (int (length (script_of pre))) = Returns (found', int (length (script_of ((pre @ [i]) @ mid))))"
        for mid rest found'
        using that True Cons by (intro exI [of _ "i # mid"] exI [of _ rest] exI [of _ found']) simp
      have IH: "\<exists>mid rest found'. js = mid @ rest \<and> (\<forall>i\<in>set mid. item_opcode i \<noteq> OP_RETURN) \<and>
          op_drop_loop f src k found1 (int (length (script_of (pre @ [i])))) = Returns (found', int (length (script_of ((pre @ [i]) @ mid))))"
        for found1 using Suc.prems Cons i(3) by (intro Suc.IH) simp_all
      show ?thesis
      proof (cases "item_opcode i > OP_16")
        case big: True
        have "op_drop_loop (Suc f) src k found (int (length (script_of pre))) = op_drop_loop f src k found (int (length (script_of (pre @ [i]))))"
          using g True big by (simp add: add.commute)
        with IH [of found] step show ?thesis by metis
      next
        case False
        have nxt: "int (length (script_of pre)) + int (length (item_bytes i) - length (item_data i)) + int (length (item_data i)) =
            int (length (script_of (pre @ [i])))"
          using item_data_le [of i] by simp
        define at where "at = length (script_of (pre @ [i]))"
        show ?thesis
        proof (cases "at < length src \<and> src ! at = OP_DROP")
          case no: False
          have "op_drop_loop (Suc f) src k found (int (length (script_of pre))) = op_drop_loop f src k found (int at)"
            using g True False no nxt by (auto simp: Let_def at_def nat_int_add)
          with IH [of found] step show ?thesis by (metis at_def)
        next
          case drop: True
          then obtain j ks where js: "js = j # ks" using s by (cases js) (auto simp: at_def)
          have j: "item_ok j" "length (item_data j) < 2 ^ 31" "small_items ks" using i(3) js by (simp_all add: small_items_def)
          have s2: "src = script_of (pre @ [i]) @ item_bytes j @ script_of ks" using s js by simp
          have oj: "item_opcode j = OP_DROP" using GetPush_item(2) [OF j(1,2) s2] drop by (simp add: at_def)
          have lj: "length (item_bytes j) = 1" using item_opcode_special [OF j(1) oj] by simp
          obtain mid rest found' where IH2: "ks = mid @ rest" "\<forall>i\<in>set mid. item_opcode i \<noteq> OP_RETURN"
            "op_drop_loop f src k (found @ [(length (script_of pre) + (length (item_bytes i) - length (item_data i)), int (length (item_data i)))])
              (int (length (script_of (pre @ [i, j])))) = Returns (found', int (length (script_of ((pre @ [i, j]) @ mid))))"
            using Suc.IH [of ks "pre @ [i, j]" "found @ [(length (script_of pre) + (length (item_bytes i) - length (item_data i)),
                int (length (item_data i)))]"] Suc.prems Cons js j(3) by auto
          have "int at + 1 = int (length (script_of (pre @ [i, j])))" using lj by (simp add: at_def)
          then have "op_drop_loop (Suc f) src k found (int (length (script_of pre))) = Returns (found', int (length (script_of ((pre @ [i, j]) @ mid))))"
            using g True False drop nxt IH2(3) by (simp add: Let_def at_def nat_int_add algebra_simps)
          then show ?thesis using IH2(1,2) True oj Cons js
            by (intro exI [of _ "i # j # mid"] exI [of _ rest] exI [of _ found']) simp
        qed
      qed
    qed
  qed
qed

lemma IsUnspendable_items:
  assumes "small_items items" and "length items < fuel"
  shows "IsUnspendable fuel (script_of items) = Returns (\<exists>i\<in>set items. item_opcode i = OP_RETURN)"
proof -
  let ?src = "script_of items"
  obtain mid rest found where m: "items = mid @ rest" "\<forall>i\<in>set mid. item_opcode i \<noteq> OP_RETURN"
    "op_drop_loop fuel ?src 2 [] 0 = Returns (found, int (length (script_of mid)))"
    using op_drop_loop_items [of items ?src "[]" fuel 2 "[]"] assms by auto
  obtain q where q: "op_return_loop fuel ?src (int (length (script_of mid))) = Returns (int q)"
    "q < length ?src \<longleftrightarrow> (\<exists>i\<in>set rest. item_opcode i = OP_RETURN)"
    using op_return_loop_items [of rest ?src mid fuel] m(1) assms by (auto simp: small_items_def)
  show ?thesis
    using m q by (auto simp: IsUnspendable_def mc_ParseOpDropOpReturnScript_def Let_def)
qed

end
