(* ===== verification/Script_Assets.thy ===== *)
theory Script_Assets
  imports Script_Codec Buffer
begin

text \<open>
  Asset quantities and cached input scripts in a script, \<^verbatim>\<open>src/src/protocol/multichainscript.cpp\<close>, with
  the rows of asset buffers, \<^verbatim>\<open>src/src/entities/asset.cpp\<close>. A row has 48 bytes: the reference of the asset,
  its type, the quantity (an \<open>int64_t\<close>) and the script type; the first 36 are its key. Whether references are short
  transaction identifiers and their size \<open>m_AssetRefSize\<close> are arguments.
\<close>

section \<open>Rows of asset buffers\<close>

abbreviation (input) MC_AST_SHORT_TXID_OFFSET :: nat where "MC_AST_SHORT_TXID_OFFSET \<equiv> 16"
abbreviation (input) MC_AST_ASSET_FULLREF_SIZE :: nat where "MC_AST_ASSET_FULLREF_SIZE \<equiv> 36"
abbreviation (input) MC_AST_ASSET_FULLREF_BUF_SIZE :: nat where "MC_AST_ASSET_FULLREF_BUF_SIZE \<equiv> 48"
abbreviation (input) MC_AST_ASSET_REF_TYPE_REF :: u32 where "MC_AST_ASSET_REF_TYPE_REF \<equiv> 0"
abbreviation (input) MC_AST_ASSET_REF_TYPE_SHORT_TXID :: u32 where "MC_AST_ASSET_REF_TYPE_SHORT_TXID \<equiv> 1"
abbreviation (input) ASSET_SCRIPT_TYPE_TRANSFER :: u32 where "ASSET_SCRIPT_TYPE_TRANSFER \<equiv> 0x00000001"
abbreviation (input) ASSET_SCRIPT_TYPE_FOLLOWON :: u32 where "ASSET_SCRIPT_TYPE_FOLLOWON \<equiv> 0x00000002"

type_synonym ab_row = "u8 list"
type_synonym ab_buffer = "(u8 list, ab_row) mc_Buffer"

definition bytes_put :: "nat \<Rightarrow> u8 list \<Rightarrow> u8 list \<Rightarrow> u8 list" where
  "bytes_put off bs row = take off row @ bs @ drop (off + length bs) row"

definition mc_GetABScriptType :: "ab_row \<Rightarrow> u32" where "mc_GetABScriptType row = le32 row 44 4"
definition mc_SetABScriptType :: "ab_row \<Rightarrow> u32 \<Rightarrow> ab_row" where "mc_SetABScriptType row type = bytes_put 44 (mc_PutLE 4 type) row"
definition mc_GetABRefType :: "ab_row \<Rightarrow> u32" where "mc_GetABRefType row = le32 row 32 4"
definition mc_SetABRefType :: "ab_row \<Rightarrow> u32 \<Rightarrow> ab_row" where "mc_SetABRefType row type = bytes_put 32 (mc_PutLE 4 type) row"
definition mc_GetABQuantity :: "ab_row \<Rightarrow> u64" where "mc_GetABQuantity row = mc_GetLE (take 8 (drop 36 row))"
definition mc_SetABQuantity :: "ab_row \<Rightarrow> u64 \<Rightarrow> ab_row" where "mc_SetABQuantity row quantity = bytes_put 36 (mc_PutLE 8 quantity) row"

definition ab_key :: "ab_row \<Rightarrow> u8 list" where
  "ab_key row = take MC_AST_ASSET_FULLREF_SIZE row"

definition mc_InitABufferMap :: "(nat \<Rightarrow> ab_row) \<Rightarrow> ab_buffer" where
  "mc_InitABufferMap mem = buf_Initialize mem True"

definition mc_InitABufferDefault :: "(nat \<Rightarrow> ab_row) \<Rightarrow> ab_buffer" where
  "mc_InitABufferDefault mem = buf_Initialize mem False"

section \<open>Quantities\<close>

text \<open>Where the reference is in a row, and its type.\<close>

definition ref_shift :: "bool \<Rightarrow> nat" where
  "ref_shift ShortTxIDInTx = (if ShortTxIDInTx then MC_AST_SHORT_TXID_OFFSET else 0)"

definition ref_type :: "bool \<Rightarrow> u32" where
  "ref_type ShortTxIDInTx = (if ShortTxIDInTx then MC_AST_ASSET_REF_TYPE_SHORT_TXID else MC_AST_ASSET_REF_TYPE_REF)"

text \<open>The loop of \<open>GetAssetQuantities\<close> on the rest of the element; the script type found is a variable of the call.\<close>

fun quantities_loop :: "bool \<Rightarrow> nat \<Rightarrow> nat \<Rightarrow> u8 list \<Rightarrow> u32 \<Rightarrow> ab_buffer \<Rightarrow> int \<times> ab_buffer" where
  "quantities_loop short refsize 0 ptr found amounts = (MC_ERR_NOERROR, amounts)"
| "quantities_loop short refsize (Suc n) ptr found amounts =
    (let quantity = mc_GetLE (take 8 (drop refsize ptr)) in
     if sint quantity < 0 then (MC_ERR_NOT_ALLOWED, amounts)
     else
       let buf = mc_SetABRefType (bytes_put (ref_shift short) (take refsize ptr)
             (replicate MC_AST_ASSET_FULLREF_BUF_SIZE 0)) (ref_type short);
           rest = drop (refsize + 8) ptr
       in case buf_Seek ab_key amounts (ab_key buf) of
         Some row \<Rightarrow>
           let r = buf_GetRow amounts row; last = mc_GetABQuantity r; quantity = quantity + last;
               found' = found OR mc_GetABScriptType r
           in if sint last \<ge> 0 \<and> sint quantity < 0 then (MC_ERR_NOT_ALLOWED, amounts)
           else quantities_loop short refsize n rest found'
             (buf_write_row amounts row (mc_SetABScriptType (mc_SetABQuantity r quantity) found'))
       | None \<Rightarrow> quantities_loop short refsize n rest found
           (buf_Add ab_key amounts (mc_SetABScriptType (mc_SetABQuantity buf quantity) found)))"

definition script_GetAssetQuantities :: "bool \<Rightarrow> nat \<Rightarrow> ab_buffer \<Rightarrow> u32 \<Rightarrow> mc_Script \<Rightarrow> int \<times> ab_buffer" where
  "script_GetAssetQuantities short refsize amounts script_type s =
    (let e = cur_data s in
     if sc_CurrentElement s < 0 then (MC_ERR_INVALID_PARAMETER_VALUE, amounts)
     else if cur_size s < IDENTIFIER_LEN + 1 then (MC_ERR_WRONG_SCRIPT, amounts)
     else if take IDENTIFIER_LEN e \<noteq> MULTICHAIN_IDENTIFIER then (MC_ERR_WRONG_SCRIPT, amounts)
     else
       let found = (if script_type AND ASSET_SCRIPT_TYPE_FOLLOWON \<noteq> 0 \<and> e ! IDENTIFIER_LEN = ASSET_FOLLOWON_PREFIX
             then Some ASSET_SCRIPT_TYPE_FOLLOWON
             else if script_type AND ASSET_SCRIPT_TYPE_TRANSFER \<noteq> 0 \<and> e ! IDENTIFIER_LEN = ASSET_QUANTITY_PREFIX
             then Some ASSET_SCRIPT_TYPE_TRANSFER else None)
       in case found of None \<Rightarrow> (MC_ERR_WRONG_SCRIPT, amounts)
       | Some found \<Rightarrow>
         let items = (cur_size s - (IDENTIFIER_LEN + 1)) div (refsize + 8)
         in if cur_size s \<noteq> IDENTIFIER_LEN + 1 + items * (refsize + 8) then (MC_ERR_WRONG_SCRIPT, amounts)
            else quantities_loop short refsize items (drop (IDENTIFIER_LEN + 1) e) found amounts)"

definition script_SetAssetQuantities :: "bool \<Rightarrow> nat \<Rightarrow> ab_buffer \<Rightarrow> u32 \<Rightarrow> mc_Script \<Rightarrow> int \<times> mc_Script" where
  "script_SetAssetQuantities short refsize amounts script_type s =
    (let s = script_AddElement s in
     if script_type = ASSET_SCRIPT_TYPE_TRANSFER \<or> script_type = ASSET_SCRIPT_TYPE_FOLLOWON then
       let s = script_SetData (MULTICHAIN_IDENTIFIER @
             [if script_type = ASSET_SCRIPT_TYPE_TRANSFER then ASSET_QUANTITY_PREFIX else ASSET_FOLLOWON_PREFIX]) s
       in (MC_ERR_NOERROR,
           foldl (\<lambda>s i. let row = buf_GetRow amounts i in
             script_SetData (take 8 (drop 36 row)) (script_SetData (take refsize (drop (ref_shift short) row)) s))
             s [0..<buf_GetCount amounts])
     else (MC_ERR_INVALID_PARAMETER_VALUE, s))"

text \<open>The reference that all items of a follow-on element share.\<close>

fun full_ref_loop :: "nat \<Rightarrow> nat \<Rightarrow> u8 list \<Rightarrow> u8 list \<Rightarrow> bool" where
  "full_ref_loop refsize 0 ptr ref = True"
| "full_ref_loop refsize (Suc n) ptr ref =
    (take refsize ptr = ref \<and> full_ref_loop refsize n (drop (refsize + 8) ptr) ref)"

definition script_GetFullRef :: "bool \<Rightarrow> nat \<Rightarrow> mc_Script \<Rightarrow> int + (u8 list \<times> u32)" where
  "script_GetFullRef short refsize s =
    (let e = cur_data s in
     if sc_CurrentElement s < 0 then Inl MC_ERR_INVALID_PARAMETER_VALUE
     else if cur_size s < IDENTIFIER_LEN + 1 then Inl MC_ERR_WRONG_SCRIPT
     else if \<not> tagged MULTICHAIN_IDENTIFIER ASSET_FOLLOWON_PREFIX e then Inl MC_ERR_WRONG_SCRIPT
     else
       let items = (cur_size s - (IDENTIFIER_LEN + 1)) div (refsize + 8); ptr = drop (IDENTIFIER_LEN + 1) e in
       if cur_size s \<noteq> IDENTIFIER_LEN + 1 + items * (refsize + 8) then Inl MC_ERR_WRONG_SCRIPT
       else if items = 0 then Inr (replicate MC_AST_ASSET_FULLREF_SIZE 0, ASSET_SCRIPT_TYPE_FOLLOWON)
       else if \<not> full_ref_loop refsize items ptr (take refsize ptr) then Inl MC_ERR_WRONG_SCRIPT
       else Inr (mc_SetABRefType (bytes_put (ref_shift short) (take refsize ptr) (replicate MC_AST_ASSET_FULLREF_SIZE 0))
             (ref_type short), ASSET_SCRIPT_TYPE_FOLLOWON))"

section \<open>Cached input scripts\<close>

text \<open>
  The next offset and, after the first call, the number of the input and its script. Offsets are 0 or come from
  the call before.
\<close>

definition script_GetCachedScript :: "nat \<Rightarrow> mc_Script \<Rightarrow> int + (nat \<times> (int \<times> u8 list) option)" where
  "script_GetCachedScript offset s =
    (let e = cur_data s in
     if sc_CurrentElement s < 0 then Inl MC_ERR_INVALID_PARAMETER_VALUE
     else if cur_size s < IDENTIFIER_LEN + 1 then Inl MC_ERR_WRONG_SCRIPT
     else if \<not> tagged MULTICHAIN_IDENTIFIER CASHED_SCRIPT_PREFIX e then Inl MC_ERR_WRONG_SCRIPT
     else if offset = 0 then Inr (IDENTIFIER_LEN + 1, None)
     else if cur_size s = offset then Inl MC_ERR_WRONG_SCRIPT
     else if cur_size s < offset + 4 then Inl MC_ERR_ERROR_IN_SCRIPT
     else
       let vin = to_i32 (sint (mc_GetLE (take 4 (drop offset e)))) in
       if vin < 0 then Inl MC_ERR_ERROR_IN_SCRIPT
       else
         let ptr = drop (offset + 4) e; (v, shift) = mc_GetVarInt ptr (-1); script_size = to_i32 (sint v);
             n = (case shift of None \<Rightarrow> 0 | Some n \<Rightarrow> n)
         in if script_size < 0 then Inl MC_ERR_ERROR_IN_SCRIPT
            else if n + nat script_size > length ptr then Inl MC_ERR_ERROR_IN_SCRIPT
            else Inr (offset + 4 + n + nat script_size, Some (vin, take (nat script_size) (drop n ptr))))"

definition script_SetCachedScript :: "nat \<Rightarrow> int \<Rightarrow> u8 list \<Rightarrow> mc_Script \<Rightarrow> int \<times> nat \<times> mc_Script" where
  "script_SetCachedScript offset vin script s =
    (if offset = 0
     then (MC_ERR_NOERROR, IDENTIFIER_LEN + 1,
       script_SetData (MULTICHAIN_IDENTIFIER @ [CASHED_SCRIPT_PREFIX]) (script_AddElement s))
     else
       let buf = varint_of (of_nat (length script));
           s = script_SetData (mc_PutLE 4 (of_int vin :: u32)) s;
           s = script_SetData buf s;
           s = script_SetData script s
       in (MC_ERR_NOERROR, offset + 4 + length buf + length script, s))"

end
