(* ===== verification/Asset_Facts.thy ===== *)
theory Asset_Facts
  imports Script_Assets
begin

text \<open>
  What the asset elements promise: reading adds the quantities of the element to those of the buffer, asset by asset
  and without wrap-around, and reads back what was written.
\<close>

section \<open>Fields of a row\<close>

definition row_ok :: "ab_row \<Rightarrow> bool" where
  "row_ok row \<longleftrightarrow> length row = MC_AST_ASSET_FULLREF_BUF_SIZE"

lemma bytes_put_length [simp]: "off + length bs \<le> length row \<Longrightarrow> length (bytes_put off bs row) = length row"
  by (simp add: bytes_put_def)

lemma bytes_put_nth:
  "off + length bs \<le> length row \<Longrightarrow> i < length row \<Longrightarrow>
    bytes_put off bs row ! i = (if off \<le> i \<and> i < off + length bs then bs ! (i - off) else row ! i)"
  by (auto simp: bytes_put_def nth_append)

lemma slice_put_other:
  assumes "off + length bs \<le> length row" and "a + n \<le> length row" and "a + n \<le> off \<or> off + length bs \<le> a"
  shows "take n (drop a (bytes_put off bs row)) = take n (drop a row)"
  using assms by (intro nth_equalityI) (auto simp: bytes_put_nth)

lemma slice_put_same:
  assumes "off + length bs \<le> length row" and "length bs = n"
  shows "take n (drop off (bytes_put off bs row)) = bs"
  using assms by (intro nth_equalityI) (auto simp: bytes_put_nth)

lemma AB_simps [simp]:
  assumes "row_ok row"
  shows "row_ok (mc_SetABQuantity row q)" "row_ok (mc_SetABScriptType row t)" "row_ok (mc_SetABRefType row t)"
    "mc_GetABQuantity (mc_SetABQuantity row q) = q" "mc_GetABQuantity (mc_SetABScriptType row t) = mc_GetABQuantity row"
    "mc_GetABScriptType (mc_SetABScriptType row t) = t" "mc_GetABScriptType (mc_SetABQuantity row q) = mc_GetABScriptType row"
    "mc_GetABRefType (mc_SetABRefType row t) = t"
    "ab_key (mc_SetABQuantity row q) = ab_key row" "ab_key (mc_SetABScriptType row t) = ab_key row"
proof -
  have l: "length row = 48" using assms by (simp add: row_ok_def)
  show "row_ok (mc_SetABQuantity row q)" "row_ok (mc_SetABScriptType row t)" "row_ok (mc_SetABRefType row t)"
    using l by (simp_all add: row_ok_def mc_SetABQuantity_def mc_SetABScriptType_def mc_SetABRefType_def)
  show "mc_GetABQuantity (mc_SetABQuantity row q) = q"
    using l slice_put_same [of 36 "mc_PutLE 8 q" row 8]
    by (simp add: mc_GetABQuantity_def mc_SetABQuantity_def mc_GetLE_PutLE_full)
  show "mc_GetABQuantity (mc_SetABScriptType row t) = mc_GetABQuantity row"
    using l slice_put_other [of 44 "mc_PutLE 4 t" row 36 8] by (simp add: mc_GetABQuantity_def mc_SetABScriptType_def)
  have u: "ucast (ucast t :: u64) = t" by (rule bit_word_eqI) (simp add: bit_simps)
  show "mc_GetABScriptType (mc_SetABScriptType row t) = t"
    using l u slice_put_same [of 44 "mc_PutLE 4 t" row 4]
    by (simp add: mc_GetABScriptType_def mc_SetABScriptType_def le32_def mc_GetLE_PutLE_full)
  show "mc_GetABRefType (mc_SetABRefType row t) = t"
    using l u slice_put_same [of 32 "mc_PutLE 4 t" row 4]
    by (simp add: mc_GetABRefType_def mc_SetABRefType_def le32_def mc_GetLE_PutLE_full)
  show "mc_GetABScriptType (mc_SetABQuantity row q) = mc_GetABScriptType row"
    using l slice_put_other [of 36 "mc_PutLE 8 q" row 44 4] by (simp add: mc_GetABScriptType_def mc_SetABQuantity_def le32_def)
  show "ab_key (mc_SetABQuantity row q) = ab_key row"
    using l slice_put_other [of 36 "mc_PutLE 8 q" row 0 36] by (simp add: ab_key_def mc_SetABQuantity_def)
  show "ab_key (mc_SetABScriptType row t) = ab_key row"
    using l slice_put_other [of 44 "mc_PutLE 4 t" row 0 36] by (simp add: ab_key_def mc_SetABScriptType_def)
qed

section \<open>The quantity of an asset in a buffer\<close>

definition rows_amount :: "ab_row list \<Rightarrow> u8 list \<Rightarrow> int" where
  "rows_amount rs k = (case find_idx (\<lambda>r. ab_key r = k) rs of None \<Rightarrow> 0 | Some i \<Rightarrow> sint (mc_GetABQuantity (rs ! i)))"

text \<open>The row of a reference before a quantity is entered, and its key.\<close>

definition new_ab_row :: "bool \<Rightarrow> u8 list \<Rightarrow> ab_row" where
  "new_ab_row short ref = mc_SetABRefType (bytes_put (ref_shift short) ref (replicate MC_AST_ASSET_FULLREF_BUF_SIZE 0)) (ref_type short)"

fun ref_items :: "nat \<Rightarrow> nat \<Rightarrow> u8 list \<Rightarrow> (u8 list \<times> u64) list" where
  "ref_items refsize 0 ptr = []"
| "ref_items refsize (Suc n) ptr = (take refsize ptr, mc_GetLE (take 8 (drop refsize ptr))) # ref_items refsize n (drop (refsize + 8) ptr)"

definition items_amount :: "bool \<Rightarrow> (u8 list \<times> u64) list \<Rightarrow> u8 list \<Rightarrow> int" where
  "items_amount short items k = (\<Sum>(ref, q)\<leftarrow>items. if ab_key (new_ab_row short ref) = k then sint q else 0)"

definition ab_buffer_ok :: "ab_buffer \<Rightarrow> bool" where
  "ab_buffer_ok b \<longleftrightarrow> buf_ok ab_key b \<and> (\<forall>r\<in>set (buf_rows b). row_ok r)"

lemma new_ab_row_ok: "ref_shift short + length ref \<le> 32 \<Longrightarrow> row_ok (new_ab_row short ref)"
  by (simp add: new_ab_row_def row_ok_def mc_SetABRefType_def)

lemma buf_write_ok:
  assumes "ab_buffer_ok b" and "i < m_Count b" and "ab_key r = ab_key (buf_rows b ! i)" and "row_ok r"
  shows "ab_buffer_ok (buf_write_row b i r)"
proof -
  have "buf_ok ab_key (buf_write_row b i r)"
    using assms(1-3) find_idx_list_update_same [of i "buf_rows b" ab_key r]
    by (simp add: ab_buffer_ok_def buf_ok_def buf_rows_write) (simp add: buf_write_row_def)
  then show ?thesis
    using assms(1,4) set_update_subset_insert [of "buf_rows b" i r] by (auto simp: ab_buffer_ok_def buf_rows_write)
qed

lemma rows_amount_write:
  assumes "find_idx (\<lambda>r. ab_key r = k) rs = Some i" and "ab_key r = k"
  shows "rows_amount (rs[i := r]) k' = (if k' = k then sint (mc_GetABQuantity r) else rows_amount rs k')"
proof -
  have i: "i < length rs" "ab_key (rs ! i) = k" using assms(1) by (auto simp: find_idx_Some)
  have f: "find_idx (\<lambda>r. ab_key r = k') (rs[i := r]) = find_idx (\<lambda>r. ab_key r = k') rs"
    using find_idx_list_update_same [of i rs ab_key r k'] i assms(2) by simp
  show ?thesis
  proof (cases "k' = k")
    case True
    then show ?thesis using f assms(1) i by (simp add: rows_amount_def)
  next
    case False
    have "j \<noteq> i" if "find_idx (\<lambda>r. ab_key r = k') rs = Some j" for j
      using that False i(2) by (auto simp: find_idx_Some)
    then show ?thesis using f False by (auto simp: rows_amount_def split: option.splits)
  qed
qed

lemma rows_amount_add:
  assumes "find_idx (\<lambda>r. ab_key r = ab_key r0) rs = None"
  shows "rows_amount (rs @ [r0]) k = (if k = ab_key r0 then sint (mc_GetABQuantity r0) else rows_amount rs k)"
proof (cases "find_idx (\<lambda>r. ab_key r = k) rs")
  case None
  then show ?thesis using assms by (auto simp: rows_amount_def find_idx_append nth_append split: option.splits)
next
  case (Some i)
  moreover from this have "ab_key r0 \<noteq> k" using assms by (metis option.distinct(1))
  moreover have "i < length rs" using Some by (simp add: find_idx_Some)
  ultimately show ?thesis by (simp add: rows_amount_def find_idx_append nth_append)
qed

lemma sint_add_small:
  assumes "0 \<le> sint (a :: u64)" and "0 \<le> sint b \<longrightarrow> 0 \<le> sint (a + b)"
  shows "sint (a + b) = sint a + sint b"
proof -
  have r: "sint a < 2 ^ 63" "sint b < 2 ^ 63" "- (2 ^ 63) \<le> sint b"
    using sint_lt [of a] sint_lt [of b] sint_ge [of b] by simp_all
  have "sint (a + b) = (sint a + sint b + 2 ^ 63) mod 2 ^ 64 - 2 ^ 63"
    by (simp add: sint_word_ariths signed_take_bit_eq_take_bit_shift take_bit_eq_mod)
  moreover have "(sint a + sint b + 2 ^ 63) mod 2 ^ 64 = sint a + sint b + 2 ^ 63" if "sint a + sint b < 2 ^ 63"
    using that r assms(1) by (intro mod_pos_pos_trivial) simp_all
  moreover have "(sint a + sint b + 2 ^ 63) mod 2 ^ 64 = sint a + sint b + 2 ^ 63 - 2 ^ 64" if "2 ^ 63 \<le> sint a + sint b"
  proof -
    have "(sint a + sint b + 2 ^ 63) mod 2 ^ 64 = (sint a + sint b + 2 ^ 63 - 2 ^ 64) mod 2 ^ 64"
      by (rule minus_mod_self2 [symmetric])
    also have "\<dots> = sint a + sint b + 2 ^ 63 - 2 ^ 64"
      using that r by (intro mod_pos_pos_trivial) simp_all
    finally show ?thesis .
  qed
  moreover have "0 \<le> sint b" if "2 ^ 63 \<le> sint a + sint b" using that r(1) by simp
  ultimately show ?thesis using assms(2) r by fastforce
qed

lemma quantities_loop_adds:
  assumes "ab_buffer_ok b" and "ref_shift short + refsize \<le> 32" and "n * (refsize + 8) \<le> length ptr"
    and "quantities_loop short refsize n ptr found b = (MC_ERR_NOERROR, b')"
  shows "ab_buffer_ok b' \<and>
    (\<forall>k. rows_amount (buf_rows b') k = rows_amount (buf_rows b) k + items_amount short (ref_items refsize n ptr) k)"
  using assms(1,3,4)
proof (induction n arbitrary: ptr found b)
  case 0
  then show ?case by (simp add: items_amount_def)
next
  case (Suc n)
  define q where "q = mc_GetLE (take 8 (drop refsize ptr))"
  define r0 where "r0 = new_ab_row short (take refsize ptr)"
  have q: "0 \<le> sint q" using Suc.prems(3) by (auto simp: q_def Let_def split: if_splits)
  have r0: "row_ok r0" unfolding r0_def using assms(2) Suc.prems(2) by (intro new_ab_row_ok) simp
  have len: "n * (refsize + 8) \<le> length (drop (refsize + 8) ptr)" using Suc.prems(2) by simp
  have seek: "buf_Seek ab_key b (ab_key r0) = find_idx (\<lambda>r. ab_key r = ab_key r0) (buf_rows b)"
    using Suc.prems(1) by (simp add: ab_buffer_ok_def buf_Seek_find)
  have items: "items_amount short (ref_items refsize (Suc n) ptr) k =
      (if ab_key r0 = k then sint q else 0) + items_amount short (ref_items refsize n (drop (refsize + 8) ptr)) k" for k
    by (simp add: items_amount_def q_def r0_def)
  show ?case
  proof (cases "find_idx (\<lambda>r. ab_key r = ab_key r0) (buf_rows b)")
    case None
    define b1 where "b1 = buf_Add ab_key b (mc_SetABScriptType (mc_SetABQuantity r0 q) found)"
    have "quantities_loop short refsize n (drop (refsize + 8) ptr) found b1 = (MC_ERR_NOERROR, b')"
      using Suc.prems(3) q None seek
      by (simp add: b1_def Let_def flip: q_def new_ab_row_def r0_def)
    moreover have "ab_buffer_ok b1"
      using Suc.prems(1) r0 by (auto simp: b1_def ab_buffer_ok_def buf_rows_Add)
    ultimately have IH: "ab_buffer_ok b'" "rows_amount (buf_rows b') k = rows_amount (buf_rows b1) k +
        items_amount short (ref_items refsize n (drop (refsize + 8) ptr)) k" for k
      using Suc.IH [OF _ len] by blast+
    have "rows_amount (buf_rows b1) k = rows_amount (buf_rows b) k + (if ab_key r0 = k then sint q else 0)" for k
      using rows_amount_add [of "mc_SetABScriptType (mc_SetABQuantity r0 q) found" "buf_rows b" k] None r0
      by (auto simp: b1_def buf_rows_Add rows_amount_def)
    with IH items show ?thesis by simp
  next
    case (Some i)
    define r where "r = buf_GetRow b i"
    have i: "i < m_Count b" "buf_rows b ! i = r" "ab_key r = ab_key r0" "row_ok r"
      using Some Suc.prems(1) by (auto simp: find_idx_Some ab_buffer_ok_def r_def buf_GetRow_nth)
    define f' where "f' = found OR mc_GetABScriptType r"
    define r' where "r' = mc_SetABScriptType (mc_SetABQuantity r (q + mc_GetABQuantity r)) f'"
    define b1 where "b1 = buf_write_row b i r'"
    have no: "\<not> (0 \<le> sint (mc_GetABQuantity r) \<and> sint (q + mc_GetABQuantity r) < 0)"
      and step: "quantities_loop short refsize n (drop (refsize + 8) ptr) f' b1 = (MC_ERR_NOERROR, b')"
      using Suc.prems(3) q Some seek
      by (auto simp: b1_def r'_def f'_def r_def Let_def split: if_splits simp flip: q_def new_ab_row_def r0_def)
    have r': "ab_key r' = ab_key r" "row_ok r'" "mc_GetABQuantity r' = q + mc_GetABQuantity r"
      using i(4) by (simp_all add: r'_def)
    have "ab_buffer_ok b1" unfolding b1_def using Suc.prems(1) i r' by (intro buf_write_ok) simp_all
    then have IH: "ab_buffer_ok b'" "rows_amount (buf_rows b') k = rows_amount (buf_rows b1) k +
        items_amount short (ref_items refsize n (drop (refsize + 8) ptr)) k" for k
      using Suc.IH [OF _ len step] by blast+
    have "sint (q + mc_GetABQuantity r) = sint q + sint (mc_GetABQuantity r)"
      using q no by (intro sint_add_small) auto
    moreover have "rows_amount (buf_rows b) (ab_key r0) = sint (mc_GetABQuantity r)" using Some i(2) by (simp add: rows_amount_def)
    ultimately have "rows_amount (buf_rows b1) k = rows_amount (buf_rows b) k + (if ab_key r0 = k then sint q else 0)" for k
      using rows_amount_write [OF Some, of r' k] r' i by (auto simp: b1_def buf_rows_write)
    with IH items show ?thesis by simp
  qed
qed

end
