(* ===== verification/Script_Theorems.thy ===== *)
theory Script_Theorems
  imports Script_Codec Script_Sig Asset_Facts Cscript_Facts
begin

text \<open>
  The properties of the script codec and of the numbers below it.
\<close>

section \<open>Metadata travels in a transaction output\<close>

lemma written_permission:
  "fst (script_GetData 0 (snd (script_SetPermission type bfrom bto timestamp script_Zero))) =
    Some (enc_permission (type, bfrom, bto, timestamp))"
proof -
  have z: "sc_CurrentElement script_Zero = sc_NumElements script_Zero - 1" by (simp add: script_Zero_def)
  obtain w where w: "script_SetPermission type bfrom bto timestamp script_Zero = (MC_ERR_NOERROR, w)" "script_ok w"
      "elements w = [enc_permission (type, bfrom, bto, timestamp)]"
    using permission_codec.writes [OF script_Zero_ok(1) z, of "(type, bfrom, bto, timestamp)"] by auto
  have "0 < sc_NumElements w" using arg_cong [OF w(3), of length] by simp
  then show ?thesis
    using GetData_frame(1) [of 0 w, OF _ _ w(2) surjective_pairing] w by simp
qed

text \<open>
  C25 Metadata arrives. Take the element that \<open>SetPermission\<close> writes into an empty script, put it, among other
  elements, behind the spending conditions of an output: \<open>SetScript\<close> on the output returns, the element can be selected, and
  \<open>GetPermission\<close> reads from it the type, the block range and the time stamp that were written.
\<close>

theorem permission_travels:
  assumes "fst (script_GetData 0 (snd (script_SetPermission type bfrom bto timestamp script_Zero))) = Some e"
    and "elems = before @ e # after" and "\<forall>b\<in>set before \<union> set after. b \<noteq> [] \<and> length b < 2 ^ 31" and "script_ok s"
    and "\<forall>i\<in>set items. item_ok i \<and> length (item_data i) < 2 ^ 31 \<and> item_opcode i \<noteq> OP_RETURN \<and> item_opcode i \<noteq> OP_DROP"
    and "length items + 2 * length elems < fuel"
  shows "\<exists>s' t. script_SetScript fuel fx (with_metadata items elems) MC_SCR_TYPE_SCRIPTPUBKEY s = Returns (MC_ERR_NOERROR, s') \<and>
    script_SetElement (int (length before)) s' = (MC_ERR_NOERROR, t) \<and>
    script_GetPermission t = Inr (type, bfrom, bto, timestamp)"
proof -
  have e: "e = enc_permission (type, bfrom, bto, timestamp)" using assms(1) written_permission by simp
  then have "length e = 20" by (simp add: enc_permission_def MULTICHAIN_IDENTIFIER_def)
  then have "\<forall>b\<in>set elems. b \<noteq> [] \<and> length b < 2 ^ 31" using assms(2,3) by auto
  from SetScript_metadata [OF assms(4,5) this assms(6), of fx] obtain s'
    where s': "script_SetScript fuel fx (with_metadata items elems) MC_SCR_TYPE_SCRIPTPUBKEY s = Returns (MC_ERR_NOERROR, s')"
      "script_ok s'" "elements s' = elems" by blast
  then show ?thesis
    using permission_codec.reads_selected [of s' "length before" "(type, bfrom, bto, timestamp)"] e assms(2) by auto
qed

lemma permission_travels_witness:
  "\<exists>s' t. script_SetScript 20 True (with_metadata [Op 0x76, Push [1, 2], Op 0x88] [[9], enc_permission (4, 10, 20, 77)])
      MC_SCR_TYPE_SCRIPTPUBKEY script_Zero = Returns (MC_ERR_NOERROR, s') \<and>
    script_SetElement 1 s' = (MC_ERR_NOERROR, t) \<and> script_GetPermission t = Inr (4, 10, 20, 77)"
  using permission_travels [of 4 10 20 77 "enc_permission (4, 10, 20, 77)" "[[9], enc_permission (4, 10, 20, 77)]" "[[9]]" "[]"
      script_Zero "[Op 0x76, Push [1, 2], Op 0x88]" 20 True]
  by (simp add: written_permission push_prefix_def)

section \<open>Reading scripts\<close>


lemma sizes_ok_example: "sizes_ok [0x02, 0x61, 0x62, 0x75]" "sizes_ok [0x02, 0x61, 0x62]"
  by (auto simp: sizes_ok_def)


text \<open>
  C27 A size that is negative as an \<open>int\<close> is not refused. A script that begins with \<open>OP_PUSHDATA4\<close> and
  the size -5 moves the pointer back to its start: read as the script of an output, it keeps \<open>SetScript\<close> running
  with any fuel, whatever follows.
\<close>

theorem SetScript_negative_size:
  "script_SetScript fuel fx (back_five @ rest) MC_SCR_TYPE_SCRIPTPUBKEY s = Runs"
proof -
  have "length (back_five @ rest) \<noteq> 0" by (simp add: back_five_def)
  then show ?thesis by (simp add: script_SetScript_def Let_def set_script_loop_back)
qed

text \<open>
  C28 \<open>mc_CheckSigScriptForMutableTx\<close> stays where it is on an operation that is no push: without negative sizes
  it returns if and only if the signature script consists of pushes.
\<close>

theorem CheckSig_returns:
  assumes "sizes_ok src"
  shows "(\<exists>fuel r. mc_CheckSigScriptForMutableTx fuel src = Returns r) \<longleftrightarrow> IsPushOnly src"
  using assms by (rule CheckSig_returns_iff)

lemma CheckSig_returns_witness:
  "\<not> (\<exists>fuel r. mc_CheckSigScriptForMutableTx fuel [0x02, 0x61, 0x62, 0x75] = Returns r)"
  using CheckSig_returns [OF sizes_ok_example(1)]
  by (simp add: IsPushOnly_def push_only.simps [of _ 0] push_only.simps [of _ "Suc (Suc (Suc 0))"] GetOp2_def Let_def)

text \<open>
  C29 Metadata does not change who can spend: taking the elements off an output gives back its spending conditions.
\<close>

theorem RemoveOpDrops_conditions:
  assumes "\<forall>i\<in>set items. item_ok i \<and> item_opcode i \<noteq> OP_RETURN \<and> item_opcode i \<noteq> OP_DROP"
    and "\<forall>e\<in>set elems. e \<noteq> [] \<and> length e < 2 ^ 32"
  shows "RemoveOpDrops (with_metadata items elems) = script_of items"
  using assms by (rule RemoveOpDrops_metadata)

lemma RemoveOpDrops_conditions_witness:
  "RemoveOpDrops (with_metadata [Op 0x76, Push [1, 2], Op 0x88] [[9], [8, 7]]) = [0x76, 0x02, 1, 2, 0x88]"
  using RemoveOpDrops_conditions [of "[Op 0x76, Push [1, 2], Op 0x88]" "[[9], [8, 7]]"]
  by (simp add: push_prefix_def)

section \<open>Details\<close>

lemma put_params:
  assumes "script_ok s" and "at_end s" and "0 < sc_NumElements s"
  shows "script_ok (fold put_param qs s) \<and> at_end (fold put_param qs s) \<and> 0 < sc_NumElements (fold put_param qs s) \<and>
    elements (fold put_param qs s) = butlast (elements s) @ [last (elements s) @ encode_params qs]"
  using assms
proof (induction qs arbitrary: s)
  case Nil
  then have "elements s \<noteq> []" by (metis length_elements length_greater_0_conv zero_less_nat_eq)
  then show ?case using Nil by (simp add: encode_params_def)
next
  case (Cons q qs)
  note p = put_param_ok [OF Cons.prems, of q]
  show ?case using Cons.IH [OF p(1-3)] p(4) by (simp add: encode_params_Cons)
qed

lemma written_details: "last (elements (fold put_param qs (script_AddElement script_Zero))) = encode_params qs"
proof -
  have "sc_CurrentElement script_Zero = sc_NumElements script_Zero - 1" by (simp add: script_Zero_def)
  then show ?thesis using put_params [OF AddElement_ok(1,2,4)] AddElement_ok(3) by simp
qed

lemma found_at_value:
  assumes "ptr = pre @ encode_params qs" and "length ptr < 2 ^ 30" and "found_at p (length pre) qs = (off, n)"
  shows "(case n of None \<Rightarrow> find p qs = None
    | Some n \<Rightarrow> \<exists>q. find p qs = Some q \<and> take n (drop (unat (of_nat off :: u32)) ptr) = param_value q)"
  using assms
proof (induction qs arbitrary: pre)
  case Nil
  then show ?case by simp
next
  case (Cons q qs)
  show ?case
  proof (cases "p q")
    case True
    then have o: "off = length pre + length (param_head q)" "n = Some (length (param_value q))" using Cons.prems(3) by auto
    have "off < 2 ^ 32" using Cons.prems(1,2) o by (simp add: encode_params_Cons encode_param_def)
    then have u: "unat (of_nat off :: u32) = off" by (rule u32_of_nat)
    show ?thesis unfolding u using True Cons.prems(1) o by (simp add: encode_params_Cons encode_param_def)
  next
    case False
    then show ?thesis using Cons.IH [of "pre @ encode_param q"] Cons.prems by (cases n) (simp_all add: encode_params_Cons)
  qed
qed

text \<open>The bytes of the value that a search gives.\<close>

definition details_value :: "u8 list \<Rightarrow> (u32 \<times> nat option) option \<Rightarrow> u8 list option option" where
  "details_value d r = map_option (\<lambda>(off, n). map_option (\<lambda>n. take n (drop (unat off) d)) n) r"

lemma details_value_found:
  assumes "length d < 2 ^ 30" and "d = encode_params qs"
  shows "details_value d (case found_at p 0 qs of (pos, n) \<Rightarrow> Some (of_nat pos, n)) = Some (map_option param_value (find p qs))"
proof -
  obtain pos n where f: "found_at p 0 qs = (pos, n)" by fastforce
  show ?thesis
    using found_at_value [of d "[]" qs p pos n] assms f by (auto simp: details_value_def split: option.splits)
qed

text \<open>
  C30 Details are found. Parameters written one after the other into a new element make details that pass the check,
  and a search for a special or a named parameter gives the value of the first one of this code or, up to case,
  this name, or none if there is none.
\<close>

theorem details_found:
  assumes "\<forall>q\<in>set qs. param_ok q" and "d = last (elements (fold put_param qs (script_AddElement script_Zero)))"
    and "length d < 2 ^ 30"
  shows "mc_VerifyDetailsScript d = Some MC_ERR_NOERROR \<and>
    details_value d (mc_FindSpecialParamInDetailsScript d c) = Some (map_option param_value (find (is_special (ucast c)) qs)) \<and>
    details_value d (mc_FindNamedParamInDetailsScript d name) = Some (map_option param_value (find (is_named name) qs))"
proof -
  have d: "d = encode_params qs" using assms(2) written_details by simp
  show ?thesis
    using verify_encode [OF assms(1) _ assms(3), of "[]" "length d + 1"] details_value_found [OF assms(3) d]
      find_special_encode [OF assms(1) _ assms(3), of "[]" "length d + 1" "ucast c"]
      find_named_encode [OF assms(1) _ assms(3), of "[]" "length d + 1" name]
    by (simp add: mc_VerifyDetailsScript_def mc_FindSpecialParamInDetailsScript_def mc_FindNamedParamInDetailsScript_def
        d [symmetric] del: verify_loop.simps find_special_loop.simps find_named_loop.simps)
qed

text \<open>
  C31 The loops over details stop on any bytes shorter than \<open>2 ^ 30\<close>: every parameter that is accepted moves the
  offset up.
\<close>

theorem details_terminate:
  assumes "length ptr < 2 ^ 30"
  shows "mc_VerifyDetailsScript ptr \<noteq> None \<and> mc_FindSpecialParamInDetailsScript ptr c \<noteq> None \<and>
    mc_FindNamedParamInDetailsScript ptr name \<noteq> None"
  using details_loops_stop [OF assms, of 0 "length ptr + 1"]
  by (simp add: mc_VerifyDetailsScript_def mc_FindSpecialParamInDetailsScript_def mc_FindNamedParamInDetailsScript_def)

lemma details_terminate_witness: "mc_VerifyDetailsScript [0x00, 0x01, 0xfd] \<noteq> None"
  using details_terminate [of "[0x00, 0x01, 0xfd]" 0 "[]"] by simp

section \<open>Numbers\<close>

text \<open>
  C32 With the check for minimality on, the bytes that are read as the number \<open>v\<close> are the serialisation of \<open>v\<close> and no others, and
  every number of up to 31 bits and a sign can be read back: an encoding cannot be varied without changing the number.
\<close>

theorem CScriptNum_canonical:
  "CScriptNum vch True = Some v \<longleftrightarrow> \<bar>v\<bar> < 2 ^ 31 \<and> vch = num_serialize v"
proof
  assume a: "CScriptNum vch True = Some v"
  then have "length vch \<le> 4" "v = num_set_vch vch" by (auto simp: CScriptNum_def split: if_splits)
  then show "\<bar>v\<bar> < 2 ^ 31 \<and> vch = num_serialize v" using num_serialize_minimal [OF a] num_set_vch_range by auto
next
  assume "\<bar>v\<bar> < 2 ^ 31 \<and> vch = num_serialize v"
  then show "CScriptNum vch True = Some v" using CScriptNum_serialize by blast
qed

lemma details_found_witness:
  "details_value (encode_params [Special 1 [5], Named [0x61, 0x62] [7, 8]])
    (mc_FindNamedParamInDetailsScript (encode_params [Special 1 [5], Named [0x61, 0x62] [7, 8]]) [0x41, 0x42]) = Some (Some [7, 8])"
proof -
  let ?qs = "[Special 1 [5], Named [0x61, 0x62] [7, 8]]"
  have "length (encode_params ?qs) < 2 ^ 30"
    by (simp add: encode_params_def encode_param_def param_head_def varint_of_def mc_PutVarInt_def)
  from details_found [of ?qs "encode_params ?qs" 0 "[0x41, 0x42]", OF _ written_details [symmetric] this]
  show ?thesis by (simp add: is_named_def lower_char_def)
qed

section \<open>Two readers of one format\<close>

text \<open>
  C33 The parser of the codec and the one of the script machine agree. Without negative sizes \<open>SetScript\<close> takes
  an operation apart like \<open>GetOp2\<close>: it fails where that fails, and otherwise finds the same data.
\<close>

theorem parsers_agree:
  assumes "sizes_ok src" and "p < length src"
  shows "push_header src p = (case GetOp2 src p of (ok, pc, opcode, vch) \<Rightarrow>
    if ok then Some (pc - length vch, int (length vch)) else None)"
  using assms by (rule push_header_GetOp2)

lemma parsers_agree_witness: "push_header [0x02, 0x61, 0x62, 0x75] 0 = Some (1, 2)"
  using parsers_agree [OF sizes_ok_example(1), of 0] by (simp add: GetOp2_def Let_def)



section \<open>Kinds of elements\<close>









section \<open>Quantities of assets\<close>

text \<open>
  C36 Quantities add up. When \<open>GetAssetQuantities\<close> reads an element without error, the amount of every asset in the
  buffer is the one before plus the quantities the element lists for the asset, as integers: the sum has not wrapped
  around, and no asset is touched that the element does not list.
\<close>

theorem quantities_add_up:
  assumes "ab_buffer_ok b" and "ref_shift short + refsize \<le> 32"
    and "script_GetAssetQuantities short refsize b script_type s = (MC_ERR_NOERROR, b')"
  shows "ab_buffer_ok b' \<and> (\<forall>k. rows_amount (buf_rows b') k = rows_amount (buf_rows b) k +
    items_amount short (ref_items refsize ((cur_size s - 4) div (refsize + 8)) (drop 4 (cur_data s))) k)"
proof -
  obtain found where l: "quantities_loop short refsize ((cur_size s - 4) div (refsize + 8)) (drop 4 (cur_data s)) found b = (MC_ERR_NOERROR, b')"
    using assms(3) by (auto simp: script_GetAssetQuantities_def Let_def split: if_splits)
  have "length (cur_data s) = cur_size s" by (simp add: cur_data_def)
  then have "(cur_size s - 4) div (refsize + 8) * (refsize + 8) \<le> length (drop 4 (cur_data s))" by simp
  then show ?thesis using quantities_loop_adds [OF assms(1,2) _ l] by simp
qed

text \<open>An element that lists 5 and 7 of one asset.\<close>

definition two_items :: "u8 list" where
  "two_items = [1, 2, 5, 0, 0, 0, 0, 0, 0, 0, 1, 2, 7, 0, 0, 0, 0, 0, 0, 0]"

definition two_items_script :: mc_Script where
  "two_items_script = script_SetData (MULTICHAIN_IDENTIFIER @ [ASSET_QUANTITY_PREFIX] @ two_items) (script_AddElement script_Zero)"

lemma two_items_element:
  "cur_data two_items_script = MULTICHAIN_IDENTIFIER @ [ASSET_QUANTITY_PREFIX] @ two_items" "cur_size two_items_script = 24"
  "sc_CurrentElement two_items_script = 0"
proof -
  let ?e = "MULTICHAIN_IDENTIFIER @ [ASSET_QUANTITY_PREFIX] @ two_items"
  have "sc_CurrentElement script_Zero = sc_NumElements script_Zero - 1" by (simp add: script_Zero_def)
  from new_element [OF script_Zero_ok(1) this, of "[?e]"]
  have t: "script_ok two_items_script" "at_end two_items_script" "elements two_items_script = [?e]"
    by (simp_all add: two_items_script_def)
  have "sc_NumElements two_items_script = 1" using arg_cong [OF t(3), of length] script_okD(1) [OF t(1)] by simp
  with t(2) show c: "sc_CurrentElement two_items_script = 0" by (simp add: at_end_def)
  have n: "sc_NumElements two_items_script = 1" by fact
  show "cur_data two_items_script = ?e" "cur_size two_items_script = 24"
    using cur_data_nth [of two_items_script] c n t(3) by (simp_all add: two_items_def MULTICHAIN_IDENTIFIER_def)
qed

lemma two_items_read:
  "fst (script_GetAssetQuantities False 2 (mc_InitABufferMap (\<lambda>_. [])) ASSET_SCRIPT_TYPE_TRANSFER two_items_script) = MC_ERR_NOERROR"
proof -
  have "fst (quantities_loop False 2 2 two_items ASSET_SCRIPT_TYPE_TRANSFER (mc_InitABufferMap (\<lambda>_. []))) = MC_ERR_NOERROR"
    by code_simp
  then show ?thesis
    by (simp add: script_GetAssetQuantities_def two_items_element MULTICHAIN_IDENTIFIER_def numeral_2_eq_2)
qed

lemma quantities_add_up_witness:
  "rows_amount (buf_rows (snd (script_GetAssetQuantities False 2 (mc_InitABufferMap (\<lambda>_. [])) ASSET_SCRIPT_TYPE_TRANSFER
    two_items_script))) (ab_key (new_ab_row False [1, 2])) = 12"
proof -
  have "ab_buffer_ok (mc_InitABufferMap (\<lambda>_. []))"
    by (simp add: ab_buffer_ok_def mc_InitABufferMap_def buf_rows_Initialize)
  moreover obtain b' where "script_GetAssetQuantities False 2 (mc_InitABufferMap (\<lambda>_. [])) ASSET_SCRIPT_TYPE_TRANSFER two_items_script = (MC_ERR_NOERROR, b')"
    using two_items_read by (metis prod.collapse)
  moreover have "items_amount False (ref_items 2 2 two_items) (ab_key (new_ab_row False [1, 2])) = 12" by code_simp
  ultimately show ?thesis
    using quantities_add_up [of "mc_InitABufferMap (\<lambda>_. [])" False 2 ASSET_SCRIPT_TYPE_TRANSFER two_items_script b']
    by (simp add: two_items_element MULTICHAIN_IDENTIFIER_def ref_shift_def rows_amount_def mc_InitABufferMap_def buf_rows_Initialize)
qed

end
