(* ===== verification/Entity_State.thy ===== *)
theory Entity_State
  imports Database Buffer Features Script_Elements "HOL-Library.List_Lexorder"
begin

text \<open>
  Entities (assets, streams, upgrades), \<^verbatim>\<open>src/src/entities/asset.h\<close> and \<^verbatim>\<open>asset.cpp\<close>: the rows, the ledger file,
  the state and the look-up of a row. The ledger is the list of the file's bytes; a row is a header of 96 bytes and, behind
  it, the script in chunks of 96 bytes. Integers of a row are kept as integers and take their width in the file.
  The database has a row for every key of an entity, a key being 32 bytes and a type, and one for the key of zeros.
\<close>

section \<open>Constants\<close>

abbreviation (input) MC_ERR_FOUND :: int where "MC_ERR_FOUND \<equiv> 0x0E"
abbreviation (input) MC_ENT_KEY_SIZE :: nat where "MC_ENT_KEY_SIZE \<equiv> 32"
abbreviation (input) MC_ENT_REF_SIZE :: nat where "MC_ENT_REF_SIZE \<equiv> 10"
abbreviation (input) MC_ENT_SCRIPT_ALLOC_SIZE :: nat where "MC_ENT_SCRIPT_ALLOC_SIZE \<equiv> 8192"
abbreviation (input) MC_ENT_KEYTYPE_TXID :: u32 where "MC_ENT_KEYTYPE_TXID \<equiv> 0x00000001"
abbreviation (input) MC_ENT_KEYTYPE_REF :: u32 where "MC_ENT_KEYTYPE_REF \<equiv> 0x00000002"
abbreviation (input) MC_ENT_KEYTYPE_NAME :: u32 where "MC_ENT_KEYTYPE_NAME \<equiv> 0x00000003"
abbreviation (input) MC_ENT_KEYTYPE_SHORT_TXID :: u32 where "MC_ENT_KEYTYPE_SHORT_TXID \<equiv> 0x00000004"
abbreviation (input) MC_ENT_KEYTYPE_MASK :: u32 where "MC_ENT_KEYTYPE_MASK \<equiv> 0x000000FF"
abbreviation (input) MC_ENT_KEYTYPE_FOLLOW_ON :: u32 where "MC_ENT_KEYTYPE_FOLLOW_ON \<equiv> 0x00000100"
abbreviation (input) MC_ENT_TYPE_ASSET :: u32 where "MC_ENT_TYPE_ASSET \<equiv> 0x01"
abbreviation (input) MC_ENT_TYPE_STREAM :: u32 where "MC_ENT_TYPE_STREAM \<equiv> 0x02"
abbreviation (input) MC_ENT_TYPE_STREAM_MAX :: u32 where "MC_ENT_TYPE_STREAM_MAX \<equiv> 0x0F"
abbreviation (input) MC_ENT_TYPE_UPGRADE :: u32 where "MC_ENT_TYPE_UPGRADE \<equiv> 0x10"
abbreviation (input) MC_ENT_TYPE_MAX :: u32 where "MC_ENT_TYPE_MAX \<equiv> 0x10"
abbreviation (input) MC_ENT_SPRM_NAME :: u32 where "MC_ENT_SPRM_NAME \<equiv> 0x01"
abbreviation (input) MC_ENT_SPRM_FOLLOW_ONS :: u32 where "MC_ENT_SPRM_FOLLOW_ONS \<equiv> 0x02"
abbreviation (input) MC_ENT_SPRM_ANYONE_CAN_WRITE :: u32 where "MC_ENT_SPRM_ANYONE_CAN_WRITE \<equiv> 0x04"
abbreviation (input) MC_ENT_SPRM_ASSET_MULTIPLE :: u32 where "MC_ENT_SPRM_ASSET_MULTIPLE \<equiv> 0x41"
abbreviation (input) MC_ENT_SPRM_UPGRADE_PROTOCOL_VERSION :: u32 where "MC_ENT_SPRM_UPGRADE_PROTOCOL_VERSION \<equiv> 0x42"
abbreviation (input) MC_ENT_SPRM_UPGRADE_START_BLOCK :: u32 where "MC_ENT_SPRM_UPGRADE_START_BLOCK \<equiv> 0x43"
abbreviation (input) MC_ENT_FLAG_OFFSET_IS_SET :: u32 where "MC_ENT_FLAG_OFFSET_IS_SET \<equiv> 0x00000001"
abbreviation (input) MC_ENT_FLAG_NAME_IS_SET :: u32 where "MC_ENT_FLAG_NAME_IS_SET \<equiv> 0x00000010"

text \<open>The size of a header, \<open>m_TotalSize\<close> of the ledger.\<close>

abbreviation (input) ent_TotalSize :: int where "ent_TotalSize \<equiv> 96"

section \<open>Rows\<close>

record ent_row =
  e_Key :: "u8 list"
  e_KeyType :: u32
  e_Block :: int
  e_Offset :: int
  e_ScriptSize :: nat
  e_Quantity :: int
  e_EntityType :: u32
  e_PrevPos :: int
  e_FirstPos :: int
  e_LastPos :: int
  e_ChainPos :: int
  e_Script :: "u8 list"

text \<open>\<open>e_Script\<close> has the first bytes of the array \<open>m_Script\<close>; the others are 0.\<close>

definition zero_ent_row :: ent_row where
  "zero_ent_row = \<lparr>e_Key = replicate MC_ENT_KEY_SIZE 0, e_KeyType = 0, e_Block = 0, e_Offset = 0, e_ScriptSize = 0, e_Quantity = 0,
     e_EntityType = 0, e_PrevPos = 0, e_FirstPos = 0, e_LastPos = 0, e_ChainPos = 0, e_Script = []\<rparr>"

definition ent_key :: "u8 list \<Rightarrow> u32 \<Rightarrow> u8 list" where
  "ent_key k t = k @ mc_PutLE 4 t"

definition row_ent_key :: "ent_row \<Rightarrow> u8 list" where
  "row_ent_key r = ent_key (e_Key r) (e_KeyType r)"

definition is_txid :: "ent_row \<Rightarrow> bool" where
  "is_txid r \<longleftrightarrow> e_KeyType r AND MC_ENT_KEYTYPE_MASK = MC_ENT_KEYTYPE_TXID"

record ent_val =
  ev_Block :: int
  ev_LedgerPos :: int
  ev_ChainPos :: int
  ev_EntityType :: u32

definition zero_ent_val :: ent_val where
  "zero_ent_val = \<lparr>ev_Block = 0, ev_LedgerPos = 0, ev_ChainPos = 0, ev_EntityType = 0\<rparr>"

definition zero_ent_key :: "u8 list" where
  "zero_ent_key = replicate 36 0"

section \<open>The ledger file\<close>

record ent_ledger =
  el_CanOpen :: bool
  el_File :: "u8 list"

definition mc_AllocSize :: "int \<Rightarrow> int \<Rightarrow> int \<Rightarrow> int" where
  "mc_AllocSize items chunk_size item_size =
    (if items \<le> 0 then 0 else ((items - 1) div chunk_size + 1) * chunk_size * item_size)"

definition put_i32 :: "int \<Rightarrow> u8 list" where "put_i32 x = mc_PutLE 4 (word_of_int x :: u32)"
definition put_i64 :: "int \<Rightarrow> u8 list" where "put_i64 x = mc_PutLE 8 (word_of_int x :: u64)"
definition get_i32 :: "u8 list \<Rightarrow> nat \<Rightarrow> int" where "get_i32 bs off = sint (le32 bs off 4)"
definition get_i64 :: "u8 list \<Rightarrow> nat \<Rightarrow> int" where "get_i64 bs off = sint (mc_GetLE (take 8 (drop off bs)))"

text \<open>The 96 bytes of a header, in the order of the struct.\<close>

definition encode_head :: "ent_row \<Rightarrow> u8 list" where
  "encode_head r = e_Key r @ mc_PutLE 4 (e_KeyType r) @ put_i32 (e_Block r) @ put_i32 (e_Offset r) @
     put_i32 (int (e_ScriptSize r)) @ put_i64 (e_Quantity r) @ mc_PutLE 4 (e_EntityType r) @ replicate 4 0 @
     put_i64 (e_PrevPos r) @ put_i64 (e_FirstPos r) @ put_i64 (e_LastPos r) @ put_i64 (e_ChainPos r)"

definition decode_head :: "u8 list \<Rightarrow> ent_row" where
  "decode_head bs = \<lparr>e_Key = take 32 bs, e_KeyType = le32 bs 32 4, e_Block = get_i32 bs 36, e_Offset = get_i32 bs 40,
     e_ScriptSize = unat (le32 bs 44 4), e_Quantity = get_i64 bs 48, e_EntityType = le32 bs 56 4, e_PrevPos = get_i64 bs 64,
     e_FirstPos = get_i64 bs 72, e_LastPos = get_i64 bs 80, e_ChainPos = get_i64 bs 88, e_Script = []\<rparr>"

text \<open>
  \<open>GetRow\<close> reads into the caller's row, which is zeroed once the position is set; a short read leaves
  what there was in the file. A script size above 8160 would be read beyond the array; no operation writes such a row.
\<close>

definition ent_GetRow :: "ent_ledger \<Rightarrow> int \<Rightarrow> ent_row \<Rightarrow> int \<times> ent_row" where
  "ent_GetRow el pos row =
    (if \<not> el_CanOpen el then (MC_ERR_INTERNAL_ERROR, row)
     else if pos < 0 then (MC_ERR_NOT_FOUND, row)
     else
       let rest = drop (nat pos) (el_File el);
           row = decode_head (take 96 (rest @ replicate 96 0))
       in if length rest < 96 then (MC_ERR_FILE_READ_ERROR, row)
          else
            let size = to_i32 (int (e_ScriptSize row)) in
            if size > 0 \<and> size \<le> int MC_ENT_SCRIPT_ALLOC_SIZE
            then let n = nat (mc_AllocSize size ent_TotalSize 1); bs = take n (drop 96 rest)
              in (if length bs \<noteq> n then MC_ERR_FILE_READ_ERROR else MC_ERR_NOERROR, row\<lparr>e_Script := bs\<rparr>)
            else (MC_ERR_NOERROR, row))"

text \<open>A write at a position; a write behind the end leaves a hole of zeros.\<close>

definition write_bytes :: "nat \<Rightarrow> u8 list \<Rightarrow> u8 list \<Rightarrow> u8 list" where
  "write_bytes pos bs f = take pos (f @ replicate (pos - length f) 0) @ bs @ drop (pos + length bs) f"

definition ent_SetRow :: "ent_ledger \<Rightarrow> int \<Rightarrow> ent_row \<Rightarrow> int \<times> ent_ledger" where
  "ent_SetRow el pos row =
    (if \<not> el_CanOpen el then (-1, el)
     else if pos < 0 then (-1, el)
     else
       let size = to_i32 (int (e_ScriptSize row)) in
       if size \<ge> 0 \<and> size \<le> int MC_ENT_SCRIPT_ALLOC_SIZE
       then let size = mc_AllocSize size ent_TotalSize 1
         in (ent_TotalSize + size, el\<lparr>el_File := write_bytes (nat pos)
              (encode_head row @ take (nat size) (e_Script row @ replicate (nat size) 0)) (el_File el)\<rparr>)
       else (-1, el))"

definition ent_SetZeroRow :: "ent_ledger \<Rightarrow> ent_row \<Rightarrow> int \<times> ent_ledger" where
  "ent_SetZeroRow el row = ent_SetRow el 0 row"

text \<open>The position after the row that \<open>row\<close>, at \<open>pos\<close>, takes.\<close>

definition row_end :: "int \<Rightarrow> ent_row \<Rightarrow> int" where
  "row_end pos row = pos + mc_AllocSize (to_i32 (ent_TotalSize + int (e_ScriptSize row))) ent_TotalSize 1"

definition ent_GetSize :: "ent_ledger \<Rightarrow> int" where
  "ent_GetSize el =
    (if \<not> el_CanOpen el then 0
     else let row = snd (ent_GetRow el 0 zero_ent_row); pos = e_PrevPos row
       in row_end pos (snd (ent_GetRow el pos row)))"

section \<open>The state\<close>

type_synonym ent_db = "(u8 list, ent_val) mc_Database"
type_synonym ent_pool = "(u8 list, ent_row) mc_Buffer"

record mc_AssetDB =
  a_Database :: ent_db
  a_Ledger :: ent_ledger
  a_MemPool :: ent_pool
  a_Block :: int
  a_PrevPos :: int
  a_Pos :: int

section \<open>Looking up a row\<close>

text \<open>
  The row of the memory pool with the data of an entity is the one with its transaction identifier, which stands at most
  three rows before those of the other keys. A negative result means that there is none.
\<close>

fun txid_row :: "nat \<Rightarrow> ent_pool \<Rightarrow> int \<Rightarrow> int" where
  "txid_row n b i =
    (if i < 0 then i
     else if is_txid (buf_GetRow b (nat i)) then i
     else (case n of 0 \<Rightarrow> -1 | Suc m \<Rightarrow> txid_row m b (i - 1)))"

declare txid_row.simps [simp del]

text \<open>Whether there is a row for the key of \<open>row\<close>, and the caller's row afterwards.\<close>

definition ent_GetEntity :: "mc_AssetDB \<Rightarrow> ent_row \<Rightarrow> bool \<times> ent_row" where
  "ent_GetEntity a row =
    (case db_Read (a_Database a) (row_ent_key row) of
       (v, err) \<Rightarrow>
         if err \<noteq> MC_ERR_NOERROR then (False, row)
         else case v of
           Some v \<Rightarrow>
             if \<not> el_CanOpen (a_Ledger a) then (False, row)
             else let (err, row) = ent_GetRow (a_Ledger a) (ev_LedgerPos v) row
               in (err = MC_ERR_NOERROR, row\<lparr>e_ChainPos := ev_ChainPos v\<rparr>)
         | None \<Rightarrow>
             (case buf_Seek row_ent_key (a_MemPool a) (row_ent_key row) of
                None \<Rightarrow> (False, row)
              | Some mprow \<Rightarrow>
                  let mprow = txid_row 3 (a_MemPool a) (int mprow)
                  in if mprow < 0 then (False, row) else (True, buf_GetRow (a_MemPool a) (nat mprow))))"

end
