(* ===== verification/Entity_Details.thy ===== *)
theory Entity_Details
  imports Entity_State Script_Assets
begin

text \<open>
  The details of an entity, \<^verbatim>\<open>mc_EntityDetails\<close> of \<^verbatim>\<open>src/src/entities/asset.cpp\<close>: its reference, name and flags, which
  \<open>Set\<close> derives from a row, and what is read from its script. Searches in a script stop
  (\<open>Script_Theorems\<close>), as scripts of rows are short; the size they leave unset when nothing is found is not used.
\<close>

section \<open>Searches\<close>

definition row_script :: "ent_row \<Rightarrow> u8 list" where
  "row_script r = take (e_ScriptSize r) (e_Script r @ replicate (e_ScriptSize r) 0)"

text \<open>Offset and size of the value; the offset is the size of the script when nothing is found.\<close>

definition special_param :: "u8 list \<Rightarrow> u32 \<Rightarrow> nat \<times> nat" where
  "special_param script param =
    (case mc_FindSpecialParamInDetailsScript script param of
       Some (off, Some n) \<Rightarrow> (unat off, n) | _ \<Rightarrow> (length script, 0))"

definition named_param :: "u8 list \<Rightarrow> u8 list \<Rightarrow> nat \<times> nat" where
  "named_param script param =
    (case mc_FindNamedParamInDetailsScript script param of
       Some (off, Some n) \<Rightarrow> (unat off, n) | _ \<Rightarrow> (length script, 0))"

text \<open>The parameter with the name of an entity: the special one, or the older named one. A name of \<open>*\<close> is none.\<close>

definition name_param :: "net_params \<Rightarrow> u8 list \<Rightarrow> nat \<times> nat" where
  "name_param np script =
    (let (off, n) = special_param script MC_ENT_SPRM_NAME;
         (off, n) = (if off = length script then named_param script [0xff, 0x6e, 0x61, 0x6d, 0x65] else (off, n))
     in if Streams np \<and> off < length script \<and> n = 2 \<and> script ! off = 0x2a then (length script, 0) else (off, n))"

section \<open>Set\<close>

record ent_details =
  d_Ref :: "u8 list"
  d_FullRef :: "u8 list"
  d_Name :: "u8 list"
  d_Flags :: u32
  d_LedgerRow :: ent_row

definition zero_ent_details :: ent_details where
  "zero_ent_details = \<lparr>d_Ref = replicate 10 0, d_FullRef = replicate 36 0, d_Name = replicate 38 0, d_Flags = 0,
     d_LedgerRow = zero_ent_row\<rparr>"

text \<open>Block, offset and the last two bytes of the transaction identifier.\<close>

definition entity_ref :: "ent_row \<Rightarrow> u8 list" where
  "entity_ref row = put_i32 (e_Block row) @ put_i32 (e_Offset row) @ [e_Key row ! 31, e_Key row ! 30]"

text \<open>
  \<open>m_Name\<close> has 38 bytes. The code copies the value whatever its size; \<open>details_name\<close> has what fits, and the
  operations that enter a row are undefined (\<open>None\<close>) for a longer name.
\<close>

definition details_name :: "u8 list \<Rightarrow> nat \<Rightarrow> nat \<Rightarrow> u8 list" where
  "details_name script off n = take 38 (mc_StringLowerCase (take n (drop off script)) n @ replicate 38 0)"

definition details_Set :: "net_params \<Rightarrow> ent_row \<Rightarrow> ent_details" where
  "details_Set np row =
    (let script = row_script row; (off, n) = name_param np script;
         named = (e_ScriptSize row \<noteq> 0 \<and> off < length script);
         ref = (if e_Offset row \<noteq> 0 then entity_ref row else replicate 10 0)
     in \<lparr>d_Ref = ref,
         d_FullRef = (if ShortTxIDInTx np
           then mc_SetABRefType (bytes_put 16 (take 16 (drop 16 (e_Key row))) (replicate 36 0)) MC_AST_ASSET_REF_TYPE_SHORT_TXID
           else mc_SetABRefType (bytes_put 0 ref (replicate 36 0)) MC_AST_ASSET_REF_TYPE_REF),
         d_Name = (if named then details_name script off n else replicate 38 0),
         d_Flags = (if e_Offset row \<noteq> 0 then MC_ENT_FLAG_OFFSET_IS_SET else 0) OR (if named then MC_ENT_FLAG_NAME_IS_SET else 0),
         d_LedgerRow = row\<rparr>)"

section \<open>What an entity says\<close>

definition c_string :: "u8 list \<Rightarrow> u8 list" where
  "c_string p = takeWhile (\<lambda>c. c \<noteq> 0) p"

definition details_GetName :: "net_params \<Rightarrow> ent_details \<Rightarrow> u8 list" where
  "details_GetName np d =
    (let row = d_LedgerRow d; script = row_script row; (off, n) = name_param np script
     in if e_ScriptSize row \<noteq> 0 \<and> off < length script then c_string (drop off (e_Script row)) else c_string (d_Name d))"

definition details_GetTxID :: "ent_details \<Rightarrow> u8 list" where
  "details_GetTxID d = e_Key (d_LedgerRow d)"

definition details_GetRef :: "ent_details \<Rightarrow> u8 list" where
  "details_GetRef d = d_Ref d"

definition details_IsUnconfirmedGenesis :: "ent_details \<Rightarrow> bool" where
  "details_IsUnconfirmedGenesis d \<longleftrightarrow> get_i32 (d_Ref d) 4 < 0"

definition details_GetFullRef :: "ent_details \<Rightarrow> u8 list" where
  "details_GetFullRef d = d_FullRef d"

definition details_GetShortRef :: "net_params \<Rightarrow> ent_details \<Rightarrow> u8 list" where
  "details_GetShortRef np d = (if ShortTxIDInTx np then drop MC_AST_SHORT_TXID_OFFSET (details_GetTxID d) else d_Ref d)"

definition details_GetScript :: "ent_details \<Rightarrow> u8 list" where
  "details_GetScript d = e_Script (d_LedgerRow d)"

definition details_GetSpecialParam :: "ent_details \<Rightarrow> u32 \<Rightarrow> u8 list option" where
  "details_GetSpecialParam d param =
    (let script = row_script (d_LedgerRow d); (off, n) = special_param script param
     in if off = length script then None else Some (take n (drop off script)))"

definition details_GetParam :: "ent_details \<Rightarrow> u8 list \<Rightarrow> u8 list option" where
  "details_GetParam d param =
    (let script = row_script (d_LedgerRow d); (off, n) = named_param script param
     in if off = length script then None else Some (take n (drop off script)))"

text \<open>A parameter of one to four bytes as an \<open>int\<close>, 0 if there is none.\<close>

definition int_param :: "ent_details \<Rightarrow> u32 \<Rightarrow> int" where
  "int_param d param =
    (case details_GetSpecialParam d param of None \<Rightarrow> 0
     | Some v \<Rightarrow> if 0 < length v \<and> length v \<le> 4 then to_i32 (sint (mc_GetLE v)) else 0)"

definition details_AllowedFollowOns :: "ent_details \<Rightarrow> int" where
  "details_AllowedFollowOns d = int_param d MC_ENT_SPRM_FOLLOW_ONS"

definition details_AnyoneCanWrite :: "ent_details \<Rightarrow> int" where
  "details_AnyoneCanWrite d = int_param d MC_ENT_SPRM_ANYONE_CAN_WRITE"

definition details_UpgradeStartBlock :: "ent_details \<Rightarrow> u32" where
  "details_UpgradeStartBlock d = word_of_int (int_param d MC_ENT_SPRM_UPGRADE_START_BLOCK)"

definition details_UpgradeProtocolVersion :: "ent_details \<Rightarrow> int" where
  "details_UpgradeProtocolVersion d = int_param d MC_ENT_SPRM_UPGRADE_PROTOCOL_VERSION"

definition details_GetAssetMultiple :: "ent_details \<Rightarrow> int" where
  "details_GetAssetMultiple d =
    (let multiple = (case details_GetSpecialParam d MC_ENT_SPRM_ASSET_MULTIPLE of None \<Rightarrow> 1
           | Some v \<Rightarrow> if length v = 4 then to_i32 (sint (mc_GetLE v)) else 1)
     in if multiple \<le> 0 then 1 else multiple)"

definition details_IsFollowOn :: "ent_details \<Rightarrow> bool" where
  "details_IsFollowOn d \<longleftrightarrow> e_KeyType (d_LedgerRow d) AND MC_ENT_KEYTYPE_FOLLOW_ON \<noteq> 0"

definition details_GetQuantity :: "ent_details \<Rightarrow> u64" where
  "details_GetQuantity d = word_of_int (e_Quantity (d_LedgerRow d))"

definition details_GetEntityType :: "ent_details \<Rightarrow> u32" where
  "details_GetEntityType d = e_EntityType (d_LedgerRow d)"

text \<open>The next offset, -1 at the end, with the start and the size of the value.\<close>

definition details_NextParam :: "ent_details \<Rightarrow> u32 \<Rightarrow> int \<times> u32 \<times> nat" where
  "details_NextParam d offset =
    (let script = row_script (d_LedgerRow d);
         (new_offset, value_start, bytes, err) = mc_GetParamFromDetailsScript script (of_nat (length script)) offset;
         new_offset = sint new_offset
     in (if new_offset = to_i32 (int (e_ScriptSize (d_LedgerRow d))) then -1 else new_offset, value_start, bytes))"

definition MaxEntityType :: "net_params \<Rightarrow> u32" where
  "MaxEntityType np = (if \<not> Upgrades np then MC_ENT_TYPE_STREAM_MAX else MC_ENT_TYPE_MAX)"

definition MaxStoredIssuers :: nat where
  "MaxStoredIssuers = 128"

end
