(* ===== verification/Entity_Insert.thy ===== *)
theory Entity_Insert
  imports Entity_Details Perm_Set
begin

text \<open>
  Entering entities into the memory pool, \<^verbatim>\<open>src/src/entities/asset.cpp\<close>: \<open>InsertEntity\<close>, \<open>InsertAsset\<close>,
  \<open>InsertAssetFollowOn\<close> and the total quantity of an asset. The script passed is never the NULL pointer. Results
  \<open>None\<close> stand for a copy beyond the end of an array, or a walk along the ledger that does not end.
\<close>

section \<open>The script of a row\<close>

definition to_i64 :: "int \<Rightarrow> int" where
  "to_i64 x = sint (word_of_int x :: u64)"

text \<open>The array \<open>m_Script\<close> up to the end of the last chunk in the file.\<close>

definition chunked :: "u8 list \<Rightarrow> u8 list" where
  "chunked bs = bs @ replicate (nat (mc_AllocSize (int (length bs)) ent_TotalSize 1) - length bs) 0"

definition details_start :: "u8 list \<Rightarrow> mc_Script" where
  "details_start special_script =
    (let s = script_AddElement script_Zero in if special_script \<noteq> [] then script_SetData special_script s else s)"

text \<open>\<open>m_Size\<close> bytes from the first element on.\<close>

definition details_bytes :: "mc_Script \<Rightarrow> u8 list" where
  "details_bytes s = mem_get (sc_lpData s) (fst (sc_lpCoord s 0)) (sc_Size s)"

definition with_script :: "mc_Script \<Rightarrow> u8 list \<Rightarrow> ent_row \<Rightarrow> ent_row" where
  "with_script lpDetails script row =
    (let bs = details_bytes lpDetails @ script in row\<lparr>e_ScriptSize := length bs, e_Script := chunked bs\<rparr>)"

text \<open>Whether the script fits into \<open>m_Script\<close> and the name into \<open>m_Name\<close>.\<close>

definition row_fits :: "net_params \<Rightarrow> ent_row \<Rightarrow> bool" where
  "row_fits np row \<longleftrightarrow> e_ScriptSize row \<le> MC_ENT_SCRIPT_ALLOC_SIZE \<and>
     (case name_param np (row_script row) of (off, n) \<Rightarrow> off < e_ScriptSize row \<longrightarrow> n \<le> 38)"

section \<open>The keys of an entity\<close>

definition padded_key :: "u8 list \<Rightarrow> u8 list" where
  "padded_key k = k @ replicate (MC_ENT_KEY_SIZE - length k) 0"

definition entity_keys :: "ent_details \<Rightarrow> (u8 list \<times> u32) list" where
  "entity_keys d =
    (let key = e_Key (d_LedgerRow d)
     in [(key, MC_ENT_KEYTYPE_TXID)] @
        (if d_Flags d AND MC_ENT_FLAG_OFFSET_IS_SET \<noteq> 0 then [(padded_key (d_Ref d), MC_ENT_KEYTYPE_REF)] else []) @
        (if d_Flags d AND MC_ENT_FLAG_NAME_IS_SET \<noteq> 0 then [(take 32 (d_Name d), MC_ENT_KEYTYPE_NAME)] else []) @
        [(padded_key (take 16 (drop MC_AST_SHORT_TXID_OFFSET key)), MC_ENT_KEYTYPE_SHORT_TXID)])"

text \<open>The first pass: whether one of the keys is known. The row is the caller's, which a look-up may overwrite.\<close>

fun keys_found :: "mc_AssetDB \<Rightarrow> (u8 list \<times> u32) list \<Rightarrow> ent_row \<Rightarrow> bool \<times> ent_row" where
  "keys_found a [] row = (False, row)"
| "keys_found a ((k, t) # ks) row =
    (case ent_GetEntity a (row\<lparr>e_Key := k, e_KeyType := t\<rparr>) of
       (found, row) \<Rightarrow> if found then (True, row) else keys_found a ks row)"

text \<open>The second pass: a row for each key.\<close>

definition add_keys :: "(u8 list \<times> u32) list \<Rightarrow> ent_row \<Rightarrow> ent_pool \<Rightarrow> ent_pool" where
  "add_keys ks row pool = foldl (\<lambda>b (k, t). buf_Add row_ent_key b (row\<lparr>e_Key := k, e_KeyType := t\<rparr>)) pool ks"

definition insert_keys :: "net_params \<Rightarrow> mc_AssetDB \<Rightarrow> ent_row \<Rightarrow> bool \<Rightarrow> int \<times> mc_AssetDB" where
  "insert_keys np a row update_mempool =
    (let ks = entity_keys (details_Set np row)
     in case keys_found a ks row of
       (True, _) \<Rightarrow> (MC_ERR_FOUND, a)
     | (False, row) \<Rightarrow> (MC_ERR_NOERROR, if update_mempool then a\<lparr>a_MemPool := add_keys ks row (a_MemPool a)\<rparr> else a))"

text \<open>The row of a new entity before its script.\<close>

definition new_ent_row :: "mc_AssetDB \<Rightarrow> u8 list \<Rightarrow> u32 \<Rightarrow> int \<Rightarrow> int \<Rightarrow> u32 \<Rightarrow> int \<Rightarrow> int \<Rightarrow> ent_row" where
  "new_ent_row a txid keytype offset quantity entity_type first_pos last_pos = zero_ent_row
     \<lparr>e_Key := txid, e_KeyType := keytype, e_Block := a_Block a + 1,
      e_Offset := (if offset < 0 then - (int (buf_GetCount (a_MemPool a)) + 1) else offset),
      e_Quantity := quantity, e_EntityType := entity_type, e_FirstPos := first_pos, e_LastPos := last_pos,
      e_ChainPos := -1, e_PrevPos := -1\<rparr>"

section \<open>Streams and upgrades\<close>

text \<open>A name without its terminating zero is entered again with one, through a local array of 33 bytes.\<close>

definition terminated_name :: "u8 list \<Rightarrow> mc_Script \<Rightarrow> mc_Script option" where
  "terminated_name script lpDetails =
    (let (off, n) = special_param script MC_ENT_SPRM_NAME
     in if off \<noteq> length script \<and> n \<noteq> 0 \<and> script ! (off + n - 1) \<noteq> 0
        then if n > 32 then None
          else Some (script_SetSpecialParamValue (ucast MC_ENT_SPRM_NAME) (c_string (take n (drop off script)) @ [0]) lpDetails)
        else Some lpDetails)"

text \<open>The block an upgrade starts at.\<close>

definition upgrade_start :: "u8 list \<Rightarrow> int + u32" where
  "upgrade_start script =
    (let (off, n) = special_param script MC_ENT_SPRM_UPGRADE_PROTOCOL_VERSION
     in if off = length script then Inl MC_ERR_ERROR_IN_SCRIPT
        else if n = 0 \<or> n > 4 then Inl MC_ERR_ERROR_IN_SCRIPT
        else if to_i32 (sint (mc_GetLE (take n (drop off script)))) < 0 then Inl MC_ERR_ERROR_IN_SCRIPT
        else
          let (off, n) = special_param script MC_ENT_SPRM_UPGRADE_START_BLOCK
          in if off = length script then Inr 0
             else if n = 0 \<or> n > 4 then Inl MC_ERR_ERROR_IN_SCRIPT
             else Inr (ucast (mc_GetLE (take n (drop off script)))))"

definition InsertEntity :: "net_params \<Rightarrow> mc_AssetDB \<Rightarrow> mc_Permissions \<Rightarrow> u8 list \<Rightarrow> int \<Rightarrow> u32 \<Rightarrow> u8 list \<Rightarrow> u8 list \<Rightarrow>
    bool \<Rightarrow> u32 \<Rightarrow> (int \<times> mc_AssetDB \<times> mc_Permissions) option" where
  "InsertEntity np a p txid offset entity_type script special_script update_mempool now =
    (let row = new_ent_row a txid MC_ENT_KEYTYPE_TXID offset 0 entity_type (-1) 0;
         upgrade = (Upgrades np \<and> entity_type = MC_ENT_TYPE_UPGRADE)
     in case terminated_name script (details_start special_script) of None \<Rightarrow> None
      | Some lpDetails \<Rightarrow>
        (case (if upgrade then upgrade_start script else Inr 0) of
           Inl err \<Rightarrow> Some (err, a, p)
         | Inr start_block \<Rightarrow>
             let row = with_script lpDetails script row
             in if \<not> row_fits np row then None
                else case insert_keys np a row update_mempool of
                  (err, a) \<Rightarrow>
                    if err \<noteq> MC_ERR_NOERROR then Some (err, a, p)
                    else if upgrade then map_option (\<lambda>(err, p). (err, a, p))
                      (SetApproval np p (word_rcat (drop MC_AST_SHORT_TXID_OFFSET txid)) 1 None start_block now
                         MC_PFL_ENTITY_GENESIS update_mempool offset)
                    else Some (MC_ERR_NOERROR, a, p)))"

section \<open>Assets\<close>

definition asset_details :: "net_params \<Rightarrow> u8 list \<Rightarrow> int \<Rightarrow> u8 list \<Rightarrow> u8 list \<Rightarrow> mc_Script" where
  "asset_details np name multiple script special_script =
    (let s = details_start special_script;
         has_multiple = (OpDropDetailsScripts np \<and> fst (special_param script MC_ENT_SPRM_ASSET_MULTIPLE) \<noteq> length script);
         s = (if has_multiple then s
              else script_SetSpecialParamValue (ucast MC_ENT_SPRM_ASSET_MULTIPLE) (put_i32 multiple) s);
         (off, n) = special_param script MC_ENT_SPRM_NAME;
         has_name = (off \<noteq> length script \<and> n \<noteq> 0 \<and> script ! (off + n - 1) = 0)
     in if has_name \<or> name = [] then s
        else script_SetSpecialParamValue (ucast MC_ENT_SPRM_NAME) (name @ [0]) s)"

definition InsertAsset :: "net_params \<Rightarrow> mc_AssetDB \<Rightarrow> u8 list \<Rightarrow> int \<Rightarrow> int \<Rightarrow> u8 list \<Rightarrow> int \<Rightarrow> u8 list \<Rightarrow> u8 list \<Rightarrow>
    bool \<Rightarrow> (int \<times> mc_AssetDB) option" where
  "InsertAsset np a txid offset quantity name multiple script special_script update_mempool =
    (let row = new_ent_row a txid MC_ENT_KEYTYPE_TXID offset quantity MC_ENT_TYPE_ASSET
           (- (int (buf_GetCount (a_MemPool a)) + 1)) 0;
         row = with_script (asset_details np name multiple script special_script) script row
     in if row_fits np row then Some (insert_keys np a row update_mempool) else None)"

section \<open>Total quantities\<close>

definition pool_total :: "ent_pool \<Rightarrow> int \<Rightarrow> int" where
  "pool_total pool first_pos = foldl (\<lambda>tot i. let row = buf_GetRow pool i in
     if is_txid row \<and> e_FirstPos row = first_pos then to_i64 (tot + e_Quantity row) else tot) 0 (rev [0..<buf_GetCount pool])"

text \<open>The walk from the last row of a chain to its first; -1 if it leaves the chain.\<close>

fun total_walk :: "nat \<Rightarrow> ent_ledger \<Rightarrow> int \<Rightarrow> int \<Rightarrow> ent_row \<Rightarrow> int \<Rightarrow> int option" where
  "total_walk 0 el first_pos pos row tot = None"
| "total_walk (Suc fuel) el first_pos pos row tot =
    (let row = snd (ent_GetRow el pos row); tot = to_i64 (tot + e_Quantity row)
     in if pos = first_pos then Some tot
        else if e_LastPos row \<le> 0 then Some (-1)
        else total_walk fuel el first_pos (e_LastPos row) row tot)"

definition GetTotalQuantity :: "mc_AssetDB \<Rightarrow> ent_row \<Rightarrow> int option" where
  "GetTotalQuantity a row =
    (let tot = pool_total (a_MemPool a) (e_FirstPos row)
     in if e_FirstPos row < 0 then Some tot
        else if \<not> el_CanOpen (a_Ledger a) then None
        else total_walk (length (el_File (a_Ledger a)) + 2) (a_Ledger a) (e_FirstPos row) (e_ChainPos row) zero_ent_row tot)"

section \<open>Follow-ons\<close>

text \<open>Where the newest follow-on of the pool for this chain will stand in the ledger.\<close>

fun last_pos_loop :: "int \<Rightarrow> ent_row list \<Rightarrow> int \<Rightarrow> int \<Rightarrow> int" where
  "last_pos_loop first_pos [] tot_pos last_pos = last_pos"
| "last_pos_loop first_pos (row # rows) tot_pos last_pos =
    (if is_txid row
     then last_pos_loop first_pos rows
       (tot_pos + ent_TotalSize + mc_AllocSize (to_i32 (int (e_ScriptSize row))) ent_TotalSize 1)
       (if e_KeyType row = MC_ENT_KEYTYPE_FOLLOW_ON OR MC_ENT_KEYTYPE_TXID \<and> e_FirstPos row = first_pos then tot_pos else last_pos)
     else last_pos_loop first_pos rows tot_pos last_pos)"

text \<open>Whether follow-ons are allowed for the entity in \<open>row\<close>.\<close>

definition follow_ons_allowed :: "ent_row \<Rightarrow> int" where
  "follow_ons_allowed row =
    (let script = row_script row; (off, n) = special_param script MC_ENT_SPRM_FOLLOW_ONS
     in if off = length script then MC_ERR_NOT_ALLOWED
        else if n = 0 \<or> n > 4 then MC_ERR_INVALID_PARAMETER_VALUE
        else if mc_GetLE (take n (drop off script)) = 0 then MC_ERR_NOT_ALLOWED
        else MC_ERR_NOERROR)"

definition InsertAssetFollowOn :: "net_params \<Rightarrow> mc_AssetDB \<Rightarrow> u8 list \<Rightarrow> int \<Rightarrow> int \<Rightarrow> u8 list \<Rightarrow> u8 list \<Rightarrow> u8 list \<Rightarrow>
    bool \<Rightarrow> (int \<times> mc_AssetDB) option" where
  "InsertAssetFollowOn np a txid offset quantity script special_script original_txid update_mempool =
    (case ent_GetEntity a (zero_ent_row\<lparr>e_Key := original_txid, e_KeyType := MC_ENT_KEYTYPE_TXID\<rparr>) of
       (False, _) \<Rightarrow> Some (MC_ERR_NOT_FOUND, a)
     | (True, row) \<Rightarrow>
       if \<not> ShortTxIDInTx np \<and> e_PrevPos row < 0 then Some (MC_ERR_NOT_FOUND, a)
       else if follow_ons_allowed row \<noteq> MC_ERR_NOERROR then Some (follow_ons_allowed row, a)
       else case GetTotalQuantity a row of None \<Rightarrow> None
       | Some tot \<Rightarrow>
         if to_i64 (tot + quantity) < 0 then Some (MC_ERR_INVALID_PARAMETER_VALUE, a)
         else
           let last_pos = last_pos_loop (e_FirstPos row) (map (buf_GetRow (a_MemPool a)) [0..<buf_GetCount (a_MemPool a)])
                 (a_Pos a) (e_ChainPos row);
               new = with_script (details_start special_script) script
                 (new_ent_row a txid (MC_ENT_KEYTYPE_FOLLOW_ON OR MC_ENT_KEYTYPE_TXID) offset quantity (e_EntityType row)
                    (e_FirstPos row) last_pos)
           in if e_ScriptSize new > MC_ENT_SCRIPT_ALLOC_SIZE then None
              else case ent_GetEntity a new of
                (True, _) \<Rightarrow> Some (MC_ERR_FOUND, a)
              | (False, new) \<Rightarrow> Some (MC_ERR_NOERROR,
                  if update_mempool then a\<lparr>a_MemPool := buf_Add row_ent_key (a_MemPool a) new\<rparr> else a))"

end
