(* ===== verification/Entity_Commit.thy ===== *)
theory Entity_Commit
  imports Entity_Insert
begin

text \<open>
  \<open>Commit\<close>, \<open>RollBack\<close> and \<open>ClearMemPool\<close> of the entity database, \<^verbatim>\<open>src/src/entities/asset.cpp\<close>. A batch of
  writes keeps the error of its last write, as the code does. The walk back along the ledger takes fuel, which a walk that
  ends does not use up; \<open>None\<close> is a walk that does not end.
\<close>

section \<open>Clearing the memory pool\<close>

text \<open>The end of the ledger as its first row gives it.\<close>

definition ent_ClearMemPool :: "mc_AssetDB \<Rightarrow> int \<times> mc_AssetDB" where
  "ent_ClearMemPool a =
    (if buf_GetCount (a_MemPool a) = 0 then (MC_ERR_NOERROR, a)
     else
       let a = a\<lparr>a_MemPool := buf_Clear (a_MemPool a)\<rparr> in
       if \<not> el_CanOpen (a_Ledger a) then (MC_ERR_DBOPEN_ERROR, a)
       else case ent_GetRow (a_Ledger a) 0 zero_ent_row of
         (err, row) \<Rightarrow>
           if err \<noteq> MC_ERR_NOERROR then (MC_ERR_CORRUPTED, a)
           else
             let a = a\<lparr>a_PrevPos := e_PrevPos row\<rparr> in
             (case ent_GetRow (a_Ledger a) (a_PrevPos a) row of
                (err, row) \<Rightarrow>
                  if err \<noteq> MC_ERR_NOERROR then (MC_ERR_CORRUPTED, a)
                  else (MC_ERR_NOERROR, a\<lparr>a_Pos := row_end (a_PrevPos a) row\<rparr>)))"

section \<open>Batches\<close>

fun write_all :: "ent_db \<Rightarrow> (u8 list \<times> ent_val) list \<Rightarrow> int \<Rightarrow> int \<times> ent_db" where
  "write_all db [] err = (err, db)"
| "write_all db ((k, v) # kvs) err = (case db_Write db k v True of (err, db) \<Rightarrow> write_all db kvs err)"

fun delete_all :: "ent_db \<Rightarrow> u8 list list \<Rightarrow> int \<Rightarrow> int \<times> ent_db" where
  "delete_all db [] err = (err, db)"
| "delete_all db (k # ks) err = (case db_Delete db k True of (err, db) \<Rightarrow> delete_all db ks err)"

text \<open>The keys of an entity in the order of the batches: identifier, short identifier, reference, name.\<close>

definition short_key :: "ent_row \<Rightarrow> u8 list" where
  "short_key row = ent_key (padded_key (take 16 (drop MC_AST_SHORT_TXID_OFFSET (e_Key row)))) MC_ENT_KEYTYPE_SHORT_TXID"

definition other_keys :: "ent_details \<Rightarrow> u8 list list" where
  "other_keys d =
    (if d_Flags d AND MC_ENT_FLAG_OFFSET_IS_SET \<noteq> 0 then [ent_key (padded_key (d_Ref d)) MC_ENT_KEYTYPE_REF] else []) @
    (if d_Flags d AND MC_ENT_FLAG_NAME_IS_SET \<noteq> 0 then [ent_key (take 32 (d_Name d)) MC_ENT_KEYTYPE_NAME] else [])"

text \<open>The header of the database: height and last position.\<close>

definition write_ent_header :: "ent_db \<Rightarrow> int \<Rightarrow> int \<Rightarrow> int \<times> ent_db" where
  "write_ent_header db block pos =
    (let v = (case fst (db_Read db zero_ent_key) of None \<Rightarrow> zero_ent_val | Some v \<Rightarrow> v)
     in db_Write db zero_ent_key (v\<lparr>ev_Block := block, ev_LedgerPos := pos\<rparr>) True)"

definition write_zero_row :: "ent_ledger \<Rightarrow> int \<Rightarrow> int \<Rightarrow> ent_row \<Rightarrow> ent_ledger" where
  "write_zero_row el block pos row =
    snd (ent_SetZeroRow el ((snd (ent_GetRow el 0 row))\<lparr>e_Block := block, e_PrevPos := pos\<rparr>))"

section \<open>RollBack\<close>

text \<open>The chain of a rolled-back follow-on ends at the row before it: its first row's entries are written again.\<close>

definition restore_chain :: "net_params \<Rightarrow> ent_ledger \<Rightarrow> ent_row \<Rightarrow> ent_db \<Rightarrow> int \<times> ent_db" where
  "restore_chain np el row db =
    (let genesis = snd (ent_GetRow el (e_FirstPos row) row); d = details_Set np genesis;
         k = ent_key (e_Key genesis) MC_ENT_KEYTYPE_TXID
     in case fst (db_Read db k) of
       None \<Rightarrow> (MC_ERR_INTERNAL_ERROR, db)
     | Some v \<Rightarrow> write_all db (map (\<lambda>k. (k, v\<lparr>ev_ChainPos := e_LastPos row\<rparr>)) (k # short_key genesis # other_keys d)) MC_ERR_NOERROR)"

text \<open>
  One row. The test whether the row is a follow-on before its reference and name are deleted reads the
  type of the key just deleted, and always succeeds.
\<close>

definition rollback_row :: "net_params \<Rightarrow> ent_ledger \<Rightarrow> ent_row \<Rightarrow> ent_db \<Rightarrow> int \<times> ent_db" where
  "rollback_row np el row db =
    (case delete_all db (row_ent_key row # short_key row # other_keys (details_Set np row)) MC_ERR_NOERROR of
       (err, db) \<Rightarrow>
         if err = MC_ERR_NOERROR \<and> e_KeyType row = MC_ENT_KEYTYPE_FOLLOW_ON OR MC_ENT_KEYTYPE_TXID
         then restore_chain np el row db
         else (err, db))"

fun ent_rollback_loop :: "nat \<Rightarrow> net_params \<Rightarrow> ent_ledger \<Rightarrow> int \<Rightarrow> int \<Rightarrow> ent_db \<Rightarrow> (int \<times> int \<times> ent_db) option" where
  "ent_rollback_loop 0 np el block this_pos db = None"
| "ent_rollback_loop (Suc fuel) np el block this_pos db =
    (if this_pos > 0
     then let row = snd (ent_GetRow el this_pos zero_ent_row)
       in if e_Block row > block
          then (case rollback_row np el row db of
            (err, db) \<Rightarrow> if err \<noteq> MC_ERR_NOERROR then Some (err, this_pos, db)
              else ent_rollback_loop fuel np el block (e_PrevPos row) db)
          else Some (MC_ERR_NOERROR, this_pos, db)
     else Some (MC_ERR_NOERROR, this_pos, db))"

definition ent_RollBack :: "net_params \<Rightarrow> mc_AssetDB \<Rightarrow> int \<Rightarrow> (int \<times> mc_AssetDB) option" where
  "ent_RollBack np a block =
    (let a = snd (ent_ClearMemPool a); el = a_Ledger a in
     if \<not> el_CanOpen el then Some (MC_ERR_DBOPEN_ERROR, a)
     else case ent_rollback_loop (length (el_File el) + 2) np el block (a_PrevPos a) (a_Database a) of
       None \<Rightarrow> None
     | Some (err, this_pos, db) \<Rightarrow>
         let (err, db) = (if err = MC_ERR_NOERROR then write_ent_header db block this_pos else (err, db));
             (err, db) = (if err = MC_ERR_NOERROR then db_Commit db True else (err, db));
             a = a\<lparr>a_PrevPos := this_pos, a_Database := db\<rparr>
         in if err = MC_ERR_NOERROR
            then let el = write_zero_row el block this_pos zero_ent_row;
                     row = snd (ent_GetRow el this_pos zero_ent_row)
              in Some (err, a\<lparr>a_Ledger := el, a_Block := block, a_Pos := row_end this_pos row\<rparr>)
            else Some (err, a))"

definition ent_RollBack_one :: "net_params \<Rightarrow> mc_AssetDB \<Rightarrow> (int \<times> mc_AssetDB) option" where
  "ent_RollBack_one np a = ent_RollBack np a (a_Block a - 1)"

section \<open>Commit\<close>

text \<open>The variables of the loop of \<open>Commit\<close>; the members of the object are changed as it goes.\<close>

record ent_commit =
  c_err :: int
  c_size :: int
  c_Pos :: int
  c_PrevPos :: int
  c_Ledger :: ent_ledger
  c_DB :: ent_db
  c_Pool :: ent_pool

text \<open>
  A row with a transaction identifier gets its place in the ledger. A follow-on of an entity in the pool
  is linked to it through the pool, where the newest row of the chain is kept. The result has the row and the row of the
  genesis, with a key type of 0 if there is none.
\<close>

definition commit_txid_row :: "nat \<Rightarrow> ent_row \<Rightarrow> ent_commit \<Rightarrow> ent_row \<times> ent_row \<times> ent_commit" where
  "commit_txid_row i row c =
    (let pos = c_Pos c + c_size c;
         row = row\<lparr>e_PrevPos := c_PrevPos c\<rparr>;
         (err, row, genesis, pool) =
           (if e_KeyType row = MC_ENT_KEYTYPE_FOLLOW_ON OR MC_ENT_KEYTYPE_TXID
            then if e_FirstPos row < 0
              then let g = nat (- e_FirstPos row - 1); genesis = buf_GetRow (c_Pool c) g;
                       row = row\<lparr>e_LastPos := e_ChainPos genesis\<rparr>; genesis = genesis\<lparr>e_ChainPos := pos\<rparr>
                in (MC_ERR_NOERROR, row\<lparr>e_FirstPos := e_FirstPos genesis\<rparr>, genesis, buf_write_row (c_Pool c) g genesis)
              else (case ent_GetRow (c_Ledger c) (e_FirstPos row) zero_ent_row of (err, genesis) \<Rightarrow> (err, row, genesis, c_Pool c))
            else (MC_ERR_NOERROR, if e_FirstPos row < 0 then row\<lparr>e_FirstPos := pos\<rparr> else row, zero_ent_row, c_Pool c));
         row = (if e_ChainPos row < 0 then row\<lparr>e_ChainPos := pos\<rparr> else row);
         c = c\<lparr>c_Pos := pos, c_PrevPos := pos, c_Pool := buf_write_row pool i row\<rparr>
     in if e_Offset row < 0 then (row, genesis, c\<lparr>c_err := MC_ERR_INTERNAL_ERROR\<rparr>)
        else (case ent_SetRow (c_Ledger c) pos row of
          (n, el) \<Rightarrow> (row, genesis, c\<lparr>c_size := n, c_Ledger := el, c_err := (if n < 0 then MC_ERR_INTERNAL_ERROR else err)\<rparr>)))"

definition commit_entries :: "net_params \<Rightarrow> ent_row \<Rightarrow> ent_row \<Rightarrow> int \<Rightarrow> (u8 list \<times> ent_val) list" where
  "commit_entries np row genesis pos =
    (row_ent_key row, \<lparr>ev_Block = e_Block row, ev_LedgerPos = pos, ev_ChainPos = pos, ev_EntityType = e_EntityType row\<rparr>) #
    (if e_KeyType genesis \<noteq> 0
     then map (\<lambda>k. (k, \<lparr>ev_Block = e_Block genesis, ev_LedgerPos = e_FirstPos genesis, ev_ChainPos = pos,
         ev_EntityType = e_EntityType genesis\<rparr>))
       (row_ent_key genesis # short_key genesis # other_keys (details_Set np genesis))
     else [])"

definition commit_pool_row :: "net_params \<Rightarrow> nat \<Rightarrow> ent_commit \<Rightarrow> ent_commit" where
  "commit_pool_row np i c =
    (if c_err c \<noteq> MC_ERR_NOERROR then c
     else
       let row = buf_GetRow (c_Pool c) i;
           (row, genesis, c) = (if is_txid row then commit_txid_row i row c else (row, zero_ent_row, c))
       in if c_err c \<noteq> MC_ERR_NOERROR then c
          else case write_all (c_DB c) (commit_entries np row genesis (c_Pos c)) MC_ERR_NOERROR of
            (err, db) \<Rightarrow> c\<lparr>c_err := err, c_DB := db\<rparr>)"

definition commit_rows :: "net_params \<Rightarrow> mc_AssetDB \<Rightarrow> ent_commit" where
  "commit_rows np a =
    (let c = foldl (\<lambda>c i. commit_pool_row np i c)
         \<lparr>c_err = MC_ERR_NOERROR, c_size = 0, c_Pos = a_Pos a, c_PrevPos = a_PrevPos a, c_Ledger = a_Ledger a,
          c_DB = a_Database a, c_Pool = a_MemPool a\<rparr> [0..<buf_GetCount (a_MemPool a)]
     in c\<lparr>c_Pos := c_Pos c + c_size c\<rparr>)"

definition ent_Commit :: "net_params \<Rightarrow> mc_AssetDB \<Rightarrow> (int \<times> mc_AssetDB) option" where
  "ent_Commit np a =
    (if \<not> el_CanOpen (a_Ledger a) then Some (MC_ERR_DBOPEN_ERROR, a)
     else
       let c = commit_rows np a;
           el = (if c_err c = MC_ERR_NOERROR then write_zero_row (c_Ledger c) (a_Block a + 1) (c_PrevPos c) zero_ent_row else c_Ledger c);
           (err, db) = (if c_err c = MC_ERR_NOERROR then write_ent_header (c_DB c) (a_Block a + 1) (c_PrevPos c) else (c_err c, c_DB c));
           (err, db) = (if err = MC_ERR_NOERROR then db_Commit db True else (err, db));
           a = a\<lparr>a_Database := db, a_Ledger := el, a_MemPool := c_Pool c, a_PrevPos := c_PrevPos c, a_Pos := c_Pos c\<rparr>
       in if err \<noteq> MC_ERR_NOERROR then map_option (\<lambda>(_, a). (err, a)) (ent_RollBack np a (a_Block a))
          else Some (err, a\<lparr>a_MemPool := buf_Clear (a_MemPool a), a_Block := a_Block a + 1\<rparr>))"

end
