(* ===== verification/Entity_Query.thy ===== *)
theory Entity_Query
  imports Entity_Commit
begin

text \<open>
  The queries of the entity database, \<^verbatim>\<open>src/src/entities/asset.cpp\<close>: finding an entity by each of its keys, the list of entities,
  the follow-ons of an asset; and the start-up. A query gives the details when it finds the entity.
\<close>

section \<open>Finding an entity\<close>

definition find_entity :: "net_params \<Rightarrow> mc_AssetDB \<Rightarrow> u8 list \<Rightarrow> u32 \<Rightarrow> ent_row \<Rightarrow> ent_details option \<times> ent_row" where
  "find_entity np a k t row =
    (case ent_GetEntity a (row\<lparr>e_Key := k, e_KeyType := t\<rparr>) of
       (found, row) \<Rightarrow> (if found then Some (details_Set np row) else None, row))"

text \<open>
  The second look-up finds follow-ons. It is made with the row as the first one left it; the first one fails
  with a changed row only if the ledger cannot be read.
\<close>

definition FindEntityByTxID :: "net_params \<Rightarrow> mc_AssetDB \<Rightarrow> u8 list \<Rightarrow> ent_details option" where
  "FindEntityByTxID np a txid =
    (case find_entity np a txid MC_ENT_KEYTYPE_TXID zero_ent_row of
       (Some d, _) \<Rightarrow> Some d
     | (None, row) \<Rightarrow> fst (find_entity np a (e_Key row) (MC_ENT_KEYTYPE_TXID OR MC_ENT_KEYTYPE_FOLLOW_ON) row))"

definition FindEntityByShortTxID :: "net_params \<Rightarrow> mc_AssetDB \<Rightarrow> u8 list \<Rightarrow> ent_details option" where
  "FindEntityByShortTxID np a short_txid =
    fst (find_entity np a (padded_key (take 16 short_txid)) MC_ENT_KEYTYPE_SHORT_TXID zero_ent_row)"

definition FindEntityByRef :: "net_params \<Rightarrow> mc_AssetDB \<Rightarrow> u8 list \<Rightarrow> ent_details option" where
  "FindEntityByRef np a asset_ref =
    fst (find_entity np a (padded_key (take MC_ENT_REF_SIZE asset_ref)) MC_ENT_KEYTYPE_REF zero_ent_row)"

definition FindEntityByFullRef :: "net_params \<Rightarrow> mc_AssetDB \<Rightarrow> u8 list \<Rightarrow> ent_details option" where
  "FindEntityByFullRef np a full_ref =
    (if mc_GetABRefType full_ref = 0 then FindEntityByRef np a full_ref
     else if mc_GetABRefType full_ref = 1 then FindEntityByShortTxID np a (drop MC_AST_SHORT_TXID_OFFSET full_ref)
     else if mc_GetABRefType full_ref = 2 then FindEntityByTxID np a (take 32 full_ref)
     else None)"

text \<open>A name is a string without its end. What is longer than the key runs into the row's other fields, which do not matter.\<close>

definition FindEntityByName :: "net_params \<Rightarrow> mc_AssetDB \<Rightarrow> u8 list \<Rightarrow> ent_details option" where
  "FindEntityByName np a name =
    fst (find_entity np a (mc_StringLowerCase (padded_key (take 32 name)) 32) MC_ENT_KEYTYPE_NAME zero_ent_row)"

text \<open>The asset that a follow-on belongs to.\<close>

definition FindEntityByFollowOn :: "net_params \<Rightarrow> mc_AssetDB \<Rightarrow> u8 list \<Rightarrow> ent_details option" where
  "FindEntityByFollowOn np a txid =
    (case ent_GetEntity a (zero_ent_row\<lparr>e_Key := txid, e_KeyType := MC_ENT_KEYTYPE_FOLLOW_ON OR MC_ENT_KEYTYPE_TXID\<rparr>) of
       (False, _) \<Rightarrow> None
     | (True, row) \<Rightarrow> Some (details_Set np
         (if e_FirstPos row < 0 then buf_GetRow (a_MemPool a) (nat (- e_FirstPos row - 1))
          else snd (ent_GetRow (a_Ledger a) (e_FirstPos row) row))))"

section \<open>Lists\<close>

text \<open>
  The identifiers added to the list: of one entity, or of all of a type (0 for all types), from the database and then from
  the memory pool. \<open>None\<close> is the result NULL.
\<close>

definition key_type_of :: "u8 list \<Rightarrow> u32" where
  "key_type_of k = le32 k 32 4"

definition GetEntityList :: "mc_AssetDB \<Rightarrow> u8 list list \<Rightarrow> u8 list option \<Rightarrow> u32 \<Rightarrow> u8 list list option" where
  "GetEntityList a old_result txid entity_type =
    (case txid of Some t \<Rightarrow> Some (old_result @ [t])
     | None \<Rightarrow>
       (case db_Seek (a_Database a) zero_ent_key of
          (ptr, err) \<Rightarrow>
            if err \<noteq> MC_ERR_NOERROR then None
            else
              let rows = (case ptr of None \<Rightarrow> [] | Some v \<Rightarrow> (zero_ent_key, v) # db_MoveNext_rows (a_Database a) zero_ent_key);
                  wanted = (\<lambda>t. entity_type = 0 \<or> t = entity_type);
                  in_db = map (\<lambda>(k, v). take 32 k)
                    (filter (\<lambda>(k, v). key_type_of k = MC_ENT_KEYTYPE_TXID \<and> wanted (ev_EntityType v)) rows);
                  in_pool = map e_Key
                    (filter (\<lambda>r. e_KeyType r = MC_ENT_KEYTYPE_TXID \<and> wanted (e_EntityType r))
                      (map (buf_GetRow (a_MemPool a)) [0..<buf_GetCount (a_MemPool a)]))
              in Some (old_result @ in_db @ in_pool)))"

section \<open>Follow-ons\<close>

text \<open>The walk along a chain, newest first; the list is emptied if the walk leaves the chain.\<close>

fun chain_walk :: "nat \<Rightarrow> ent_ledger \<Rightarrow> int \<Rightarrow> int \<Rightarrow> ent_row \<Rightarrow> u8 list list \<Rightarrow> u8 list list option" where
  "chain_walk 0 el first_pos pos row found = None"
| "chain_walk (Suc fuel) el first_pos pos row found =
    (let row = snd (ent_GetRow el pos row); found = found @ [e_Key row]
     in if pos = first_pos then Some found
        else if e_LastPos row \<le> 0 then Some []
        else chain_walk fuel el first_pos (e_LastPos row) row found)"

text \<open>The outer \<open>None\<close> is a walk that does not end or an unreadable ledger, the inner one the result NULL.\<close>

definition GetFollowOns :: "mc_AssetDB \<Rightarrow> u8 list \<Rightarrow> u8 list list option option" where
  "GetFollowOns a txid =
    map_option (\<lambda>found. if found = [] then None else Some found)
    (case ent_GetEntity a (zero_ent_row\<lparr>e_Key := txid, e_KeyType := MC_ENT_KEYTYPE_TXID\<rparr>) of
       (False, _) \<Rightarrow> Some []
     | (True, row) \<Rightarrow>
       let pool = a_MemPool a;
           found = map (\<lambda>i. e_Key (buf_GetRow pool i)) (filter (\<lambda>i. is_txid (buf_GetRow pool i) \<and>
               e_FirstPos (buf_GetRow pool i) = e_FirstPos row) (rev [0..<buf_GetCount pool]))
       in if e_ChainPos row > 0
          then if \<not> el_CanOpen (a_Ledger a) then None
            else chain_walk (length (el_File (a_Ledger a)) + 2) (a_Ledger a) (e_FirstPos row) (e_ChainPos row) row found
          else Some found)"

definition HasFollowOns :: "mc_AssetDB \<Rightarrow> u8 list \<Rightarrow> bool" where
  "HasFollowOns a txid =
    (case ent_GetEntity a (zero_ent_row\<lparr>e_Key := txid, e_KeyType := MC_ENT_KEYTYPE_TXID\<rparr>) of
       (False, _) \<Rightarrow> False
     | (True, row) \<Rightarrow>
       if e_FirstPos row \<ge> 0 \<and> e_FirstPos row \<noteq> e_ChainPos row then True
       else list_ex (\<lambda>i. let r = buf_GetRow (a_MemPool a) i in
           e_FirstPos r \<noteq> - int i - 1 \<and> e_FirstPos r = e_FirstPos row \<and> e_KeyType r AND MC_ENT_KEYTYPE_FOLLOW_ON \<noteq> 0)
         [0..<buf_GetCount (a_MemPool a)])"

section \<open>Start-up\<close>

definition zero_asset_db :: "ent_db \<Rightarrow> ent_ledger \<Rightarrow> (nat \<Rightarrow> ent_row) \<Rightarrow> mc_AssetDB" where
  "zero_asset_db db el mem = \<lparr>a_Database = db, a_Ledger = el, a_MemPool = buf_Initialize mem True, a_Block = -1, a_PrevPos = -1, a_Pos = 0\<rparr>"

text \<open>Height and last position of the database, which gets a header if it has none.\<close>

definition ent_init_database :: "ent_db \<Rightarrow> int \<times> int \<times> int \<times> ent_db" where
  "ent_init_database db =
    (case db_Read db zero_ent_key of
       (ptr, err) \<Rightarrow>
         if err \<noteq> MC_ERR_NOERROR then (err, -1, 0, db)
         else case ptr of
           Some v \<Rightarrow> (MC_ERR_NOERROR, ev_Block v, ev_LedgerPos v, db)
         | None \<Rightarrow>
             (case db_Write db zero_ent_key (zero_ent_val\<lparr>ev_Block := -1, ev_LedgerPos := 0\<rparr>) False of
                (err, db) \<Rightarrow>
                  if err \<noteq> MC_ERR_NOERROR then (err, -1, 0, db)
                  else case db_Commit db False of (err, db) \<Rightarrow> (err, -1, 0, db)))"

text \<open>
  From the last row of the ledger back to the newest one at or below the height. The position is unsigned, so a negative
  one is above 0; the row of a failed read stays.
\<close>

fun ent_repair_loop :: "nat \<Rightarrow> ent_ledger \<Rightarrow> int \<Rightarrow> int \<Rightarrow> ent_row \<Rightarrow> int option" where
  "ent_repair_loop 0 el block this_pos row = None"
| "ent_repair_loop (Suc fuel) el block this_pos row =
    (if this_pos \<noteq> 0
     then let row = snd (ent_GetRow el this_pos row)
       in if e_Block row \<le> block then Some this_pos else ent_repair_loop fuel el block (e_PrevPos row) row
     else Some this_pos)"

text \<open>
  The argument is the error of opening the database. \<open>None\<close> is a walk back that does not end.
\<close>

definition ent_Initialize :: "ent_db \<Rightarrow> ent_ledger \<Rightarrow> (nat \<Rightarrow> ent_row) \<Rightarrow> int \<Rightarrow> (int \<times> mc_AssetDB) option" where
  "ent_Initialize db el mem open_err =
    (let a = zero_asset_db db el mem in
     if open_err \<noteq> MC_ERR_NOERROR then Some (open_err, a)
     else case ent_init_database db of
       (err, adbBlock, adbLastPos, db) \<Rightarrow>
         let a = a\<lparr>a_Database := db\<rparr> in
         if err \<noteq> MC_ERR_NOERROR then Some (err, a)
         else
           let a = a\<lparr>a_Block := adbBlock, a_PrevPos := adbLastPos, a_Pos := adbLastPos + ent_TotalSize\<rparr>
           in if \<not> el_CanOpen el then Some (MC_ERR_DBOPEN_ERROR, a)
           else case ent_GetRow el 0 zero_ent_row of
             (err0, row0) \<Rightarrow>
               let (bad, aldBlock, aldLastPos, row, a) =
                 (if err0 = MC_ERR_NOERROR
                  then (case ent_GetRow el adbLastPos row0 of
                    (err, row) \<Rightarrow> (err \<noteq> MC_ERR_NOERROR, e_Block row0, e_PrevPos row0, row,
                      if err \<noteq> MC_ERR_NOERROR then a else a\<lparr>a_Pos := row_end adbLastPos row\<rparr>))
                  else let row = zero_ent_row\<lparr>e_Block := -1, e_PrevPos := 0\<rparr>
                    in (False, -1, 0, row, a\<lparr>a_Ledger := snd (ent_SetZeroRow el row)\<rparr>))
               in if bad then Some (MC_ERR_CORRUPTED, a)
               else if a_Pos a \<noteq> ent_GetSize (a_Ledger a) then Some (MC_ERR_CORRUPTED, a)
               else if adbBlock < aldBlock
               then case ent_repair_loop (length (el_File el) + 2) (a_Ledger a) adbBlock aldLastPos row of
                 None \<Rightarrow> None
               | Some this_pos \<Rightarrow>
                   Some (if adbLastPos \<noteq> this_pos then MC_ERR_CORRUPTED else MC_ERR_NOERROR,
                     a\<lparr>a_Ledger := write_zero_row (a_Ledger a) adbBlock (a_PrevPos a) row\<rparr>)
               else Some (if adbBlock \<noteq> aldBlock then MC_ERR_CORRUPTED
                   else if adbLastPos \<noteq> aldLastPos then MC_ERR_CORRUPTED else MC_ERR_NOERROR, a))"

end
