(* ===== verification/Entity_Ledger.thy ===== *)
theory Entity_Ledger
  imports Entity_Query
begin

text \<open>
  The ledger file of the entities: a row that fits the struct is read back as it was written, and the other rows stay.
\<close>

section \<open>Integers of a row\<close>


definition i32_ok :: "int \<Rightarrow> bool" where "i32_ok x \<longleftrightarrow> - (2 ^ 31) \<le> x \<and> x < 2 ^ 31"
definition i64_ok :: "int \<Rightarrow> bool" where "i64_ok x \<longleftrightarrow> - (2 ^ 63) \<le> x \<and> x < 2 ^ 63"

text \<open>A row whose members have their width and whose script fills its last chunk.\<close>

definition ledger_row_ok :: "ent_row \<Rightarrow> bool" where
  "ledger_row_ok r \<longleftrightarrow> length (e_Key r) = 32 \<and> i32_ok (e_Block r) \<and> i32_ok (e_Offset r) \<and> i64_ok (e_Quantity r) \<and>
     i64_ok (e_PrevPos r) \<and> i64_ok (e_FirstPos r) \<and> i64_ok (e_LastPos r) \<and> i64_ok (e_ChainPos r) \<and>
     e_ScriptSize r \<le> 8192 \<and> length (e_Script r) = nat (mc_AllocSize (int (e_ScriptSize r)) 96 1)"


lemma ucast_i32: "ucast (ucast (w :: u32) :: u64) = w"
  by (rule bit_word_eqI) (simp add: bit_simps)

lemma sint_i32: "i32_ok x \<Longrightarrow> sint (word_of_int x :: u32) = x"
  by (simp add: i32_ok_def signed_of_int signed_take_bit_int_eq_self)

lemma sint_i64: "i64_ok x \<Longrightarrow> sint (word_of_int x :: u64) = x"
  by (simp add: i64_ok_def signed_of_int signed_take_bit_int_eq_self)

lemma le32_put:
  "length pre = off \<Longrightarrow> le32 (pre @ mc_PutLE 4 (w :: u32) @ post) off 4 = w"
  by (simp add: le32_def mc_GetLE_PutLE_full ucast_i32)

lemma length_encode_head [simp]: "length (e_Key r) = 32 \<Longrightarrow> length (encode_head r) = 96"
  by (simp add: encode_head_def put_i32_def put_i64_def)

lemma get_put:
  "length pre = off \<Longrightarrow> i32_ok x \<Longrightarrow> get_i32 (pre @ put_i32 x @ post) off = x"
  "length pre = off \<Longrightarrow> i64_ok x \<Longrightarrow> get_i64 (pre @ put_i64 x @ post) off = x"
  by (simp_all add: get_i32_def put_i32_def le32_put sint_i32 get_i64_def put_i64_def mc_GetLE_PutLE_full sint_i64)

section \<open>The header\<close>

lemma decode_encode_head:
  assumes "ledger_row_ok r"
  shows "decode_head (encode_head r) = r\<lparr>e_Script := []\<rparr>"
proof -
  have key: "length (e_Key r) = 32" and sz: "e_ScriptSize r \<le> 8192" using assms by (simp_all add: ledger_row_ok_def)
  have f: "le32 (encode_head r) 32 4 = e_KeyType r" "get_i32 (encode_head r) 36 = e_Block r" "get_i32 (encode_head r) 40 = e_Offset r"
    "get_i64 (encode_head r) 48 = e_Quantity r" "le32 (encode_head r) 56 4 = e_EntityType r"
    "get_i64 (encode_head r) 64 = e_PrevPos r" "get_i64 (encode_head r) 72 = e_FirstPos r" "get_i64 (encode_head r) 80 = e_LastPos r"
    "get_i64 (encode_head r) 88 = e_ChainPos r" "take 32 (encode_head r) = e_Key r"
    using assms key
    by (simp_all add: ledger_row_ok_def encode_head_def le32_def get_i32_def get_i64_def put_i32_def put_i64_def mc_GetLE_PutLE_full
        ucast_i32 sint_i32 sint_i64)
  have "le32 (encode_head r) 44 4 = word_of_int (int (e_ScriptSize r))"
    using key by (simp add: encode_head_def le32_def put_i32_def put_i64_def mc_GetLE_PutLE_full ucast_i32)
  hence "unat (le32 (encode_head r) 44 4) = e_ScriptSize r"
    using sz by (simp add: unsigned_of_nat take_bit_nat_eq_self)
  thus ?thesis by (simp add: decode_head_def f)
qed

section \<open>Writing and reading\<close>

text \<open>The bytes that a row takes.\<close>

definition row_size :: "ent_row \<Rightarrow> int" where
  "row_size r = ent_TotalSize + mc_AllocSize (int (e_ScriptSize r)) ent_TotalSize 1"

definition row_bytes :: "ent_row \<Rightarrow> u8 list" where
  "row_bytes r = encode_head r @ e_Script r"

lemma length_row_bytes: "ledger_row_ok r \<Longrightarrow> int (length (row_bytes r)) = row_size r"
  by (simp add: ledger_row_ok_def row_bytes_def row_size_def mc_AllocSize_def div_int_pos_iff)

lemma to_i32_small: "0 \<le> x \<Longrightarrow> x < 2 ^ 31 \<Longrightarrow> to_i32 x = x"
  by (simp add: to_i32_def signed_of_int signed_take_bit_int_eq_self)

lemma SetRow_ok:
  assumes "ledger_row_ok r" "el_CanOpen el" "0 \<le> pos"
  shows "ent_SetRow el pos r = (row_size r, el\<lparr>el_File := write_bytes (nat pos) (row_bytes r) (el_File el)\<rparr>)"
  using assms by (simp add: ent_SetRow_def ledger_row_ok_def to_i32_small row_size_def row_bytes_def Let_def)

lemma drop_write: "drop pos (write_bytes pos bs f) = bs @ drop (pos + length bs) f"
  by (simp add: write_bytes_def)

lemma GetRow_SetRow:
  assumes "ledger_row_ok r" "el_CanOpen el" "0 \<le> pos"
  shows "ent_GetRow (snd (ent_SetRow el pos r)) pos old = (MC_ERR_NOERROR, r)"
proof -
  have k: "length (e_Key r) = 32" and s: "e_ScriptSize r \<le> 8192"
    and l: "length (e_Script r) = nat (mc_AllocSize (int (e_ScriptSize r)) 96 1)"
    using assms(1) by (simp_all add: ledger_row_ok_def)
  have z: "e_Script r = []" if "e_ScriptSize r = 0" using l that by (simp add: mc_AllocSize_def)
  show ?thesis
    using assms k s l z
    by (auto simp: SetRow_ok ent_GetRow_def Let_def drop_write row_bytes_def decode_encode_head to_i32_small)
qed

lemma take_write: "n \<le> pos \<Longrightarrow> n \<le> length f \<Longrightarrow> take n (write_bytes pos bs f) = take n f"
  by (simp add: write_bytes_def)

lemma drop_write_behind: "pos + length bs \<le> q \<Longrightarrow> pos \<le> length f \<Longrightarrow> drop q (write_bytes pos bs f) = drop q f"
  by (simp add: write_bytes_def min_def)

lemma mc_AllocSize_nonneg [simp]: "0 \<le> mc_AllocSize x 96 1"
  by (simp add: mc_AllocSize_def div_int_pos_iff)


definition script_chunks :: "nat \<Rightarrow> nat" where
  "script_chunks s = (let size = to_i32 (int s) in if size > 0 \<and> size \<le> 8192 then nat (mc_AllocSize size 96 1) else 0)"

lemma decode_no_script [simp]: "e_Script (decode_head bs) = []"
  by (simp add: decode_head_def)


text \<open>What \<open>GetRow\<close> does once the header is read.\<close>

definition read_row :: "u8 list \<Rightarrow> ent_row \<Rightarrow> int \<times> ent_row" where
  "read_row rest h =
    (let size = to_i32 (int (e_ScriptSize h)); n = script_chunks (e_ScriptSize h)
     in if size > 0 \<and> size \<le> int MC_ENT_SCRIPT_ALLOC_SIZE
        then (if length (take n (drop 96 rest)) \<noteq> n then MC_ERR_FILE_READ_ERROR else MC_ERR_NOERROR, h\<lparr>e_Script := take n (drop 96 rest)\<rparr>)
        else (MC_ERR_NOERROR, h))"

lemma read_row_iff:
  assumes "96 \<le> length rest" "e_Script h = []"
  shows "read_row rest h = (MC_ERR_NOERROR, r) \<longleftrightarrow>
    96 + script_chunks (e_ScriptSize h) \<le> length rest \<and> r = h\<lparr>e_Script := take (script_chunks (e_ScriptSize h)) (drop 96 rest)\<rparr>"
proof -
  have e: "h\<lparr>e_Script := []\<rparr> = h" using assms(2) by (cases h) simp
  show ?thesis
  proof (cases "to_i32 (int (e_ScriptSize h)) > 0 \<and> to_i32 (int (e_ScriptSize h)) \<le> 8192")
    case True
    show ?thesis using assms(1) True by (auto simp: read_row_def Let_def)
  next
    case False
    hence n: "script_chunks (e_ScriptSize h) = 0" by (auto simp: script_chunks_def)
    have "read_row rest h = (MC_ERR_NOERROR, h)" using False by (auto simp: read_row_def Let_def)
    thus ?thesis using assms(1) by (auto simp: n e)
  qed
qed

lemma GetRow_iff:
  "ent_GetRow el q old = (MC_ERR_NOERROR, r) \<longleftrightarrow>
    (let rest = drop (nat q) (el_File el); h = decode_head (take 96 rest); n = script_chunks (e_ScriptSize h)
     in el_CanOpen el \<and> 0 \<le> q \<and> 96 + n \<le> length rest \<and> r = h\<lparr>e_Script := take n (drop 96 rest)\<rparr>)"
proof -
  let ?rest = "drop (nat q) (el_File el)"
  let ?h = "decode_head (take 96 ?rest)"
  show ?thesis
  proof (cases "\<not> el_CanOpen el \<or> q < 0 \<or> length ?rest < 96")
    case True thus ?thesis by (auto simp: ent_GetRow_def Let_def)
  next
    case False
    hence t: "take 96 (?rest @ replicate 96 0) = take 96 ?rest" by simp
    have "ent_GetRow el q old = read_row ?rest ?h"
      unfolding ent_GetRow_def read_row_def script_chunks_def Let_def t using False by (simp del: length_drop cong: if_cong)
    thus ?thesis using False read_row_iff[of ?rest ?h r] by (simp del: length_drop drop_drop add: Let_def)
  qed
qed

text \<open>The bytes that a row read at a position takes.\<close>

definition row_length :: "ent_row \<Rightarrow> nat" where
  "row_length r = 96 + script_chunks (e_ScriptSize r)"

lemma row_length_size: "e_ScriptSize r \<le> 8192 \<Longrightarrow> int (row_length r) = row_size r"
  by (cases "e_ScriptSize r = 0") (simp_all add: row_length_def row_size_def script_chunks_def Let_def to_i32_small mc_AllocSize_def)

lemma GetRow_length:
  "ent_GetRow el q old = (MC_ERR_NOERROR, r) \<Longrightarrow> 0 \<le> q \<and> row_length r \<le> length (drop (nat q) (el_File el))"
  by (auto simp: GetRow_iff Let_def row_length_def)

lemma GetRow_cong:
  assumes r: "ent_GetRow el q old = (MC_ERR_NOERROR, r)" and "el_CanOpen el'"
    and t: "take (row_length r) (drop (nat q) (el_File el')) = take (row_length r) (drop (nat q) (el_File el))"
  shows "ent_GetRow el' q old' = (MC_ERR_NOERROR, r)"
proof -
  let ?x = "drop (nat q) (el_File el)" and ?y = "drop (nat q) (el_File el')"
  have q: "0 \<le> q" and n: "row_length r \<le> length ?x" using GetRow_length[OF r] by auto
  have y: "row_length r \<le> length ?y" using arg_cong[OF t, of length] n by simp
  have h: "take 96 ?y = take 96 ?x"
    using arg_cong[OF t, of "take 96"] by (simp add: row_length_def)
  have s: "take (script_chunks (e_ScriptSize r)) (drop 96 ?y) = take (script_chunks (e_ScriptSize r)) (drop 96 ?x)"
    using arg_cong[OF t, of "drop 96"] by (simp add: drop_take row_length_def)
  have d: "r = decode_head (take 96 ?x)\<lparr>e_Script := take (script_chunks (e_ScriptSize r)) (drop 96 ?x)\<rparr>"
    and sz: "e_ScriptSize (decode_head (take 96 ?x)) = e_ScriptSize r"
    using r by (auto simp: GetRow_iff Let_def)
  show ?thesis
    unfolding GetRow_iff Let_def h sz s using d q y assms(2) by (simp add: row_length_def)
qed

text \<open>A row that is read in full before the row written, or behind it, stays.\<close>

lemma GetRow_SetRow_other:
  assumes r: "ent_GetRow el q old = (MC_ERR_NOERROR, r)" and w: "ledger_row_ok w" "0 \<le> pos"
    and d: "q + int (row_length r) \<le> pos \<or> pos + row_size w \<le> q"
  shows "ent_GetRow (snd (ent_SetRow el pos w)) q old' = (MC_ERR_NOERROR, r)"
proof -
  have q: "0 \<le> q" and n: "row_length r \<le> length (drop (nat q) (el_File el))" using GetRow_length[OF r] by auto
  have o: "el_CanOpen el" using r by (auto simp: GetRow_iff Let_def)
  let ?f = "el_File el" and ?b = "row_bytes w"
  have "take (row_length r) (drop (nat q) (write_bytes (nat pos) ?b ?f)) = take (row_length r) (drop (nat q) ?f)"
  proof (cases "q + int (row_length r) \<le> pos")
    case True
    hence l: "row_length r + nat q \<le> nat pos" "row_length r + nat q \<le> length ?f" using q n by (auto simp: row_length_def)
    show ?thesis using take_write[OF l, of ?b] by (simp add: take_drop del: drop_take)
  next
    case False
    hence p: "nat pos + length ?b \<le> nat q" using d w length_row_bytes[OF w(1)] by linarith
    moreover have "nat pos \<le> length ?f" using p n by (simp add: row_length_def)
    ultimately show ?thesis by (simp add: drop_write_behind)
  qed
  with GetRow_cong[OF r] o w show ?thesis by (simp add: SetRow_ok)
qed
end
