(* ===== verification/Entity_Pool.thy ===== *)
theory Entity_Pool
  imports Entity_Ledger
begin

text \<open>
  Entering entities into the memory pool: the rows of an entity stand together, every key entered leads to the row with the
  entity's identifier, and an identifier, a name or a reference that is known is not entered again.
\<close>

section \<open>Keys\<close>


lemma put32_inj: "mc_PutLE 4 (t :: u32) = mc_PutLE 4 u \<longleftrightarrow> t = u"
proof
  assume "mc_PutLE 4 t = mc_PutLE 4 u"
  hence "mc_GetLE (mc_PutLE 4 t) = mc_GetLE (mc_PutLE 4 u)" by simp
  hence "ucast t = (ucast u :: u64)" by (simp add: mc_GetLE_PutLE_full)
  hence "ucast (ucast t :: u64) = (ucast (ucast u :: u64) :: u32)" by simp
  moreover have "ucast (ucast w :: u64) = w" for w :: u32 by (rule bit_word_eqI) (simp add: bit_simps)
  ultimately show "t = u" by simp
qed simp

lemma ent_key_inj [simp]: "ent_key k t = ent_key j u \<longleftrightarrow> k = j \<and> t = u"
  by (simp add: ent_key_def put32_inj)

lemma row_ent_key_upd [simp]: "row_ent_key (r\<lparr>e_Key := k, e_KeyType := t\<rparr>) = ent_key k t"
  by (simp add: row_ent_key_def)

lemma details_row [simp]: "d_LedgerRow (details_Set np row) = row"
  by (simp add: details_Set_def Let_def split: prod.splits)

section \<open>The rows of an entity\<close>

text \<open>The row with the data of an entity stands at most three rows before those of its other keys.\<close>

definition groups_ok :: "ent_row list \<Rightarrow> bool" where
  "groups_ok rs \<longleftrightarrow> (\<forall>i<length rs. \<exists>j\<le>3. j \<le> i \<and> is_txid (rs ! (i - j)))"

lemma txid_row_walk:
  "j \<le> n \<Longrightarrow> j \<le> i \<Longrightarrow> is_txid (buf_GetRow b (i - j)) \<Longrightarrow> (\<And>k. k < j \<Longrightarrow> \<not> is_txid (buf_GetRow b (i - k))) \<Longrightarrow>
   txid_row n b (int i) = int (i - j)"
proof (induction j arbitrary: n i)
  case 0 thus ?case by (simp add: txid_row.simps)
next
  case (Suc j)
  obtain m where m: "n = Suc m" using Suc.prems(1) by (cases n) auto
  have "txid_row m b (int (i - 1)) = int (i - 1 - j)"
  proof (rule Suc.IH)
    fix k assume "k < j" thus "\<not> is_txid (buf_GetRow b (i - 1 - k))" using Suc.prems(4)[of "Suc k"] by simp
  qed (use Suc.prems m in auto)
  moreover have "\<not> is_txid (buf_GetRow b i)" using Suc.prems(4)[of 0] by simp
  ultimately show ?case using Suc.prems m by (subst txid_row.simps) (simp add: of_nat_diff)
qed

lemma txid_row_found:
  assumes "groups_ok (buf_rows b)" "i < length (buf_rows b)"
  obtains m where "txid_row 3 b (int i) = int m" "m \<le> i" "is_txid (buf_rows b ! m)"
    "\<And>j. m < j \<Longrightarrow> j \<le> i \<Longrightarrow> \<not> is_txid (buf_rows b ! j)"
proof -
  let ?p = "\<lambda>j. j \<le> i \<and> is_txid (buf_rows b ! (i - j))"
  obtain j where j: "j \<le> 3" "?p j" using assms by (auto simp: groups_ok_def)
  define l where "l = (LEAST j. ?p j)"
  have l: "?p l" "l \<le> j" using LeastI[of ?p, OF j(2)] Least_le[of ?p, OF j(2)] by (simp_all add: l_def)
  have n: "\<not> ?p k" if "k < l" for k using that unfolding l_def by (rule not_less_Least)
  hence "\<not> is_txid (buf_GetRow b (i - k))" if "k < l" for k using that l assms(2) by (auto simp: buf_GetRow_nth)
  hence "txid_row 3 b (int i) = int (i - l)" using l j assms(2) by (intro txid_row_walk) (auto simp: buf_GetRow_nth)
  moreover have "\<not> is_txid (buf_rows b ! k)" if "i - l < k" "k \<le> i" for k using n[of "i - k"] that by auto
  ultimately show thesis using l by (intro that[of "i - l"]) simp_all
qed

text \<open>The pool and the database answer: every key known has a row.\<close>

definition ent_ok :: "mc_AssetDB \<Rightarrow> bool" where
  "ent_ok a \<longleftrightarrow> db_healthy (a_Database a) \<and> el_CanOpen (a_Ledger a) \<and>
     buf_ok row_ent_key (a_MemPool a) \<and> groups_ok (buf_rows (a_MemPool a)) \<and>
     (\<forall>k v. db_get (a_Database a) k = Some v \<longrightarrow> fst (ent_GetRow (a_Ledger a) (ev_LedgerPos v) zero_ent_row) = MC_ERR_NOERROR)"

definition known :: "mc_AssetDB \<Rightarrow> u8 list \<Rightarrow> bool" where
  "known a k \<longleftrightarrow> db_get (a_Database a) k \<noteq> None \<or> k \<in> row_ent_key ` set (buf_rows (a_MemPool a))"

lemma GetRow_fst: "fst (ent_GetRow el q old) = fst (ent_GetRow el q old')"
  by (simp add: ent_GetRow_def Let_def)

lemma GetEntity_known:
  assumes "ent_ok a"
  shows "fst (ent_GetEntity a row) \<longleftrightarrow> known a (row_ent_key row)"
proof (cases "db_get (a_Database a) (row_ent_key row)")
  case (Some v)
  hence "fst (ent_GetRow (a_Ledger a) (ev_LedgerPos v) row) = MC_ERR_NOERROR" using assms GetRow_fst by (metis ent_ok_def)
  thus ?thesis using assms Some by (auto simp: ent_GetEntity_def ent_ok_def db_Read_healthy known_def split: prod.splits)
next
  case None
  let ?k = "row_ent_key row"
  show ?thesis
  proof (cases "buf_Seek row_ent_key (a_MemPool a) ?k")
    case N: None
    hence "?k \<notin> row_ent_key ` set (buf_rows (a_MemPool a))" using assms by (simp add: ent_ok_def mcb.seek_None_iff)
    thus ?thesis using assms None N by (auto simp: ent_GetEntity_def ent_ok_def db_Read_healthy known_def)
  next
    case (Some i)
    have i: "i < length (buf_rows (a_MemPool a))" "row_ent_key (buf_rows (a_MemPool a) ! i) = ?k"
      using assms Some by (auto simp: ent_ok_def dest: mcb.seek_nth)
    hence "?k \<in> row_ent_key ` set (buf_rows (a_MemPool a))" by (metis imageI nth_mem)
    moreover obtain m where "txid_row 3 (a_MemPool a) (int i) = int m" using assms i(1) by (auto simp: ent_ok_def elim: txid_row_found)
    ultimately show ?thesis using assms None Some by (auto simp: ent_GetEntity_def ent_ok_def db_Read_healthy known_def)
  qed
qed

lemma GetEntity_unknown: "ent_ok a \<Longrightarrow> \<not> known a (row_ent_key row) \<Longrightarrow> ent_GetEntity a row = (False, row)"
  using mcb.seek_None_iff[of row_ent_key "a_MemPool a" "row_ent_key row"]
  by (auto simp: ent_GetEntity_def ent_ok_def db_Read_healthy known_def)

text \<open>The first pass finds a known key, or leaves the row as it is but for its key.\<close>

lemma keys_found_known:
  "ent_ok a \<Longrightarrow> fst (keys_found a ks row) \<longleftrightarrow> (\<exists>(k, t)\<in>set ks. known a (ent_key k t))"
proof (induction ks arbitrary: row)
  case (Cons kt ks)
  obtain k t where kt: "kt = (k, t)" by (cases kt)
  show ?case
    using GetEntity_known[OF Cons.prems, of "row\<lparr>e_Key := k, e_KeyType := t\<rparr>"] Cons.IH[OF Cons.prems]
    by (auto simp: kt split: prod.splits)
qed simp

lemma keys_found_row:
  assumes "ent_ok a" "\<not> fst (keys_found a ks row)"
  shows "\<exists>k t. snd (keys_found a ks row) = row\<lparr>e_Key := k, e_KeyType := t\<rparr>"
  using assms(2)
proof (induction ks arbitrary: row)
  case Nil
  have "row = row\<lparr>e_Key := e_Key row, e_KeyType := e_KeyType row\<rparr>" by simp
  thus ?case by (metis keys_found.simps(1) snd_conv)
next
  case (Cons kt ks)
  obtain k t where kt: "kt = (k, t)" by (cases kt)
  let ?r = "row\<lparr>e_Key := k, e_KeyType := t\<rparr>"
  have n: "\<not> fst (ent_GetEntity a ?r)" using Cons.prems by (auto simp: kt split: prod.splits if_splits)
  hence "ent_GetEntity a ?r = (False, ?r)" using GetEntity_unknown assms(1) GetEntity_known by blast
  thus ?case using Cons.IH[of ?r] Cons.prems by (auto simp: kt)
qed

section \<open>Entering\<close>

abbreviation (input) with_key :: "ent_row \<Rightarrow> u8 list \<times> u32 \<Rightarrow> ent_row" where
  "with_key row kt \<equiv> row\<lparr>e_Key := fst kt, e_KeyType := snd kt\<rparr>"

lemma add_keys_foldl: "add_keys ks row pool = foldl (buf_Add row_ent_key) pool (map (with_key row) ks)"
  unfolding add_keys_def by (induction ks arbitrary: pool) (auto simp: split_beta)

lemma buf_rows_add_keys: "buf_rows (add_keys ks row pool) = buf_rows pool @ map (with_key row) ks"
  by (simp add: add_keys_foldl mcb.rows_addl)

lemma buf_ok_add_keys: "buf_ok row_ent_key pool \<Longrightarrow> buf_ok row_ent_key (add_keys ks row pool)"
  by (simp add: add_keys_foldl mcb.ok_addl)

lemma m_Count_add_keys [simp]: "m_Count (add_keys ks row pool) = m_Count pool + length ks"
  using arg_cong[OF buf_rows_add_keys[of ks row pool], of length] by simp

lemma add_keys_same_row: "add_keys ks (row\<lparr>e_Key := k, e_KeyType := t\<rparr>) pool = add_keys ks row pool"
  by (simp add: add_keys_def)

lemma insert_keys_cases:
  fixes np row
  assumes "ent_ok a"
  defines "ks \<equiv> entity_keys (details_Set np row)"
  shows "insert_keys np a row update =
    (if \<exists>(k, t)\<in>set ks. known a (ent_key k t) then (MC_ERR_FOUND, a)
     else (MC_ERR_NOERROR, if update then a\<lparr>a_MemPool := add_keys ks row (a_MemPool a)\<rparr> else a))"
proof (cases "fst (keys_found a ks row)")
  case True
  thus ?thesis using keys_found_known[OF assms(1), of ks row] by (auto simp: insert_keys_def Let_def ks_def split: prod.splits bool.splits)
next
  case False
  obtain k t where "snd (keys_found a ks row) = row\<lparr>e_Key := k, e_KeyType := t\<rparr>" using keys_found_row[OF assms(1) False] by blast
  hence "keys_found a ks row = (False, row\<lparr>e_Key := k, e_KeyType := t\<rparr>)" using False by (metis prod.collapse)
  thus ?thesis using False keys_found_known[OF assms(1), of ks row]
    by (auto simp: insert_keys_def Let_def ks_def[symmetric] add_keys_same_row)
qed

text \<open>The keys of one entity: its identifier, and at most three others of other types.\<close>

lemma entity_keys_shape:
  obtains rest where "entity_keys d = (e_Key (d_LedgerRow d), MC_ENT_KEYTYPE_TXID) # rest" "length rest \<le> 3"
    "\<And>k t. (k, t) \<in> set rest \<Longrightarrow> t \<in> {MC_ENT_KEYTYPE_REF, MC_ENT_KEYTYPE_NAME, MC_ENT_KEYTYPE_SHORT_TXID}"
    "distinct (map snd (entity_keys d))"
  by (rule that[of "tl (entity_keys d)"]) (auto simp: entity_keys_def Let_def split: if_splits)

lemma groups_ok_append:
  assumes "groups_ok rs" "groups_ok ss"
  shows "groups_ok (rs @ ss)"
  unfolding groups_ok_def
proof (intro allI impI)
  fix i assume i: "i < length (rs @ ss)"
  show "\<exists>j\<le>3. j \<le> i \<and> is_txid ((rs @ ss) ! (i - j))"
  proof (cases "i < length rs")
    case True
    then obtain j where "j \<le> 3" "j \<le> i" "is_txid (rs ! (i - j))" using assms(1) by (auto simp: groups_ok_def)
    thus ?thesis using True by (intro exI[of _ j]) (auto simp: nth_append)
  next
    case False
    then obtain j where "j \<le> 3" "j \<le> i - length rs" "is_txid (ss ! (i - length rs - j))"
      using assms(2) i False unfolding groups_ok_def by (metis add_diff_inverse_nat length_append nat_add_left_cancel_less)
    moreover have "i - length rs - j = i - j - length rs" by simp
    ultimately show ?thesis using False by (intro exI[of _ j]) (auto simp: nth_append)
  qed
qed

lemma groups_ok_one:
  assumes "is_txid r" "length rs \<le> 3"
  shows "groups_ok (r # rs)"
  unfolding groups_ok_def
proof (intro allI impI)
  fix i assume "i < length (r # rs)"
  thus "\<exists>j\<le>3. j \<le> i \<and> is_txid ((r # rs) ! (i - j))" using assms by (intro exI[of _ i]) auto
qed

lemma groups_ok_entity: "groups_ok (map (with_key row) (entity_keys d))"
  by (rule entity_keys_shape[of d]) (auto simp: is_txid_def intro!: groups_ok_one)

lemma ent_ok_add:
  assumes "ent_ok a"
  shows "ent_ok (a\<lparr>a_MemPool := add_keys (entity_keys d) row (a_MemPool a)\<rparr>)"
  using assms groups_ok_append[OF _ groups_ok_entity]
  by (auto simp: ent_ok_def buf_rows_add_keys buf_ok_add_keys)

lemma known_add: "known (a\<lparr>a_MemPool := add_keys ks row (a_MemPool a)\<rparr>) k \<longleftrightarrow> known a k \<or> (\<exists>(j, t)\<in>set ks. k = ent_key j t)"
  by (force simp: known_def buf_rows_add_keys image_Un image_image)

section \<open>Looking up after entering\<close>

lemma txid_row_cong: "(\<And>m. m \<le> i \<Longrightarrow> buf_GetRow b m = buf_GetRow c m) \<Longrightarrow> txid_row n b (int i) = txid_row n c (int i)"
proof (induction n arbitrary: i)
  case 0 thus ?case by (subst (1 2) txid_row.simps) simp
next
  case (Suc n)
  show ?case
  proof (cases i)
    case 0 thus ?thesis using Suc.prems[of 0] by (subst (1 2) txid_row.simps) (simp add: txid_row.simps[of n])
  next
    case (Suc j)
    thus ?thesis using Suc.IH[of j] Suc.prems by (subst (1 2) txid_row.simps) simp
  qed
qed

text \<open>Every key entered leads to the row with the identifier.\<close>

lemma GetEntity_added:
  assumes ok: "ent_ok a" and ks: "ks = entity_keys d" and new: "\<And>k t. (k, t) \<in> set ks \<Longrightarrow> \<not> known a (ent_key k t)"
    and kt: "(k, t) \<in> set ks" and x: "row_ent_key x = ent_key k t"
  shows "ent_GetEntity (a\<lparr>a_MemPool := add_keys ks row (a_MemPool a)\<rparr>) x = (True, with_key row (hd ks))"
proof -
  let ?old = "buf_rows (a_MemPool a)" and ?p = "add_keys ks row (a_MemPool a)" and ?new = "map (with_key row) ks"
  obtain rest where r: "ks = (e_Key (d_LedgerRow d), MC_ENT_KEYTYPE_TXID) # rest" "length rest \<le> 3"
      "\<And>k t. (k, t) \<in> set rest \<Longrightarrow> t \<in> {MC_ENT_KEYTYPE_REF, MC_ENT_KEYTYPE_NAME, MC_ENT_KEYTYPE_SHORT_TXID}"
    and dist: "distinct (map snd ks)"
    unfolding ks by (rule entity_keys_shape[of d]) auto
  obtain i where i: "i < length ks" "ks ! i = (k, t)" using kt by (auto simp: in_set_conv_nth)
  have notold: "row_ent_key r \<noteq> ent_key k t" if "r \<in> set ?old" for r using new[OF kt] that by (metis image_eqI known_def)
  have "find_idx (\<lambda>r. row_ent_key r = ent_key k t) ?new = Some i"
  proof (rule find_idx_unique)
    show "row_ent_key (?new ! i) = ent_key k t" using i by simp
    fix j assume j: "j < length ?new" "row_ent_key (?new ! j) = ent_key k t"
    hence "snd (ks ! j) = snd (ks ! i)" using i by simp
    thus "j = i" using nth_eq_iff_index_eq[OF dist, of j i] j(1) i(1) by simp
  qed (use i in simp)
  moreover have "find_idx (\<lambda>r. row_ent_key r = ent_key k t) ?old = None" using notold by (simp add: find_idx_None)
  ultimately have seek: "buf_Seek row_ent_key ?p (ent_key k t) = Some (i + length ?old)"
    using ok by (simp add: ent_ok_def buf_ok_add_keys mcb.seek_rows buf_rows_add_keys find_idx_append)
  have row: "buf_GetRow ?p (j + length ?old) = with_key row (ks ! j)" if "j < length ks" for j
    using that by (subst buf_GetRow_nth) (simp_all add: buf_rows_add_keys nth_append)
  have t3: "txid_row 3 ?p (int (i + length ?old)) = int (i + length ?old - i)"
  proof (rule txid_row_walk)
    show "i \<le> 3" using i(1) r by simp
    show "is_txid (buf_GetRow ?p (i + length ?old - i))" using row[of 0] r(1) by (simp add: is_txid_def)
    fix j assume j: "j < i"
    obtain m where m: "i - j = Suc m" using j by (cases "i - j") auto
    have "ks ! (i - j) \<in> set rest" using r(1) m i(1) by (simp add: in_set_conv_nth) (metis Suc_less_eq diff_le_self le_less_trans length_Cons)
    hence "snd (ks ! (i - j)) \<in> {MC_ENT_KEYTYPE_REF, MC_ENT_KEYTYPE_NAME, MC_ENT_KEYTYPE_SHORT_TXID}" using r(3) by (metis prod.collapse)
    hence "\<not> is_txid (with_key row (ks ! (i - j)))" by (auto simp: is_txid_def)
    moreover have "buf_GetRow ?p (i + length ?old - j) = with_key row (ks ! (i - j))" using row[of "i - j"] i(1) j by (simp add: add.commute)
    ultimately show "\<not> is_txid (buf_GetRow ?p (i + length ?old - j))" by simp
  qed simp
  have "db_get (a_Database a) (ent_key k t) = None" using new[OF kt] by (simp add: known_def)
  thus ?thesis using ok seek t3 row[of 0] r(1) x
    by (simp add: ent_GetEntity_def ent_ok_def db_Read_healthy)
qed

text \<open>The other keys lead where they led.\<close>

lemma GetEntity_other:
  assumes ok: "ent_ok a" and x: "\<And>k t. (k, t) \<in> set ks \<Longrightarrow> row_ent_key x \<noteq> ent_key k t"
  shows "ent_GetEntity (a\<lparr>a_MemPool := add_keys ks row (a_MemPool a)\<rparr>) x = ent_GetEntity a x"
proof -
  let ?b = "a_MemPool a" and ?p = "add_keys ks row (a_MemPool a)"
  have "find_idx (\<lambda>r. row_ent_key r = row_ent_key x) (map (with_key row) ks) = None"
    using x by (force simp: find_idx_None)
  hence seek: "buf_Seek row_ent_key ?p (row_ent_key x) = buf_Seek row_ent_key ?b (row_ent_key x)"
    using ok by (simp add: ent_ok_def buf_ok_add_keys mcb.seek_rows buf_rows_add_keys find_idx_append split: option.splits)
  have row: "buf_GetRow ?p i = buf_GetRow ?b i" if "i < length (buf_rows ?b)" for i
    using that by (subst (1 2) buf_GetRow_nth) (simp_all add: buf_rows_add_keys nth_append)
  have "txid_row 3 ?p (int i) = txid_row 3 ?b (int i) \<and> (\<forall>m. txid_row 3 ?b (int i) = int m \<longrightarrow> buf_GetRow ?p m = buf_GetRow ?b m)"
    if "buf_Seek row_ent_key ?b (row_ent_key x) = Some i" for i
  proof -
    have i: "i < length (buf_rows ?b)" using ok that by (auto simp: ent_ok_def dest: mcb.seek_nth)
    then obtain m where "txid_row 3 ?b (int i) = int m" "m \<le> i" using ok by (auto simp: ent_ok_def elim: txid_row_found)
    moreover have "txid_row 3 ?p (int i) = txid_row 3 ?b (int i)" using i row by (intro txid_row_cong) simp
    ultimately show ?thesis using i row by auto
  qed
  thus ?thesis using seek by (auto simp: ent_GetEntity_def Let_def not_less split: option.splits prod.splits)
qed
end
