(* ===== verification/Entity_Chain.thy ===== *)
theory Entity_Chain
  imports Entity_Pool
begin

text \<open>
  The ledger of the entities as a list of rows, the first of which has the height and the position of the last, and what
  \<open>Commit\<close> and the start-up do on it. The invariant \<open>ent_inv\<close> relates the file, the database and the state in memory.
\<close>


section \<open>The ledger as a list of rows\<close>

definition pos_of :: "ent_row list \<Rightarrow> nat \<Rightarrow> int" where
  "pos_of rs i = sum_list (map row_size (take i rs))"

definition end_of :: "ent_row list \<Rightarrow> int" where
  "end_of rs = pos_of rs (length rs)"

definition ledger_bytes :: "ent_row list \<Rightarrow> u8 list" where
  "ledger_bytes rs = concat (map row_bytes rs)"

definition ledger_is :: "ent_ledger \<Rightarrow> ent_row list \<Rightarrow> bool" where
  "ledger_is el rs \<longleftrightarrow> el_CanOpen el \<and> (\<forall>r\<in>set rs. ledger_row_ok r) \<and> take (length (ledger_bytes rs)) (el_File el) = ledger_bytes rs"

lemma row_size_pos: "96 \<le> row_size r" by (simp add: row_size_def)

lemma pos_of_0 [simp]: "pos_of rs 0 = 0" by (simp add: pos_of_def)

lemma pos_of_Suc: "i < length rs \<Longrightarrow> pos_of rs (Suc i) = pos_of rs i + row_size (rs ! i)"
  by (simp add: pos_of_def take_Suc_conv_app_nth)

lemma end_of_append: "end_of (rs @ ss) = end_of rs + end_of ss"
  by (simp add: end_of_def pos_of_def)

lemma pos_of_append [simp]: "i \<le> length rs \<Longrightarrow> pos_of (rs @ ss) i = pos_of rs i"
  by (simp add: pos_of_def)

lemma pos_of_end [simp]: "pos_of (rs @ ss) (length rs) = end_of rs"
  by (simp add: pos_of_def end_of_def)

lemma ledger_bytes_append [simp]: "ledger_bytes (rs @ ss) = ledger_bytes rs @ ledger_bytes ss"
  by (simp add: ledger_bytes_def)

lemma length_ledger_bytes: "\<forall>r\<in>set rs. ledger_row_ok r \<Longrightarrow> int (length (ledger_bytes rs)) = end_of rs"
  by (induction rs) (auto simp: ledger_bytes_def end_of_def pos_of_def length_row_bytes)

lemma sizes_nonneg: "0 \<le> sum_list (map row_size rs)"
proof (induction rs)
  case (Cons r rs) thus ?case using row_size_pos[of r] by simp
qed simp

lemma pos_of_nonneg: "0 \<le> pos_of rs i"
  by (simp add: pos_of_def sizes_nonneg)

lemma pos_of_mono: "i \<le> j \<Longrightarrow> pos_of rs i \<le> pos_of rs j"
proof -
  assume "i \<le> j"
  then obtain k where "j = i + k" using le_Suc_ex by blast
  thus ?thesis using sizes_nonneg by (simp add: pos_of_def take_add)
qed

text \<open>Reading the row number \<open>i\<close>.\<close>

lemma read_row_ok:
  assumes "ledger_row_ok r" "el_CanOpen el" "0 \<le> q" "take (length (row_bytes r)) (drop (nat q) (el_File el)) = row_bytes r"
  shows "ent_GetRow el q old = (MC_ERR_NOERROR, r)"
proof -
  let ?e = "el\<lparr>el_File := take (nat q) (el_File el)\<rparr>"
  have n: "int (row_length r) = row_size r" using assms(1) by (simp add: ledger_row_ok_def row_length_size)
  hence nl: "row_length r = length (row_bytes r)" using length_row_bytes[OF assms(1)] by simp
  have 1: "ent_GetRow (snd (ent_SetRow el q r)) q zero_ent_row = (MC_ERR_NOERROR, r)" using assms by (intro GetRow_SetRow)
  show ?thesis
    by (rule GetRow_cong[OF 1 assms(2)]) (use assms nl in \<open>simp add: SetRow_ok drop_write\<close>)
qed

lemma ledger_read:
  assumes "ledger_is el rs" "i < length rs"
  shows "ent_GetRow el (pos_of rs i) old = (MC_ERR_NOERROR, rs ! i)"
proof (rule read_row_ok)
  let ?a = "take i rs" and ?b = "drop (Suc i) rs"
  have ok: "\<forall>r\<in>set rs. ledger_row_ok r" and fl: "take (length (ledger_bytes rs)) (el_File el) = ledger_bytes rs"
    using assms(1) by (auto simp: ledger_is_def)
  have rs: "rs = ?a @ rs ! i # ?b" using assms(2) by (rule id_take_nth_drop)
  have b: "ledger_bytes rs = ledger_bytes ?a @ row_bytes (rs ! i) @ ledger_bytes ?b"
    by (subst rs) (simp add: ledger_bytes_def)
  have l: "int (length (ledger_bytes ?a)) = pos_of rs i"
    using length_ledger_bytes[of ?a] ok assms(2) by (auto simp: end_of_def pos_of_def min_def dest: in_set_takeD)
  obtain rest where f: "el_File el = ledger_bytes rs @ rest" using fl by (metis append_take_drop_id)
  have "nat (pos_of rs i) = length (ledger_bytes ?a)" using l by simp
  thus "take (length (row_bytes (rs ! i))) (drop (nat (pos_of rs i)) (el_File el)) = row_bytes (rs ! i)"
    by (simp add: f b)
qed (use assms pos_of_nonneg in \<open>auto simp: ledger_is_def\<close>)

text \<open>Adding a row at the end, whatever stood there, and writing the first row again.\<close>

lemma ledger_append:
  assumes "ledger_is el rs" "ledger_row_ok r"
  shows "ledger_is (snd (ent_SetRow el (end_of rs) r)) (rs @ [r])"
proof -
  have l: "int (length (ledger_bytes rs)) = end_of rs" using assms(1) by (auto simp: ledger_is_def intro: length_ledger_bytes)
  hence n: "nat (end_of rs) = length (ledger_bytes rs)" by simp
  obtain rest where f: "el_File el = ledger_bytes rs @ rest" using assms(1) by (metis append_take_drop_id ledger_is_def)
  show ?thesis using assms l by (simp add: ledger_is_def SetRow_ok n f write_bytes_def) (simp add: ledger_bytes_def)
qed

lemma ledger_zero:
  assumes "ledger_is el (z # rs)" "ledger_row_ok z'" "row_size z' = row_size z"
  shows "ledger_is (snd (ent_SetRow el 0 z')) (z' # rs)"
proof -
  have "length (row_bytes z') = length (row_bytes z)" using assms length_row_bytes[of z] length_row_bytes[of z'] by (simp add: ledger_is_def)
  moreover obtain rest where "el_File el = ledger_bytes (z # rs) @ rest" using assms(1) by (metis append_take_drop_id ledger_is_def)
  ultimately show ?thesis using assms by (simp add: ledger_is_def SetRow_ok write_bytes_def) (simp add: ledger_bytes_def)
qed

section \<open>Committing\<close>

text \<open>A row of the pool that can be committed; follow-ons are left aside.\<close>

definition commit_ready :: "ent_row \<Rightarrow> bool" where
  "commit_ready p \<longleftrightarrow> e_KeyType p \<in> {MC_ENT_KEYTYPE_TXID, MC_ENT_KEYTYPE_REF, MC_ENT_KEYTYPE_NAME, MC_ENT_KEYTYPE_SHORT_TXID} \<and>
     (is_txid p \<longrightarrow> ledger_row_ok p \<and> 0 \<le> e_Offset p \<and> e_FirstPos p < 0 \<and> e_ChainPos p < 0)"

definition last_pos :: "ent_row list \<Rightarrow> int" where
  "last_pos rs = pos_of rs (length rs - 1)"

text \<open>The rows of the ledger and the entries of the database that a pool gives.\<close>

definition placed_row :: "ent_row list \<Rightarrow> ent_row \<Rightarrow> ent_row" where
  "placed_row rs p = p\<lparr>e_PrevPos := last_pos rs, e_FirstPos := end_of rs, e_ChainPos := end_of rs\<rparr>"

definition place :: "ent_row list \<Rightarrow> ent_row \<Rightarrow> ent_row list" where
  "place rs p = (if is_txid p then rs @ [placed_row rs p] else rs)"

definition rows_after :: "ent_row list \<Rightarrow> ent_row list \<Rightarrow> ent_row list" where
  "rows_after rs ps = foldl place rs ps"

definition entry_of :: "ent_row \<Rightarrow> int \<Rightarrow> (u8 list, ent_val) db_op" where
  "entry_of p pos = Put (row_ent_key p) \<lparr>ev_Block = e_Block p, ev_LedgerPos = pos, ev_ChainPos = pos, ev_EntityType = e_EntityType p\<rparr>"

definition entries_after :: "ent_row list \<Rightarrow> ent_row list \<Rightarrow> (u8 list, ent_val) db_op list" where
  "entries_after rs ps = map (\<lambda>i. entry_of (ps ! i) (last_pos (rows_after rs (take (Suc i) ps)))) [0..<length ps]"

lemma rows_after_simps [simp]: "rows_after rs [] = rs" "rows_after rs (ps @ [p]) = place (rows_after rs ps) p"
  by (simp_all add: rows_after_def)

lemma entries_after_snoc:
  "entries_after rs (ps @ [p]) = entries_after rs ps @ [entry_of p (last_pos (rows_after rs (ps @ [p])))]"
  by (simp add: entries_after_def nth_append)

lemma row_size_placed [simp]: "row_size (placed_row rs p) = row_size p"
  by (simp add: placed_row_def row_size_def)

lemma row_size_prev [simp]: "row_size (r\<lparr>e_PrevPos := x\<rparr>) = row_size r" "row_size (r\<lparr>e_Block := x\<rparr>) = row_size r"
  by (simp_all add: row_size_def)

lemma last_pos_snoc [simp]: "last_pos (rs @ [r]) = end_of rs"
  by (simp add: last_pos_def)

lemma end_of_snoc [simp]: "end_of (rs @ [r]) = end_of rs + row_size r"
  by (simp add: end_of_def pos_of_def)

lemma last_pos_less: "rs \<noteq> [] \<Longrightarrow> 0 \<le> last_pos rs \<and> last_pos rs < end_of rs"
proof -
  assume "rs \<noteq> []"
  then obtain ss r where "rs = ss @ [r]" using rev_exhaust by blast
  thus ?thesis using row_size_pos[of r] sizes_nonneg[of ss] by (simp add: end_of_def pos_of_def)
qed

lemma i64_okI: "0 \<le> x \<Longrightarrow> x < 2 ^ 63 \<Longrightarrow> i64_ok x" by (simp add: i64_ok_def)

lemma placed_ok:
  assumes "commit_ready p" "is_txid p" "rs \<noteq> []" "end_of rs < 2 ^ 63"
  shows "ledger_row_ok (placed_row rs p)"
  using assms last_pos_less[OF assms(3)]
  by (auto simp: placed_row_def commit_ready_def ledger_row_ok_def i64_ok_def)

text \<open>One step of the loop.\<close>

definition commit_at :: "ent_row list \<Rightarrow> ent_commit \<Rightarrow> bool" where
  "commit_at rs c \<longleftrightarrow> c_err c = MC_ERR_NOERROR \<and> rs \<noteq> [] \<and> ledger_is (c_Ledger c) rs \<and> c_Pos c + c_size c = end_of rs \<and>
     c_PrevPos c = last_pos rs \<and> db_healthy (c_DB c)"

lemma commit_step_txid:
  assumes at: "commit_at rs c" and p: "buf_GetRow (c_Pool c) i = p" "commit_ready p" "is_txid p" and fits: "end_of rs < 2 ^ 63"
  shows "commit_pool_row np i c = c\<lparr>c_size := row_size p, c_Pos := end_of rs, c_PrevPos := end_of rs,
      c_Ledger := snd (ent_SetRow (c_Ledger c) (end_of rs) (placed_row rs p)),
      c_DB := (c_DB c)\<lparr>db_Batch := db_Batch (c_DB c) @ [entry_of p (end_of rs)]\<rparr>,
      c_Pool := buf_write_row (c_Pool c) i (placed_row rs p)\<rparr>"
proof -
  have k: "e_KeyType p \<noteq> MC_ENT_KEYTYPE_FOLLOW_ON OR MC_ENT_KEYTYPE_TXID" and r: "0 \<le> e_Offset p" "e_FirstPos p < 0" "e_ChainPos p < 0"
    using p by (auto simp: commit_ready_def)
  have ok: "ledger_row_ok (placed_row rs p)" using at p fits by (intro placed_ok) (auto simp: commit_at_def)
  have e: "0 \<le> end_of rs" using last_pos_less[of rs] at by (auto simp: commit_at_def)
  have c: "commit_txid_row i p c = (placed_row rs p, zero_ent_row, c\<lparr>c_size := row_size p, c_Pos := end_of rs, c_PrevPos := end_of rs,
      c_Ledger := snd (ent_SetRow (c_Ledger c) (end_of rs) (placed_row rs p)), c_Pool := buf_write_row (c_Pool c) i (placed_row rs p)\<rparr>)"
    using at k r ok e row_size_pos[of p]
    by (simp add: commit_txid_row_def Let_def commit_at_def placed_row_def[symmetric] SetRow_ok ledger_is_def)
  show ?thesis
    using at p c
    by (simp add: commit_pool_row_def Let_def commit_at_def commit_entries_def zero_ent_row_def db_Write_batch entry_of_def row_ent_key_def placed_row_def)
qed

lemma commit_step_other:
  assumes at: "commit_at rs c" and p: "buf_GetRow (c_Pool c) i = p" "\<not> is_txid p"
  shows "commit_pool_row np i c = c\<lparr>c_DB := (c_DB c)\<lparr>db_Batch := db_Batch (c_DB c) @ [entry_of p (c_Pos c)]\<rparr>\<rparr>"
  using at p
  by (simp add: commit_pool_row_def Let_def commit_at_def commit_entries_def zero_ent_row_def db_Write_batch entry_of_def)

lemma end_of_place: "end_of rs \<le> end_of (place rs p)"
  using row_size_pos[of p] by (simp add: place_def)

lemma commit_at_place:
  fixes np :: net_params
  assumes at: "commit_at rs c" and p: "buf_GetRow (c_Pool c) i = p" "commit_ready p" and fits: "end_of rs < 2 ^ 63"
    and cur: "is_txid p \<or> c_Pos c = last_pos rs"
  defines "c' \<equiv> commit_pool_row np i c"
  shows "commit_at (place rs p) c'" "c_Pos c' = last_pos (place rs p)" "\<And>m. m \<noteq> i \<Longrightarrow> buf_GetRow (c_Pool c') m = buf_GetRow (c_Pool c) m"
    "c_DB c' = (c_DB c)\<lparr>db_Batch := db_Batch (c_DB c) @ [entry_of p (last_pos (place rs p))]\<rparr>"
proof -
  have ok: "ledger_row_ok (placed_row rs p)" if "is_txid p" using at p fits that by (intro placed_ok) (auto simp: commit_at_def)
  show "commit_at (place rs p) c'" "c_Pos c' = last_pos (place rs p)" "c_DB c' = (c_DB c)\<lparr>db_Batch := db_Batch (c_DB c) @ [entry_of p (last_pos (place rs p))]\<rparr>"
    "\<And>m. m \<noteq> i \<Longrightarrow> buf_GetRow (c_Pool c') m = buf_GetRow (c_Pool c) m"
    using at ok cur commit_step_txid[OF at p _ fits, of np] commit_step_other[OF at p(1), of np]
    by (cases "is_txid p"; auto simp: c'_def commit_at_def place_def ledger_append buf_write_row_def buf_GetRow_def)+
qed

lemma commit_loop:
  fixes np :: net_params
  assumes at: "commit_at rs c" and "n \<le> length ps" and ps: "\<And>i. i < length ps \<Longrightarrow> buf_GetRow (c_Pool c) i = ps ! i"
    and ready: "\<forall>p\<in>set ps. commit_ready p" and first: "ps = [] \<or> is_txid (hd ps)" and fits: "end_of (rows_after rs ps) < 2 ^ 63"
  defines "c' \<equiv> foldl (\<lambda>c i. commit_pool_row np i c) c [0..<n]"
  shows "commit_at (rows_after rs (take n ps)) c' \<and> (n > 0 \<longrightarrow> c_Pos c' = last_pos (rows_after rs (take n ps))) \<and>
    (\<forall>m\<ge>n. buf_GetRow (c_Pool c') m = buf_GetRow (c_Pool c) m) \<and>
    c_DB c' = (c_DB c)\<lparr>db_Batch := db_Batch (c_DB c) @ entries_after rs (take n ps)\<rparr>"
  using assms(2) unfolding c'_def
proof (induction n)
  case 0 thus ?case using at by (simp add: entries_after_def)
next
  case (Suc n)
  let ?c = "foldl (\<lambda>c i. commit_pool_row np i c) c [0..<n]" and ?rs = "rows_after rs (take n ps)"
  have IH: "commit_at ?rs ?c" "n > 0 \<longrightarrow> c_Pos ?c = last_pos ?rs" "\<And>m. n \<le> m \<Longrightarrow> buf_GetRow (c_Pool ?c) m = buf_GetRow (c_Pool c) m"
    "c_DB ?c = (c_DB c)\<lparr>db_Batch := db_Batch (c_DB c) @ entries_after rs (take n ps)\<rparr>"
    using Suc by auto
  have n: "n < length ps" and t: "take (Suc n) ps = take n ps @ [ps ! n]" using Suc.prems by (auto simp: take_Suc_conv_app_nth)
  have p: "buf_GetRow (c_Pool ?c) n = ps ! n" "commit_ready (ps ! n)" using IH(3)[of n] ps n ready by auto
  have "end_of (foldl place xs ys) \<ge> end_of xs" for xs ys
    by (induction ys arbitrary: xs) (auto intro: order_trans end_of_place)
  from this[of ?rs "drop n ps"] have f: "end_of ?rs < 2 ^ 63"
    using fits by (simp add: rows_after_def foldl_append[symmetric] del: foldl_append)
  have cur: "is_txid (ps ! n) \<or> c_Pos ?c = last_pos ?rs" using IH(2) first n by (cases n) (auto simp: hd_conv_nth)
  note step = commit_at_place[OF IH(1) p f cur, where np = np]
  have "foldl (\<lambda>c i. commit_pool_row np i c) c [0..<Suc n] = commit_pool_row np n ?c" by simp
  moreover have "rows_after rs (take (Suc n) ps) = place ?rs (ps ! n)" by (simp add: t)
  moreover have "entries_after rs (take (Suc n) ps) = entries_after rs (take n ps) @ [entry_of (ps ! n) (last_pos (place ?rs (ps ! n)))]"
    by (simp add: t entries_after_snoc)
  ultimately show ?case using step IH by (simp add: Suc_le_eq)
qed

section \<open>The state\<close>

text \<open>
  The ledger has the rows \<open>rs\<close>, the first of which has the height and the position of the last; the entries of the
  database are at rows; nothing is left in the batch.
\<close>

definition ent_inv :: "mc_AssetDB \<Rightarrow> ent_row list \<Rightarrow> bool" where
  "ent_inv a rs \<longleftrightarrow> ent_ok a \<and> rs \<noteq> [] \<and> ledger_is (a_Ledger a) rs \<and> e_ScriptSize (hd rs) = 0 \<and>
     e_PrevPos (hd rs) = last_pos rs \<and> e_Block (hd rs) = a_Block a \<and> a_PrevPos a = last_pos rs \<and> a_Pos a = end_of rs \<and>
     db_Batch (a_Database a) = [] \<and> store_ok (db_Store (a_Database a)) \<and>
     (\<exists>v. db_get (a_Database a) zero_ent_key = Some v \<and> ev_Block v = a_Block a \<and> ev_LedgerPos v = last_pos rs) \<and>
     (\<forall>r\<in>set (tl rs). e_Block r \<le> a_Block a) \<and>
     (\<forall>k v. k \<noteq> zero_ent_key \<longrightarrow> db_get (a_Database a) k = Some v \<longrightarrow> (\<exists>i. 0 < i \<and> i < length rs \<and> ev_LedgerPos v = pos_of rs i))"

text \<open>A pool that can be committed: rows of the next block with new keys, each entered once.\<close>

definition pool_ready :: "mc_AssetDB \<Rightarrow> bool" where
  "pool_ready a \<longleftrightarrow> (\<forall>p\<in>set (buf_rows (a_MemPool a)). commit_ready p \<and> e_Block p = a_Block a + 1 \<and>
       db_get (a_Database a) (row_ent_key p) = None) \<and>
     distinct (map row_ent_key (buf_rows (a_MemPool a)))"

text \<open>Rows with the same data, wherever they stand.\<close>

definition same_data :: "ent_row \<Rightarrow> ent_row \<Rightarrow> bool" where
  "same_data r s \<longleftrightarrow> r\<lparr>e_PrevPos := 0, e_FirstPos := 0, e_ChainPos := 0\<rparr> = s\<lparr>e_PrevPos := 0, e_FirstPos := 0, e_ChainPos := 0\<rparr>"

lemma same_data_refl [simp]: "same_data r r"
  by (simp add: same_data_def)

lemma same_data_placed: "same_data ((placed_row rs p)\<lparr>e_ChainPos := x\<rparr>) p"
  by (simp add: same_data_def placed_row_def)

lemma rows_after_prefix: "\<exists>ext. rows_after rs ps = rs @ ext"
proof (induction ps rule: rev_induct)
  case (snoc p ps) thus ?case by (auto simp: place_def)
qed simp

lemma rows_after_extends: "\<exists>ext. rows_after rs ps = rs @ ext \<and> (ext = [] \<longleftrightarrow> \<not> list_ex is_txid ps)"
proof (induction ps rule: rev_induct)
  case (snoc p ps) thus ?case by (auto simp: place_def)
qed simp

lemma rows_after_take: "\<exists>ext. rows_after rs ps = rows_after rs (take n ps) @ ext"
  using rows_after_prefix[of "rows_after rs (take n ps)" "drop n ps"]
  by (simp add: rows_after_def foldl_append[symmetric] del: foldl_append)

lemma rows_after_group:
  assumes "i < length ps" "m \<le> i" "is_txid (ps ! m)" "\<And>j. m < j \<Longrightarrow> j \<le> i \<Longrightarrow> \<not> is_txid (ps ! j)"
  shows "rows_after rs (take (Suc i) ps) = rows_after rs (take m ps) @ [placed_row (rows_after rs (take m ps)) (ps ! m)]"
  using assms
proof (induction i)
  case 0
  thus ?case using rows_after_simps(2)[of rs "[]" "ps ! 0"] by (simp add: take_Suc_conv_app_nth place_def)
next
  case (Suc i)
  note t = take_Suc_conv_app_nth[OF Suc.prems(1)]
  show ?case
  proof (cases "m = Suc i")
    case True thus ?thesis using Suc.prems unfolding t by (simp add: place_def)
  next
    case False
    hence "rows_after rs (take (Suc (Suc i)) ps) = rows_after rs (take (Suc i) ps)"
      using Suc.prems unfolding t by (simp add: place_def)
    thus ?thesis using Suc False by simp
  qed
qed

lemma pos_of_first: "row_size z = row_size z' \<Longrightarrow> pos_of (z # t) i = pos_of (z' # t) i"
  by (cases i) (simp_all add: pos_of_def)

lemma last_pos_first: "row_size z = row_size z' \<Longrightarrow> last_pos (z # t) = last_pos (z' # t)"
  unfolding last_pos_def using pos_of_first[of z z' t "length t"] by simp

lemma end_of_first: "row_size z = row_size z' \<Longrightarrow> end_of (z # t) = end_of (z' # t)"
  unfolding end_of_def using pos_of_first[of z z' t "Suc (length t)"] by simp

text \<open>The entry of a key of the pool.\<close>

lemma entries_keys: "map op_key (entries_after rs ps) = map row_ent_key ps"
  by (rule nth_equalityI) (simp_all add: entries_after_def entry_of_def)

lemma entry_found:
  assumes "distinct (map row_ent_key ps)" "i < length ps" "row_ent_key (ps ! i) \<notin> op_key ` set rest"
  shows "batch_val (entries_after rs ps @ rest) (row_ent_key (ps ! i)) v =
    op_val (entry_of (ps ! i) (last_pos (rows_after rs (take (Suc i) ps))))"
proof -
  let ?es = "entries_after rs ps"
  have i: "i < length ?es" "op_key (?es ! i) = row_ent_key (ps ! i)" "?es ! i = entry_of (ps ! i) (last_pos (rows_after rs (take (Suc i) ps)))"
    using assms(2) by (simp_all add: entries_after_def entry_of_def)
  have d: "distinct (map op_key ?es)" using assms(1) by (simp add: entries_keys)
  have "op_key (?es ! i) \<notin> op_key ` set (drop (Suc i) ?es)"
  proof
    assume "op_key (?es ! i) \<in> op_key ` set (drop (Suc i) ?es)"
    then obtain j where "j < length ?es - Suc i" "op_key (?es ! i) = op_key (?es ! (Suc i + j))" by (auto simp: in_set_conv_nth)
    hence "Suc i + j < length ?es" "map op_key ?es ! i = map op_key ?es ! (Suc i + j)" using i(1) by simp_all
    thus False using nth_eq_iff_index_eq[OF d, of i "Suc i + j"] i(1) by simp
  qed
  thus ?thesis
    using batch_val_last[of "?es ! i" "row_ent_key (ps ! i)" "drop (Suc i) ?es @ rest" "take i ?es" v] i assms(3) id_take_nth_drop[OF i(1)]
    by (metis Un_iff append.assoc append_Cons image_Un set_append)
qed

section \<open>What Commit does\<close>

definition new_first :: "ent_row list \<Rightarrow> int \<Rightarrow> ent_row list" where
  "new_first rs block = (hd rs)\<lparr>e_Block := block, e_PrevPos := last_pos rs\<rparr> # tl rs"

text \<open>The batch of a block.\<close>

definition block_batch :: "mc_AssetDB \<Rightarrow> ent_row list \<Rightarrow> (u8 list, ent_val) db_op list" where
  "block_batch a rs =
    (let ps = buf_rows (a_MemPool a) in entries_after rs ps @
     [Put zero_ent_key ((the (db_get (a_Database a) zero_ent_key))\<lparr>ev_Block := a_Block a + 1, ev_LedgerPos := last_pos (rows_after rs ps)\<rparr>)])"

lemma zero_row_written:
  assumes "ledger_is el rs" "rs \<noteq> []" "i32_ok block" "end_of rs < 2 ^ 63"
  shows "ledger_is (write_zero_row el block (last_pos rs) row) (new_first rs block)"
proof -
  obtain z t where rs: "rs = z # t" using assms(2) by (cases rs) auto
  have "ent_GetRow el 0 row = (MC_ERR_NOERROR, z)" using ledger_read[OF assms(1), of 0 row] by (simp add: rs)
  moreover have "ledger_row_ok (z\<lparr>e_Block := block, e_PrevPos := last_pos rs\<rparr>)"
    using assms(1,3,4) last_pos_less[OF assms(2)] by (simp add: ledger_is_def rs ledger_row_ok_def i64_ok_def)
  moreover have "row_size (z\<lparr>e_Block := block, e_PrevPos := x\<rparr>) = row_size z" for x by (simp add: row_size_def)
  ultimately show ?thesis
    using ledger_zero[of el z t "z\<lparr>e_Block := block, e_PrevPos := last_pos rs\<rparr>"] assms(1)
    by (simp add: write_zero_row_def ent_SetZeroRow_def new_first_def rs)
qed

lemma groups_ok_first: "groups_ok ps \<Longrightarrow> ps = [] \<or> is_txid (hd ps)"
  by (cases ps) (auto simp: groups_ok_def)

lemma Commit_result:
  assumes inv: "ent_inv a rs" and ready: "pool_ready a"
    and fits: "end_of (rows_after rs (buf_rows (a_MemPool a))) < 2 ^ 63" "i32_ok (a_Block a + 1)"
  defines "RS \<equiv> rows_after rs (buf_rows (a_MemPool a))"
  obtains a' where "ent_Commit np a = Some (MC_ERR_NOERROR, a')" "ledger_is (a_Ledger a') (new_first RS (a_Block a + 1))"
    "a_Database a' = (a_Database a)\<lparr>db_Store := store_batch (block_batch a rs) (db_Store (a_Database a)), db_Batch := []\<rparr>"
    "buf_rows (a_MemPool a') = []" "buf_ok row_ent_key (a_MemPool a')" "a_Block a' = a_Block a + 1" "a_PrevPos a' = last_pos RS" "a_Pos a' = end_of RS"
proof -
  let ?ps = "buf_rows (a_MemPool a)"
  let ?init = "\<lparr>c_err = MC_ERR_NOERROR, c_size = 0, c_Pos = a_Pos a, c_PrevPos = a_PrevPos a, c_Ledger = a_Ledger a,
          c_DB = a_Database a, c_Pool = a_MemPool a\<rparr>"
  let ?c = "foldl (\<lambda>c i. commit_pool_row np i c) ?init [0..<buf_GetCount (a_MemPool a)]"
  have at: "commit_at rs ?init" using inv by (simp add: commit_at_def ent_inv_def ent_ok_def)
  have opn: "el_CanOpen (a_Ledger a)" and healthy: "db_healthy (a_Database a)" and batch: "db_Batch (a_Database a) = []"
    and ne: "rs \<noteq> []" and ok: "buf_ok row_ent_key (a_MemPool a)"
    using inv by (auto simp: ent_inv_def ent_ok_def)
  have first: "?ps = [] \<or> is_txid (hd ?ps)" using inv by (intro groups_ok_first) (simp add: ent_inv_def ent_ok_def)
  have c: "commit_at RS ?c" "c_DB ?c = (a_Database a)\<lparr>db_Batch := entries_after rs ?ps\<rparr>"
    using commit_loop[OF at, of "length ?ps" ?ps, where np = np] ready first fits(1) batch
    by (simp_all add: RS_def pool_ready_def buf_GetCount_def buf_GetRow_nth)
  obtain v where v: "db_get (a_Database a) zero_ent_key = Some v" using inv by (auto simp: ent_inv_def)
  have RS: "RS \<noteq> []" using c(1) by (simp add: commit_at_def)
  have l: "ledger_is (write_zero_row (c_Ledger ?c) (a_Block a + 1) (last_pos RS) zero_ent_row) (new_first RS (a_Block a + 1))"
    using zero_row_written[of "c_Ledger ?c" RS] c(1) fits RS by (simp add: commit_at_def RS_def)
  have "db_get (a_Database a\<lparr>db_Batch := x\<rparr>) k = db_get (a_Database a) k" for x k by (simp add: db_get_def)
  hence h: "write_ent_header (c_DB ?c) (a_Block a + 1) (last_pos RS) = (MC_ERR_NOERROR, (a_Database a)\<lparr>db_Batch := block_batch a rs\<rparr>)"
    using healthy v by (simp add: c(2) write_ent_header_def db_Read_healthy db_Write_batch block_batch_def Let_def RS_def)
  let ?a = "a\<lparr>a_Database := (a_Database a)\<lparr>db_Store := store_batch (block_batch a rs) (db_Store (a_Database a)), db_Batch := []\<rparr>,
      a_Ledger := write_zero_row (c_Ledger ?c) (a_Block a + 1) (last_pos RS) zero_ent_row, a_MemPool := buf_Clear (c_Pool ?c),
      a_PrevPos := last_pos RS, a_Pos := end_of RS, a_Block := a_Block a + 1\<rparr>"
  have "ent_Commit np a = Some (MC_ERR_NOERROR, ?a)"
    using c(1) opn h healthy
    by (simp add: ent_Commit_def commit_rows_def Let_def commit_at_def db_Commit_batch)
  thus thesis using that[of ?a] l by simp
qed

lemma new_first_simps:
  assumes "rs \<noteq> []"
  shows "pos_of (new_first rs b) i = pos_of rs i" "last_pos (new_first rs b) = last_pos rs" "end_of (new_first rs b) = end_of rs"
    "length (new_first rs b) = length rs" "0 < i \<Longrightarrow> i < length rs \<Longrightarrow> new_first rs b ! i = rs ! i" "new_first rs b \<noteq> []"
proof -
  obtain z t where rs: "rs = z # t" using assms by (cases rs) auto
  have s: "row_size (z\<lparr>e_Block := b, e_PrevPos := last_pos (z # t)\<rparr>) = row_size z" by (simp add: row_size_def)
  show "pos_of (new_first rs b) i = pos_of rs i" "last_pos (new_first rs b) = last_pos rs" "end_of (new_first rs b) = end_of rs"
    "length (new_first rs b) = length rs" "0 < i \<Longrightarrow> i < length rs \<Longrightarrow> new_first rs b ! i = rs ! i" "new_first rs b \<noteq> []"
    using pos_of_first[OF s] last_pos_first[OF s] end_of_first[OF s] by (auto simp: new_first_def rs)
qed

lemma zero_key_other: "p \<in> set ps \<Longrightarrow> \<forall>p\<in>set ps. commit_ready p \<Longrightarrow> row_ent_key p \<noteq> zero_ent_key"
proof -
  have z: "zero_ent_key = ent_key (replicate 32 0) 0"
    unfolding zero_ent_key_def ent_key_def by (rule nth_equalityI) (simp_all add: nth_append mc_PutLE_nth)
  assume "p \<in> set ps" "\<forall>p\<in>set ps. commit_ready p"
  thus ?thesis by (auto simp: z row_ent_key_def commit_ready_def)
qed

lemma GetEntity_db:
  assumes "db_healthy (a_Database a)" "el_CanOpen (a_Ledger a)" "db_get (a_Database a) (row_ent_key x) = Some v"
    "\<And>old. ent_GetRow (a_Ledger a) (ev_LedgerPos v) old = (MC_ERR_NOERROR, r)"
  shows "ent_GetEntity a x = (True, r\<lparr>e_ChainPos := ev_ChainPos v\<rparr>)"
  using assms by (simp add: ent_GetEntity_def db_Read_healthy)

text \<open>The database after the block.\<close>

lemma block_entries:
  assumes inv: "ent_inv a rs" and ready: "pool_ready a"
    and db: "a_Database a' = (a_Database a)\<lparr>db_Store := store_batch (block_batch a rs) (db_Store (a_Database a)), db_Batch := []\<rparr>"
  defines "ps \<equiv> buf_rows (a_MemPool a)"
  shows "db_get (a_Database a') zero_ent_key = Some ((the (db_get (a_Database a) zero_ent_key))\<lparr>ev_Block := a_Block a + 1, ev_LedgerPos := last_pos (rows_after rs ps)\<rparr>)"
    and "i < length ps \<Longrightarrow> db_get (a_Database a') (row_ent_key (ps ! i)) = op_val (entry_of (ps ! i) (last_pos (rows_after rs (take (Suc i) ps))))"
    and "k \<noteq> zero_ent_key \<Longrightarrow> k \<notin> row_ent_key ` set ps \<Longrightarrow> db_get (a_Database a') k = db_get (a_Database a) k"
    and "store_ok (db_Store (a_Database a'))"
proof -
  have st: "store_ok (db_Store (a_Database a))" using inv by (simp add: ent_inv_def)
  hence g: "db_get (a_Database a') k = batch_val (block_batch a rs) k (db_get (a_Database a) k)" for k
    by (simp add: db db_get_def store_get_batch)
  let ?z = "Put zero_ent_key ((the (db_get (a_Database a) zero_ent_key))\<lparr>ev_Block := a_Block a + 1, ev_LedgerPos := last_pos (rows_after rs ps)\<rparr>)"
  have b: "block_batch a rs = entries_after rs ps @ [?z]" by (simp add: block_batch_def ps_def Let_def)
  have d: "distinct (map row_ent_key ps)" and r: "\<forall>p\<in>set ps. commit_ready p" using ready by (auto simp: pool_ready_def ps_def)
  show "db_get (a_Database a') zero_ent_key = Some ((the (db_get (a_Database a) zero_ent_key))\<lparr>ev_Block := a_Block a + 1, ev_LedgerPos := last_pos (rows_after rs ps)\<rparr>)"
    unfolding g b using batch_val_last[of ?z zero_ent_key "[]" "entries_after rs ps"] by simp
  show "db_get (a_Database a') (row_ent_key (ps ! i)) = op_val (entry_of (ps ! i) (last_pos (rows_after rs (take (Suc i) ps))))" if "i < length ps"
    unfolding g b using entry_found[OF d that] zero_key_other[OF nth_mem[OF that] r] by simp
  show "db_get (a_Database a') k = db_get (a_Database a) k" if "k \<noteq> zero_ent_key" "k \<notin> row_ent_key ` set ps"
  proof -
    have "op_key ` set (entries_after rs ps) = row_ent_key ` set ps" using arg_cong[OF entries_keys[of rs ps], of set] by simp
    thus ?thesis unfolding g b using that by (intro batch_val_other) auto
  qed
  show "store_ok (db_Store (a_Database a'))" using st by (simp add: db)
qed

text \<open>The row that an entry of the block leads to.\<close>

lemma entry_row:
  assumes "ps \<noteq> []" "is_txid (hd ps)" "rs \<noteq> []" "i < length ps"
  obtains j where "length rs \<le> j" "j < length (rows_after rs ps)"
    "last_pos (rows_after rs (take (Suc i) ps)) = pos_of (rows_after rs ps) j"
    "rows_after rs ps ! j = last (rows_after rs (take (Suc i) ps))"
proof -
  let ?r = "rows_after rs (take (Suc i) ps)"
  obtain e where e: "rows_after rs ps = ?r @ e" using rows_after_take by blast
  have "rows_after rs (take 1 ps) = place rs (hd ps)" using assms(1) by (cases ps) (simp_all add: rows_after_def)
  moreover obtain f where "?r = rows_after rs (take 1 (take (Suc i) ps)) @ f" using rows_after_take by blast
  ultimately have n: "length rs < length ?r" using assms(2) by (simp add: place_def min_def)
  hence "pos_of (rows_after rs ps) (length ?r - 1) = last_pos ?r" by (simp add: e last_pos_def)
  moreover have "rows_after rs ps ! (length ?r - 1) = last ?r" using n last_conv_nth[of ?r] length_greater_0_conv[of ?r] by (subst e, subst nth_append) (auto simp del: length_greater_0_conv)
  ultimately show thesis using n e by (intro that[of "length ?r - 1"]) simp_all
qed

lemma rows_after_block:
  "\<forall>p\<in>set ps. e_Block p \<le> b \<Longrightarrow> \<forall>r\<in>set (tl rs). e_Block r \<le> b \<Longrightarrow> rs \<noteq> [] \<Longrightarrow> rows_after rs ps \<noteq> [] \<and> (\<forall>r\<in>set (tl (rows_after rs ps)). e_Block r \<le> b)"
  by (induction ps rule: rev_induct) (auto simp: place_def placed_row_def)

lemma Commit_inv:
  assumes inv: "ent_inv a rs" and ready: "pool_ready a"
    and fits: "end_of (rows_after rs (buf_rows (a_MemPool a))) < 2 ^ 63" "i32_ok (a_Block a + 1)"
  defines "RS \<equiv> rows_after rs (buf_rows (a_MemPool a))"
  assumes a': "ledger_is (a_Ledger a') (new_first RS (a_Block a + 1))"
    "a_Database a' = (a_Database a)\<lparr>db_Store := store_batch (block_batch a rs) (db_Store (a_Database a)), db_Batch := []\<rparr>"
    "buf_rows (a_MemPool a') = []" "buf_ok row_ent_key (a_MemPool a')" "a_Block a' = a_Block a + 1" "a_PrevPos a' = last_pos RS" "a_Pos a' = end_of RS"
  shows "ent_inv a' (new_first RS (a_Block a + 1))"
proof -
  let ?ps = "buf_rows (a_MemPool a)" and ?N = "new_first RS (a_Block a + 1)"
  note es = block_entries[OF inv ready a'(2)]
  have rs: "rs \<noteq> []" using inv by (simp add: ent_inv_def)
  obtain ext where ext: "RS = rs @ ext" using rows_after_prefix by (metis RS_def)
  have RS: "RS \<noteq> []" using rs ext by simp
  note N = new_first_simps[OF RS, where b = "a_Block a + 1"]
  have old: "\<And>k v. k \<noteq> zero_ent_key \<Longrightarrow> db_get (a_Database a) k = Some v \<Longrightarrow> \<exists>i. 0 < i \<and> i < length rs \<and> ev_LedgerPos v = pos_of rs i"
    using inv by (auto simp: ent_inv_def)
  have at: "\<exists>i. 0 < i \<and> i < length ?N \<and> ev_LedgerPos v = pos_of ?N i" if k: "k \<noteq> zero_ent_key" and v: "db_get (a_Database a') k = Some v" for k v
  proof (cases "k \<in> row_ent_key ` set ?ps")
    case True
    then obtain i where i: "i < length ?ps" "k = row_ent_key (?ps ! i)" by (auto simp: in_set_conv_nth)
    have ne: "?ps \<noteq> []" using i by (metis length_0_conv less_nat_zero_code)
    moreover have "is_txid (hd ?ps)" using groups_ok_first[of ?ps] ne inv by (simp add: ent_inv_def ent_ok_def)
    ultimately obtain j where j: "length rs \<le> j" "j < length RS" "last_pos (rows_after rs (take (Suc i) ?ps)) = pos_of RS j"
      using entry_row[OF _ _ rs i(1)] unfolding RS_def by blast
    have "0 < j" using j(1) rs by (cases j) auto
    thus ?thesis using es(2)[OF i(1)] v i(2) j N by (intro exI[of _ j]) (auto simp: entry_of_def)
  next
    case False
    hence "db_get (a_Database a) k = Some v" using es(3)[OF k] v by simp
    then obtain i where "0 < i" "i < length rs" "ev_LedgerPos v = pos_of rs i" using old[OF k] by blast
    thus ?thesis unfolding N(1) N(4) using ext by (intro exI[of _ i]) simp
  qed
  have z: "\<exists>v. db_get (a_Database a') zero_ent_key = Some v \<and> ev_Block v = a_Block a' \<and> ev_LedgerPos v = last_pos ?N"
    using es(1) N a' by (simp add: RS_def)
  have "fst (ent_GetRow (a_Ledger a') (ev_LedgerPos v) zero_ent_row) = MC_ERR_NOERROR" if v: "db_get (a_Database a') k = Some v" for k v
  proof (cases "k = zero_ent_key")
    case True
    hence "ev_LedgerPos v = pos_of ?N (length ?N - 1)" using z that by (auto simp: last_pos_def)
    thus ?thesis using ledger_read[OF a'(1), of "length ?N - 1"] N(6) by simp
  next
    case False
    obtain i where i: "i < length ?N" "ev_LedgerPos v = pos_of ?N i" using at[OF False v] by blast
    show ?thesis unfolding i(2) ledger_read[OF a'(1) i(1)] by simp
  qed
  moreover have "db_healthy (a_Database a')" using inv by (simp add: a'(2) ent_inv_def ent_ok_def)
  moreover have "el_CanOpen (a_Ledger a')" using a'(1) by (simp add: ledger_is_def)
  ultimately have ok': "ent_ok a'" using a'(3,4) by (simp add: ent_ok_def groups_ok_def)
  have hd: "e_ScriptSize (hd ?N) = 0" "e_PrevPos (hd ?N) = last_pos RS" "e_Block (hd ?N) = a_Block a + 1"
    using inv ext rs by (simp_all add: new_first_def ent_inv_def)
  have "\<forall>r\<in>set (tl RS). e_Block r \<le> a_Block a + 1"
    using rows_after_block[of ?ps "a_Block a + 1" rs] inv ready unfolding RS_def ent_inv_def pool_ready_def by fastforce
  hence "\<forall>r\<in>set (tl ?N). e_Block r \<le> a_Block a'" using a' by (simp add: new_first_def)
  thus ?thesis unfolding ent_inv_def using ok' hd a' N(2,3,6) es(4) z at by simp
qed

section \<open>Starting again\<close>

lemma row_end_size: "e_ScriptSize r \<le> 8192 \<Longrightarrow> row_end pos r = pos + row_size r"
  using div_add_self2[of "96 :: int" "int (e_ScriptSize r) - 1"]
  by (simp add: row_end_def row_size_def to_i32_small mc_AllocSize_def add.commute)

lemma row_end_pos:
  assumes "ledger_is el rs" "i < length rs"
  shows "row_end (pos_of rs i) (rs ! i) = pos_of rs (Suc i)"
proof -
  have "ledger_row_ok (rs ! i)" using assms by (auto simp: ledger_is_def)
  thus ?thesis using assms(2) by (simp add: row_end_size pos_of_Suc ledger_row_ok_def)
qed

lemma GetSize_end:
  assumes "ledger_is el rs" "rs \<noteq> []" "e_PrevPos (hd rs) = last_pos rs"
  shows "ent_GetSize el = end_of rs"
proof -
  have "ent_GetRow el 0 old = (MC_ERR_NOERROR, hd rs)" for old using ledger_read[OF assms(1), of 0 old] assms(2) by (simp add: hd_conv_nth)
  moreover have "ent_GetRow el (last_pos rs) old = (MC_ERR_NOERROR, rs ! (length rs - 1))" for old
    using ledger_read[OF assms(1), of "length rs - 1" old] assms(2) by (simp add: last_pos_def)
  moreover have "row_end (last_pos rs) (rs ! (length rs - 1)) = end_of rs"
    using row_end_pos[OF assms(1), of "length rs - 1"] assms(2) by (simp add: last_pos_def end_of_def)
  ultimately show ?thesis using assms(1,3) by (simp add: ent_GetSize_def ledger_is_def Let_def)
qed

text \<open>The height and the position that the database has, and the first row of the ledger.\<close>

lemma Initialize_reads:
  fixes mem :: "nat \<Rightarrow> ent_row"
  assumes db: "db_healthy db" "db_get db zero_ent_key = Some v" "ev_Block v = b" "ev_LedgerPos v = pos_of rs i"
    and el: "ledger_is el rs" "i < length rs" "e_PrevPos (hd rs) = last_pos rs"
  defines "a \<equiv> (zero_asset_db db el mem)\<lparr>a_Block := b, a_PrevPos := pos_of rs i, a_Pos := pos_of rs (Suc i)\<rparr>"
  shows "ent_Initialize db el mem MC_ERR_NOERROR =
    (if pos_of rs (Suc i) \<noteq> end_of rs then Some (MC_ERR_CORRUPTED, a)
     else if b < e_Block (hd rs)
     then case ent_repair_loop (length (el_File el) + 2) el b (last_pos rs) (rs ! i) of None \<Rightarrow> None
       | Some this_pos \<Rightarrow> Some (if pos_of rs i \<noteq> this_pos then MC_ERR_CORRUPTED else MC_ERR_NOERROR,
           a\<lparr>a_Ledger := write_zero_row el b (pos_of rs i) (rs ! i)\<rparr>)
     else Some (if b \<noteq> e_Block (hd rs) then MC_ERR_CORRUPTED else if pos_of rs i \<noteq> last_pos rs then MC_ERR_CORRUPTED else MC_ERR_NOERROR, a))"
proof -
  have ne: "rs \<noteq> []" using el by auto
  have "ent_GetRow el 0 old = (MC_ERR_NOERROR, hd rs)" for old using ledger_read[OF el(1), of 0 old] ne by (simp add: hd_conv_nth)
  moreover have "ent_GetRow el (pos_of rs i) old = (MC_ERR_NOERROR, rs ! i)" for old by (rule ledger_read[OF el(1,2)])
  ultimately show ?thesis
    using db el row_end_pos[OF el(1,2)] GetSize_end[OF el(1) ne el(3)]
    by (simp add: ent_Initialize_def ent_init_database_def db_Read_healthy ledger_is_def Let_def zero_asset_db_def a_def
        del: ent_repair_loop.simps cong: option.case_cong)
qed

lemma pos_of_strict: "i < j \<Longrightarrow> j \<le> length rs \<Longrightarrow> pos_of rs i < pos_of rs j"
proof -
  assume "i < j" "j \<le> length rs"
  hence "pos_of rs i < pos_of rs (Suc i)" "pos_of rs (Suc i) \<le> pos_of rs j"
    using row_size_pos[of "rs ! i"] pos_of_mono[of "Suc i" j rs] by (auto simp: pos_of_Suc)
  thus ?thesis by simp
qed

text \<open>A state read from disk agrees with a state in memory, but for the pool.\<close>

definition same_disk_state :: "mc_AssetDB \<Rightarrow> mc_AssetDB \<Rightarrow> bool" where
  "same_disk_state s a \<longleftrightarrow> a_Database s = a_Database a \<and> a_Block s = a_Block a \<and> a_PrevPos s = a_PrevPos a \<and> a_Pos s = a_Pos a \<and>
     buf_rows (a_MemPool s) = []"

lemma Initialize_clean:
  assumes "ent_inv a rs"
  shows "\<exists>s. ent_Initialize (a_Database a) (a_Ledger a) mem MC_ERR_NOERROR = Some (MC_ERR_NOERROR, s) \<and> same_disk_state s a \<and> a_Ledger s = a_Ledger a"
proof -
  obtain v where v: "db_get (a_Database a) zero_ent_key = Some v" "ev_Block v = a_Block a" "ev_LedgerPos v = pos_of rs (length rs - 1)"
    using assms by (auto simp: ent_inv_def last_pos_def)
  show ?thesis
    using assms Initialize_reads[of "a_Database a" v "a_Block a" rs "length rs - 1" "a_Ledger a" mem] v
    by (simp add: ent_inv_def ent_ok_def last_pos_def end_of_def same_disk_state_def zero_asset_db_def buf_simps)
qed

text \<open>The ledger of a block that has been written with the database of the block before.\<close>

lemma Initialize_crash:
  assumes inv: "ent_inv a rs" and el: "ledger_is el (new_first (rs @ ext) (a_Block a + 1))"
  shows "\<exists>s. ent_Initialize (a_Database a) el mem MC_ERR_NOERROR = Some (if ext = [] then MC_ERR_NOERROR else MC_ERR_CORRUPTED, s) \<and>
    (ext = [] \<longrightarrow> same_disk_state s a \<and> (i32_ok (a_Block a) \<longrightarrow> end_of rs < 2 ^ 63 \<longrightarrow> ledger_is (a_Ledger s) rs))"
proof -
  let ?RS = "rs @ ext" and ?i = "length rs - 1"
  let ?N = "new_first ?RS (a_Block a + 1)"
  obtain v where v: "db_get (a_Database a) zero_ent_key = Some v" "ev_Block v = a_Block a" "ev_LedgerPos v = last_pos rs"
    using inv by (auto simp: ent_inv_def)
  have ne: "rs \<noteq> []" and h: "db_healthy (a_Database a)" and zero: "e_PrevPos (hd rs) = last_pos rs" "e_Block (hd rs) = a_Block a"
    and bl: "\<forall>r\<in>set (tl rs). e_Block r \<le> a_Block a" and pos: "a_PrevPos a = last_pos rs" "a_Pos a = end_of rs"
    using inv by (auto simp: ent_inv_def ent_ok_def)
  hence RS: "?RS \<noteq> []" by simp
  note N = new_first_simps[OF RS, where b = "a_Block a + 1"]
  have p: "pos_of ?N ?i = last_pos rs" "pos_of ?N (Suc ?i) = end_of rs" unfolding N(1) using ne by (simp_all add: last_pos_def end_of_def)
  have hd: "e_PrevPos (hd ?N) = last_pos ?N" "e_Block (hd ?N) = a_Block a + 1" unfolding N(2) by (simp_all add: new_first_def)
  have l: "ev_LedgerPos v = pos_of ?N ?i" "?i < length ?N" unfolding N(4) using v(3) p ne by (simp_all add: Suc_le_eq flip: length_greater_0_conv)
  note init = Initialize_reads[OF h v(1,2) l(1) el l(2) hd(1), of mem, unfolded p hd(2)]
  show ?thesis
  proof (cases ext)
    case (Cons r ext')
    have "end_of ?N = end_of rs + end_of ext" unfolding N(3) by (rule end_of_append)
    moreover have "0 < end_of ext" using last_pos_less[of ext] Cons by auto
    ultimately have "end_of rs \<noteq> end_of ?N" by simp
    thus ?thesis unfolding init using Cons by simp
  next
    case Nil
    have e: "end_of ?N = end_of rs" "last_pos ?N = last_pos rs" unfolding N(2,3) using Nil by simp_all
    have "ent_repair_loop (length (el_File el) + 2) el (a_Block a) (last_pos rs) (?N ! ?i) = Some (last_pos rs)"
    proof (cases "?i = 0")
      case True thus ?thesis by (simp add: last_pos_def)
    next
      case False
      hence i: "?N ! ?i = rs ! ?i" "?i < length rs" using N(5)[of ?i] ne Nil by simp_all
      have "rs ! ?i \<in> set (tl rs)" using False i(2) by (cases rs) (auto simp: nth_Cons')
      hence "e_Block (rs ! ?i) \<le> a_Block a" using bl by blast
      moreover have "ent_GetRow el (last_pos rs) old = (MC_ERR_NOERROR, rs ! ?i)" for old
        using ledger_read[OF el l(2), of old] i(1) p(1) by simp
      ultimately show ?thesis using i(2) by simp
    qed
    moreover have "ledger_is (write_zero_row el (a_Block a) (last_pos rs) row) rs" if "i32_ok (a_Block a)" "end_of rs < 2 ^ 63" for row
    proof -
      have "ledger_is (write_zero_row el (a_Block a) (last_pos ?N) row) (new_first ?N (a_Block a))"
        by (rule zero_row_written[OF el N(6) that(1)]) (use e that in simp)
      moreover have "new_first ?N (a_Block a) = rs"
        using ne zero e(2) Nil by (cases rs) (simp_all add: new_first_def)
      ultimately show ?thesis using e(2) by simp
    qed
    ultimately show ?thesis unfolding init e using Nil pos by (simp add: same_disk_state_def zero_asset_db_def buf_simps)
  qed
qed
section \<open>What InsertAsset enters\<close>

lemma InsertAsset_inv:
  assumes inv: "ent_inv a rs" and ins: "InsertAsset np a txid offset quantity name multiple script special update = Some (err, a')"
  shows "ent_inv a' rs"
proof -
  have ok: "ent_ok a" using inv by (simp add: ent_inv_def)
  obtain row where "insert_keys np a row update = (err, a')" using ins by (auto simp: InsertAsset_def Let_def split: if_splits)
  hence "a' = a \<or> a' = a\<lparr>a_MemPool := add_keys (entity_keys (details_Set np row)) row (a_MemPool a)\<rparr>"
    by (auto simp: insert_keys_cases[OF ok] split: if_splits)
  thus ?thesis using inv ent_ok_add[OF ok] by (auto simp: ent_inv_def)
qed


lemma length_chunked: "length (chunked bs) = nat (mc_AllocSize (int (length bs)) 96 1)"
proof -
  have "x \<le> ((x - 1) div 96 + 1) * 96" for x :: int
    using mult_div_mod_eq[of 96 "x - 1"] pos_mod_bound[of 96 "x - 1"] unfolding distrib_right by linarith
  hence "int (length bs) \<le> mc_AllocSize (int (length bs)) 96 1" by (simp add: mc_AllocSize_def)
  thus ?thesis by (simp add: chunked_def)
qed

text \<open>What \<open>InsertAsset\<close> enters can be committed.\<close>

lemma InsertAsset_ready:
  assumes inv: "ent_inv a rs" and ready: "pool_ready a"
    and ins: "InsertAsset np a txid offset quantity name multiple script special update = Some (MC_ERR_NOERROR, a')"
    and arg: "length txid = 32" "0 \<le> offset" "i32_ok offset" "i64_ok quantity" "i32_ok (a_Block a + 1)" "int (buf_GetCount (a_MemPool a)) < 2 ^ 62"
  shows "pool_ready a'"
proof -
  have ok: "ent_ok a" using inv by (simp add: ent_inv_def)
  define row where "row = with_script (asset_details np name multiple script special) script
    (new_ent_row a txid MC_ENT_KEYTYPE_TXID offset quantity MC_ENT_TYPE_ASSET (- (int (buf_GetCount (a_MemPool a)) + 1)) 0)"
  let ?ks = "entity_keys (details_Set np row)"
  have "row_fits np row" and "insert_keys np a row update = (MC_ERR_NOERROR, a')"
    using ins unfolding InsertAsset_def Let_def row_def[symmetric] by (auto split: if_splits)
  hence fits: "e_ScriptSize row \<le> 8192" and new: "\<And>k t. (k, t) \<in> set ?ks \<Longrightarrow> \<not> known a (ent_key k t)"
    and a': "a' = (if update then a\<lparr>a_MemPool := add_keys ?ks row (a_MemPool a)\<rparr> else a)"
    by (auto simp: insert_keys_cases[OF ok] row_fits_def split: if_splits)
  have row: "ledger_row_ok row" "0 \<le> e_Offset row" "e_FirstPos row < 0" "e_ChainPos row < 0" "e_KeyType row = MC_ENT_KEYTYPE_TXID"
    "e_Block row = a_Block a + 1"
    using arg fits by (auto simp: row_def with_script_def new_ent_row_def Let_def ledger_row_ok_def zero_ent_row_def length_chunked i64_ok_def i32_ok_def)
  obtain rest where r: "?ks = (e_Key row, MC_ENT_KEYTYPE_TXID) # rest"
      "\<And>k t. (k, t) \<in> set rest \<Longrightarrow> t \<in> {MC_ENT_KEYTYPE_REF, MC_ENT_KEYTYPE_NAME, MC_ENT_KEYTYPE_SHORT_TXID}"
    and dist: "distinct (map snd ?ks)"
    by (rule entity_keys_shape[of "details_Set np row"]) auto
  have self: "with_key row (e_Key row, MC_ENT_KEYTYPE_TXID) = row" using row(5) by simp
  have "commit_ready row" using row by (simp add: commit_ready_def)
  hence "commit_ready (with_key row kt)" if m: "kt \<in> set ?ks" for kt
  proof (cases "kt = (e_Key row, MC_ENT_KEYTYPE_TXID)")
    case False
    then obtain k t where kt: "kt = (k, t)" "(k, t) \<in> set rest" using m r(1) by (cases kt) auto
    have "t \<in> {MC_ENT_KEYTYPE_REF, MC_ENT_KEYTYPE_NAME, MC_ENT_KEYTYPE_SHORT_TXID}" by (rule r(2)[OF kt(2)])
    thus ?thesis by (auto simp: kt(1) commit_ready_def is_txid_def)
  qed (use \<open>commit_ready row\<close> self in simp)
  moreover have "distinct (map row_ent_key (map (with_key row) ?ks))"
    using dist by (auto simp: distinct_map inj_on_def comp_def)
  moreover have "row_ent_key p \<noteq> ent_key k t" if "p \<in> set (buf_rows (a_MemPool a))" "(k, t) \<in> set ?ks" for p k t
    using new[OF that(2)] that(1) by (metis image_eqI known_def)
  moreover have "db_get (a_Database a) (row_ent_key (with_key row kt)) = None" if "kt \<in> set ?ks" for kt
    using new that by (cases kt) (auto simp: known_def)
  ultimately show ?thesis using ready row(6) a' by (auto simp: pool_ready_def buf_rows_add_keys)
qed

end
