(* ===== verification/Entity_Theorems.thy ===== *)
theory Entity_Theorems
  imports Perm_Examples Entity_Chain
begin

text \<open>
  The properties of the entity database, and an example: an empty database, and the one with an asset in the memory pool.
\<close>

section \<open>Names, references and look-ups\<close>

lemma lower_char_idem [simp]: "lower_char (lower_char c) = lower_char c"
proof -
  have "\<forall>c :: u8. lower_char (lower_char c) = lower_char c"
    unfolding lower_char_def by (auto simp: word_less_nat_alt unat_word_ariths)
  thus ?thesis by blast
qed



lemma length_d_Name: "length (d_Name (details_Set np row)) = 38"
  by (simp add: details_Set_def details_name_def mc_StringLowerCase_def Let_def min_def split: prod.splits)


lemma length_entity_ref [simp]: "length (entity_ref row) = 10"
  by (simp add: entity_ref_def put_i32_def)





lemma d_Name_lower: "map lower_char (d_Name (details_Set np row)) = d_Name (details_Set np row)"
  by (simp add: details_Set_def details_name_def mc_StringLowerCase_def Let_def take_map lower_char_def[of 0] comp_def split: prod.splits)

section \<open>An example\<close>

definition ex_first :: ent_row where
  "ex_first = zero_ent_row\<lparr>e_Block := -1\<rparr>"

definition ex_entities :: mc_AssetDB where
  "ex_entities = \<lparr>a_Database = \<lparr>db_Open = True, db_Store = [(zero_ent_key, zero_ent_val\<lparr>ev_Block := -1\<rparr>)], db_Batch = [],
       db_GetErr = False, db_PutErr = False, db_CommitErr = False\<rparr>,
     a_Ledger = \<lparr>el_CanOpen = True, el_File = row_bytes ex_first\<rparr>,
     a_MemPool = buf_Initialize (\<lambda>_. zero_ent_row) True, a_Block = -1, a_PrevPos = 0, a_Pos = 96\<rparr>"


lemma ex_first_ok: "ledger_row_ok ex_first" "row_size ex_first = 96"
  by (simp_all add: ledger_row_ok_def ex_first_def zero_ent_row_def i32_ok_def i64_ok_def mc_AllocSize_def row_size_def)








section \<open>The ledger file\<close>

text \<open>
  C37. A row whose members have their width, and whose script fills its last chunk, is read back as it was written at any
  position of the file; every row that could be read and that lies before the row written or behind it is read as before.
\<close>

theorem ledger_row_roundtrip:
  assumes "ledger_row_ok r" "el_CanOpen el" "0 \<le> pos"
  shows "ent_GetRow (snd (ent_SetRow el pos r)) pos old = (MC_ERR_NOERROR, r) \<and>
    (\<forall>q s. ent_GetRow el q old = (MC_ERR_NOERROR, s) \<and> (q + int (row_length s) \<le> pos \<or> pos + fst (ent_SetRow el pos r) \<le> q) \<longrightarrow>
       ent_GetRow (snd (ent_SetRow el pos r)) q old = (MC_ERR_NOERROR, s))"
proof (intro conjI allI impI)
  fix q s
  assume "ent_GetRow el q old = (MC_ERR_NOERROR, s) \<and> (q + int (row_length s) \<le> pos \<or> pos + fst (ent_SetRow el pos r) \<le> q)"
  thus "ent_GetRow (snd (ent_SetRow el pos r)) q old = (MC_ERR_NOERROR, s)"
    using SetRow_ok[OF assms] by (intro GetRow_SetRow_other[OF _ assms(1,3)]) auto
qed (rule GetRow_SetRow[OF assms])

theorem ledger_row_roundtrip_witness:
  "ent_GetRow (snd (ent_SetRow (a_Ledger ex_entities) 96 ex_first)) 96 zero_ent_row = (MC_ERR_NOERROR, ex_first)"
  using ledger_row_roundtrip[OF ex_first_ok(1), of "a_Ledger ex_entities" 96 zero_ent_row] by (simp add: ex_entities_def)

section \<open>Entering an asset\<close>




section \<open>Commit\<close>






section \<open>Restart\<close>



end
