(* ===== verification/Hash_Core.thy ===== *)
theory Hash_Core
  imports Byte_Codec
begin

text \<open>
  What the hash functions of \<^verbatim>\<open>src/src/crypto\<close> share: big- and little-endian words of \<^verbatim>\<open>common.h\<close>, the hasher that collects
  bytes in a block buffer (\<open>Write\<close>, the same text in every class) and the padding of \<open>Finalize\<close>. The state has the words
  \<open>s\<close>, the bytes of the buffer that are in use, and the number of bytes written, whose size modulo \<open>2 ^ 64\<close> is all that
  matters. The locale \<open>streaming_hash\<close> states what the users of a hasher rely on.
\<close>

unbundle bit_operations_syntax

section \<open>Words and bytes\<close>

definition ReadBE :: "u8 list \<Rightarrow> 'w::len word" where
  "ReadBE p = foldl (\<lambda>x b. push_bit 8 x OR ucast b) 0 p"

definition WriteBE :: "nat \<Rightarrow> 'w::len word \<Rightarrow> u8 list" where
  "WriteBE n x = map (\<lambda>i. ucast (drop_bit (8 * (n - 1 - i)) x)) [0..<n]"

definition ReadLE32 :: "u8 list \<Rightarrow> u32" where
  "ReadLE32 p = ReadBE (rev p)"

definition WriteLE32 :: "u32 \<Rightarrow> u8 list" where
  "WriteLE32 x = mc_PutLE 4 x"

definition WriteLE64 :: "u64 \<Rightarrow> u8 list" where
  "WriteLE64 x = mc_PutLE 8 x"

text \<open>A chunk as words of \<open>n\<close> bytes.\<close>

definition chunk_words :: "nat \<Rightarrow> (u8 list \<Rightarrow> 'w) \<Rightarrow> u8 list \<Rightarrow> 'w list" where
  "chunk_words n rd chunk = map (\<lambda>i. rd (take n (drop (n * i) chunk))) [0..<16]"

definition rotr :: "nat \<Rightarrow> 'w::len word \<Rightarrow> 'w word" where
  "rotr n x = drop_bit n x OR push_bit (LENGTH('w) - n) x"

definition rotl :: "nat \<Rightarrow> 'w::len word \<Rightarrow> 'w word" where
  "rotl n x = push_bit n x OR drop_bit (LENGTH('w) - n) x"

section \<open>The hasher\<close>

record 'w hasher =
  h_s :: "'w list"
  h_buf :: "u8 list"
  h_bytes :: nat

definition hash_start :: "'w list \<Rightarrow> 'w hasher" where
  "hash_start init = \<lparr>h_s = init, h_buf = [], h_bytes = 0\<rparr>"

text \<open>Full chunks directly from the source.\<close>

function hash_chunks :: "('w list \<Rightarrow> u8 list \<Rightarrow> 'w list) \<Rightarrow> nat \<Rightarrow> u8 list \<Rightarrow> 'w hasher \<Rightarrow> u8 list \<times> 'w hasher" where
  "hash_chunks transform n data h =
    (if 0 < n \<and> n \<le> length data
     then hash_chunks transform n (drop n data) (h\<lparr>h_s := transform (h_s h) (take n data), h_bytes := h_bytes h + n\<rparr>)
     else (data, h))"
  by pat_completeness auto
termination
  by (relation "measure (\<lambda>(transform, n, data, h). length data)") auto

declare hash_chunks.simps [simp del]

definition hash_Write :: "('w list \<Rightarrow> u8 list \<Rightarrow> 'w list) \<Rightarrow> nat \<Rightarrow> u8 list \<Rightarrow> 'w hasher \<Rightarrow> 'w hasher" where
  "hash_Write transform n data h =
    (let bufsize = h_bytes h mod n;
         (data, h) =
           (if bufsize \<noteq> 0 \<and> bufsize + length data \<ge> n
            then (drop (n - bufsize) data,
              h\<lparr>h_s := transform (h_s h) (take bufsize (h_buf h) @ take (n - bufsize) data), h_buf := [], h_bytes := h_bytes h + (n - bufsize)\<rparr>)
            else (data, h));
         (data, h) = hash_chunks transform n data h
     in if data \<noteq> [] then h\<lparr>h_buf := take (h_bytes h mod n) (h_buf h) @ data, h_bytes := h_bytes h + length data\<rparr> else h)"

text \<open>The padding: a bit, zeros, and the number of bits in the last bytes of a block.\<close>

definition hash_pad :: "('w list \<Rightarrow> u8 list \<Rightarrow> 'w list) \<Rightarrow> nat \<Rightarrow> (u64 \<Rightarrow> u8 list) \<Rightarrow> 'w hasher \<Rightarrow> 'w hasher" where
  "hash_pad transform n sizedesc h =
    (let desc = sizedesc (push_bit 3 (of_nat (h_bytes h)));
         h' = hash_Write transform n (take (1 + (2 * n - 1 - length desc - h_bytes h mod n) mod n) (0x80 # replicate (n - 1) 0)) h
     in hash_Write transform n desc h')"

section \<open>What has been written\<close>

text \<open>The words after the full blocks of the bytes.\<close>

definition blocks_of :: "nat \<Rightarrow> u8 list \<Rightarrow> u8 list list" where
  "blocks_of n data = map (\<lambda>i. take n (drop (n * i) data)) [0..<length data div n]"

definition written :: "('w list \<Rightarrow> u8 list \<Rightarrow> 'w list) \<Rightarrow> nat \<Rightarrow> 'w list \<Rightarrow> u8 list \<Rightarrow> 'w hasher" where
  "written transform n init data =
    \<lparr>h_s = foldl transform init (blocks_of n data), h_buf = drop (n * (length data div n)) data, h_bytes = length data\<rparr>"

lemma blocks_of_step:
  assumes "0 < n" "n \<le> length data"
  shows "blocks_of n data = take n data # blocks_of n (drop n data)"
proof -
  have q: "length data div n = Suc ((length data - n) div n)" using assms by (simp add: le_div_geq)
  show ?thesis
    unfolding blocks_of_def q length_drop upt_conv_Cons[OF zero_less_Suc] list.map
    by (simp add: map_Suc_upt[symmetric] comp_def add.commute del: upt_Suc)
qed

lemma blocks_of_short: "length data < n \<Longrightarrow> blocks_of n data = []"
  by (simp add: blocks_of_def)

lemma blocks_of_append: "0 < n \<Longrightarrow> n dvd length a \<Longrightarrow> blocks_of n (a @ b) = blocks_of n a @ blocks_of n b"
proof (induction "length a div n" arbitrary: a)
  case 0
  hence "a = []" by (auto simp: dvd_div_eq_0_iff)
  thus ?case using 0 by (simp add: blocks_of_short)
next
  case (Suc k)
  hence l: "n \<le> length a" by (metis Suc.hyps(2) div_less nat.distinct(1) not_less)
  have "blocks_of n (drop n a @ b) = blocks_of n (drop n a) @ blocks_of n b"
  proof (rule Suc.hyps(1))
    show "k = length (drop n a) div n" using Suc.hyps(2) Suc.prems(1) l by (simp add: le_div_geq)
    show "n dvd length (drop n a)" using Suc.prems l by (simp add: dvd_diff_nat)
  qed (rule Suc.prems(1))
  thus ?case using l Suc.prems(1) blocks_of_step[of n a] blocks_of_step[of n "a @ b"] by simp
qed

lemma hash_chunks_result:
  assumes "0 < n"
  shows "hash_chunks transform n data h = (drop (n * (length data div n)) data,
    h\<lparr>h_s := foldl transform (h_s h) (blocks_of n data), h_bytes := h_bytes h + n * (length data div n)\<rparr>)"
  using assms
proof (induction transform n data h rule: hash_chunks.induct)
  case (1 transform n data h)
  show ?case
  proof (cases "n \<le> length data")
    case True
    have q: "length data div n = Suc ((length data - n) div n)" using True 1(2) by (simp add: le_div_geq)
    show ?thesis
      using 1 True blocks_of_step[OF 1(2) True] by (subst hash_chunks.simps) (simp add: q algebra_simps)
  next
    case False
    thus ?thesis by (subst hash_chunks.simps) (simp add: blocks_of_short)
  qed
qed

lemma written_split:
  assumes "0 < n" "length d1 = n * k" "length d2 < n"
  shows "written transform n init (d1 @ d2) = \<lparr>h_s = foldl transform init (blocks_of n d1), h_buf = d2, h_bytes = n * k + length d2\<rparr>"
proof -
  have "length (d1 @ d2) div n = k" using assms by simp
  thus ?thesis using assms blocks_of_append[of n d1 d2] by (simp add: written_def blocks_of_short)
qed

text \<open>Writing bytes in pieces is writing their concatenation.\<close>

lemma hash_Write_written:
  assumes n: "0 < n"
  shows "hash_Write transform n e (written transform n init d) = written transform n init (d @ e)"
proof -
  define k where "k = length d div n"
  define d1 where "d1 = take (n * k) d"
  define d2 where "d2 = drop (n * k) d"
  have d: "d = d1 @ d2" by (simp add: d1_def d2_def)
  have l1: "length d1 = n * k" by (simp add: d1_def k_def)
  have "length d2 = length d mod n" by (simp add: d2_def k_def minus_mult_div_eq_mod)
  hence l2: "length d2 < n" using n by simp
  have w: "written transform n init d = \<lparr>h_s = foldl transform init (blocks_of n d1), h_buf = d2, h_bytes = n * k + length d2\<rparr>"
    unfolding d by (rule written_split[OF n l1 l2])
  have chunks: "written transform n init (x @ g) = (case hash_chunks transform n g \<lparr>h_s = foldl transform init (blocks_of n x), h_buf = [], h_bytes = length x\<rparr> of
      (rest, h) \<Rightarrow> h\<lparr>h_buf := rest, h_bytes := h_bytes h + length rest\<rparr>)" if x: "n dvd length x" for x g
  proof -
    obtain j where j: "length x = n * j" using x by blast
    let ?g1 = "take (n * (length g div n)) g" and ?g2 = "drop (n * (length g div n)) g"
    have g: "x @ g = (x @ ?g1) @ ?g2" by simp
    have "length (x @ ?g1) = n * (j + length g div n)" by (simp add: j algebra_simps)
    moreover have g2: "length ?g2 = length g mod n" by (simp add: minus_mult_div_eq_mod)
    hence "length ?g2 < n" using n by simp
    moreover have "blocks_of n g = blocks_of n ?g1"
      using blocks_of_append[OF n, of ?g1 ?g2] \<open>length ?g2 < n\<close> by (simp add: blocks_of_short)
    ultimately show ?thesis
      unfolding g using blocks_of_append[OF n x, of ?g1]
      by (subst written_split[OF n, of _ "j + length g div n"]) (simp_all add: hash_chunks_result[OF n] j algebra_simps)
  qed
  show ?thesis
  proof (cases "length d2 \<noteq> 0 \<and> length d2 + length e \<ge> n")
    case True
    define f where "f = take (n - length d2) e"
    define g where "g = drop (n - length d2) e"
    have lf: "length d2 + length f = n" using True l2 by (auto simp: f_def)
    let ?x = "d1 @ d2 @ f"
    have lx: "length ?x = n * k + n" using lf l1 by simp
    have deg: "d @ e = ?x @ g" by (simp add: d f_def g_def)
    have "blocks_of n ?x = blocks_of n d1 @ [d2 @ f]"
      using blocks_of_append[OF n, of d1 "d2 @ f"] l1 lf blocks_of_step[OF n, of "d2 @ f"]
      by (simp add: blocks_of_short n)
    hence x: "foldl transform init (blocks_of n ?x) = transform (foldl transform init (blocks_of n d1)) (d2 @ f)" by simp
    have "hash_Write transform n e (written transform n init d) =
      (case hash_chunks transform n g \<lparr>h_s = transform (foldl transform init (blocks_of n d1)) (d2 @ f), h_buf = [], h_bytes = n * k + n\<rparr> of
        (rest, h) \<Rightarrow> if rest \<noteq> [] then h\<lparr>h_buf := take (h_bytes h mod n) (h_buf h) @ rest, h_bytes := h_bytes h + length rest\<rparr> else h)"
      using True l2 unfolding w hash_Write_def by (simp add: Let_def f_def[symmetric] g_def[symmetric] split_beta)
    also have "\<dots> = (case hash_chunks transform n g \<lparr>h_s = foldl transform init (blocks_of n ?x), h_buf = [], h_bytes = length ?x\<rparr> of
      (rest, h) \<Rightarrow> h\<lparr>h_buf := rest, h_bytes := h_bytes h + length rest\<rparr>)"
      unfolding x lx hash_chunks_result[OF n] by (auto intro: antisym)
    also have "\<dots> = written transform n init (?x @ g)"
      by (rule chunks[symmetric]) (simp add: lx del: length_append)
    finally show ?thesis by (simp only: deg)
  next
    case False
    show ?thesis
    proof (cases "d2 = []")
      case True
      hence w0: "written transform n init d = \<lparr>h_s = foldl transform init (blocks_of n d1), h_buf = [], h_bytes = n * k\<rparr>"
        and d0: "d = d1" using w d by simp_all
      have "written transform n init (d1 @ e) = hash_Write transform n e (written transform n init d)"
        unfolding w0 chunks[of d1 e, unfolded l1, OF dvd_triv_left] hash_Write_def
        by (auto simp: Let_def hash_chunks_result[OF n] intro: antisym)
      thus ?thesis by (simp add: d0)
    next
      case d2: False
      hence e: "length d2 + length e < n" using False by simp
      hence "hash_chunks transform n e h = (e, h)" for h by (simp add: hash_chunks_result[OF n] blocks_of_short)
      moreover have "written transform n init (d @ e) = \<lparr>h_s = foldl transform init (blocks_of n d1), h_buf = d2 @ e, h_bytes = n * k + length (d2 @ e)\<rparr>"
        unfolding d append_assoc by (rule written_split[OF n l1]) (use e in simp)
      ultimately show ?thesis using d2 e l2 False by (simp add: w hash_Write_def Let_def)
    qed
  qed
qed

text \<open>The bytes that \<open>Finalize\<close> adds.\<close>

definition padding :: "nat \<Rightarrow> (u64 \<Rightarrow> u8 list) \<Rightarrow> nat \<Rightarrow> u8 list" where
  "padding n sizedesc len =
    (let desc = sizedesc (push_bit 3 (of_nat len)) in 0x80 # replicate ((2 * n - 1 - length desc - len mod n) mod n) 0 @ desc)"

lemma hash_pad_written:
  assumes "0 < n"
  shows "hash_pad transform n sizedesc (written transform n init d) = written transform n init (d @ padding n sizedesc (length d))"
proof -
  let ?l = "(2 * n - 1 - length (sizedesc (push_bit 3 (of_nat (length d)))) - length d mod n) mod n"
  have "?l \<le> n - 1" using mod_less_divisor[OF assms, of "2 * n - 1 - length (sizedesc (push_bit 3 (of_nat (length d)))) - length d mod n"] by linarith
  moreover have "h_bytes (written transform n init d) = length d" by (simp add: written_def)
  ultimately show ?thesis
    by (simp add: hash_pad_def Let_def hash_Write_written[OF assms] padding_def min_def)
qed

text \<open>The words that are the result: those after the blocks of the padded bytes.\<close>

definition hash_words :: "('w list \<Rightarrow> u8 list \<Rightarrow> 'w list) \<Rightarrow> nat \<Rightarrow> (u64 \<Rightarrow> u8 list) \<Rightarrow> 'w list \<Rightarrow> u8 list \<Rightarrow> 'w list" where
  "hash_words transform n sizedesc init d = foldl transform init (blocks_of n (d @ padding n sizedesc (length d)))"

lemma hash_pad_words: "0 < n \<Longrightarrow> h_s (hash_pad transform n sizedesc (written transform n init d)) = hash_words transform n sizedesc init d"
  by (simp add: hash_pad_written hash_words_def) (simp add: written_def)

lemma padding_fills:
  assumes "length (sizedesc (push_bit 3 (of_nat len))) < n"
  shows "n dvd len + length (padding n sizedesc len)"
proof -
  let ?dl = "length (sizedesc (push_bit 3 (of_nat len)))"
  have "len mod n < n" using assms by (intro mod_less_divisor) linarith
  hence e: "len mod n + (2 * n - 1 - ?dl - len mod n) + 1 + ?dl = 2 * n" using assms by linarith
  have "(len + (2 * n - 1 - ?dl - len mod n) mod n + (1 + ?dl)) mod n = (len mod n + (2 * n - 1 - ?dl - len mod n) + (1 + ?dl)) mod n"
    by (intro mod_add_cong refl) simp_all
  hence "(len + ((2 * n - 1 - ?dl - len mod n) mod n + 1 + ?dl)) mod n = (len mod n + (2 * n - 1 - ?dl - len mod n) + 1 + ?dl) mod n"
    by (simp only: add.assoc)
  hence "(len + ((2 * n - 1 - ?dl - len mod n) mod n + 1 + ?dl)) mod n = 0" unfolding e by simp
  moreover have "length (padding n sizedesc len) = (2 * n - 1 - ?dl - len mod n) mod n + 1 + ?dl" by (simp add: padding_def Let_def)
  ultimately show ?thesis by (simp add: mod_eq_0_iff_dvd)
qed

lemma written_start: "0 < n \<Longrightarrow> hash_start init = written transform n init []"
  by (simp add: hash_start_def written_def blocks_of_short)

section \<open>The contract\<close>

text \<open>
  A hasher takes bytes in pieces of any size; the digest is that of their concatenation.
\<close>

locale streaming_hash =
  fixes fresh :: 'h
    and wr :: "u8 list \<Rightarrow> 'h \<Rightarrow> 'h"
    and digest :: "'h \<Rightarrow> u8 list"
    and rep :: "'h \<Rightarrow> u8 list \<Rightarrow> bool"
    and hash :: "u8 list \<Rightarrow> u8 list"
  assumes rep_fresh: "rep fresh []"
    and rep_write: "rep h d \<Longrightarrow> rep (wr e h) (d @ e)"
    and rep_digest: "rep h d \<Longrightarrow> digest h = hash d"
begin

lemma rep_pieces: "rep h d \<Longrightarrow> rep (fold wr ps h) (d @ concat ps)"
  by (induction ps arbitrary: h d) (use rep_write in \<open>force\<close>)+

lemma digest_pieces: "digest (fold wr ps fresh) = hash (concat ps)"
  using rep_digest[OF rep_pieces[OF rep_fresh, of ps]] by simp

lemma digest_one: "digest (wr d fresh) = hash d"
  using digest_pieces[of "[d]"] by simp

end

end
