(* ===== verification/Sha2.thy ===== *)
theory Sha2
  imports Hash_Core
begin

text \<open>
  SHA-256 and SHA-512, \<^verbatim>\<open>src/src/crypto/sha256.cpp\<close> and \<^verbatim>\<open>sha512.cpp\<close>, and the keyed hashes of \<^verbatim>\<open>hmac_sha256.cpp\<close>,
  \<^verbatim>\<open>hmac_sha512.cpp\<close> and \<^verbatim>\<open>rfc6979_hmac_sha256.cpp\<close>. The code writes the rounds out, with the names of the registers moved on by
  one from round to round; here the registers move. The words \<open>w0\<close> to \<open>w15\<close> are a window of the message schedule, whose
  first word is that of the current round.
\<close>

section \<open>Rounds\<close>

definition sha2_Ch :: "'w::len word \<Rightarrow> 'w word \<Rightarrow> 'w word \<Rightarrow> 'w word" where "sha2_Ch x y z = z XOR (x AND (y XOR z))"
definition sha2_Maj :: "'w::len word \<Rightarrow> 'w word \<Rightarrow> 'w word \<Rightarrow> 'w word" where "sha2_Maj x y z = (x AND y) OR (z AND (x OR y))"

definition sha256_Sigma0 :: "u32 \<Rightarrow> u32" where "sha256_Sigma0 x = rotr 2 x XOR rotr 13 x XOR rotr 22 x"
definition sha256_Sigma1 :: "u32 \<Rightarrow> u32" where "sha256_Sigma1 x = rotr 6 x XOR rotr 11 x XOR rotr 25 x"
definition sha256_sigma0 :: "u32 \<Rightarrow> u32" where "sha256_sigma0 x = rotr 7 x XOR rotr 18 x XOR drop_bit 3 x"
definition sha256_sigma1 :: "u32 \<Rightarrow> u32" where "sha256_sigma1 x = rotr 17 x XOR rotr 19 x XOR drop_bit 10 x"
definition sha512_Sigma0 :: "u64 \<Rightarrow> u64" where "sha512_Sigma0 x = rotr 28 x XOR rotr 34 x XOR rotr 39 x"
definition sha512_Sigma1 :: "u64 \<Rightarrow> u64" where "sha512_Sigma1 x = rotr 14 x XOR rotr 18 x XOR rotr 41 x"
definition sha512_sigma0 :: "u64 \<Rightarrow> u64" where "sha512_sigma0 x = rotr 1 x XOR rotr 8 x XOR drop_bit 7 x"
definition sha512_sigma1 :: "u64 \<Rightarrow> u64" where "sha512_sigma1 x = rotr 19 x XOR rotr 61 x XOR drop_bit 6 x"

type_synonym 'w registers = "'w \<times> 'w \<times> 'w \<times> 'w \<times> 'w \<times> 'w \<times> 'w \<times> 'w"

fun sha2_Round :: "('w::len word \<Rightarrow> 'w word) \<Rightarrow> ('w word \<Rightarrow> 'w word) \<Rightarrow> 'w word registers \<Rightarrow> 'w word \<Rightarrow> 'w word \<Rightarrow> 'w word registers" where
  "sha2_Round Sigma0 Sigma1 (a, b, c, d, e, f, g, h) k w =
    (let t1 = h + Sigma1 e + sha2_Ch e f g + k + w; t2 = Sigma0 a + sha2_Maj a b c
     in (t1 + t2, a, b, c, d + t1, e, f, g))"

fun schedule_rounds :: "('w list \<Rightarrow> 'w) \<Rightarrow> ('r \<Rightarrow> 'k \<Rightarrow> 'w \<Rightarrow> 'r) \<Rightarrow> 'k list \<Rightarrow> 'w list \<Rightarrow> 'r \<Rightarrow> 'r" where
  "schedule_rounds next_word rnd [] ws regs = regs"
| "schedule_rounds next_word rnd (k # ks) ws regs = schedule_rounds next_word rnd ks (tl ws @ [next_word ws]) (rnd regs k (hd ws))"

definition registers_of :: "'w list \<Rightarrow> 'w registers" where
  "registers_of s = (s ! 0, s ! 1, s ! 2, s ! 3, s ! 4, s ! 5, s ! 6, s ! 7)"

fun add_registers :: "'w::len word list \<Rightarrow> 'w word registers \<Rightarrow> 'w word list" where
  "add_registers s (a, b, c, d, e, f, g, h) =
    [s ! 0 + a, s ! 1 + b, s ! 2 + c, s ! 3 + d, s ! 4 + e, s ! 5 + f, s ! 6 + g, s ! 7 + h]"

section \<open>SHA-256\<close>

definition sha256_init :: "u32 list" where
  "sha256_init = [0x6a09e667, 0xbb67ae85, 0x3c6ef372, 0xa54ff53a, 0x510e527f, 0x9b05688c, 0x1f83d9ab, 0x5be0cd19]"

text \<open>The constants of the rounds, in decimal.\<close>

definition sha256_k :: "u32 list" where
  "sha256_k =
    [1116352408, 1899447441, 3049323471, 3921009573, 961987163, 1508970993, 2453635748, 2870763221,
     3624381080, 310598401, 607225278, 1426881987, 1925078388, 2162078206, 2614888103, 3248222580,
     3835390401, 4022224774, 264347078, 604807628, 770255983, 1249150122, 1555081692, 1996064986,
     2554220882, 2821834349, 2952996808, 3210313671, 3336571891, 3584528711, 113926993, 338241895,
     666307205, 773529912, 1294757372, 1396182291, 1695183700, 1986661051, 2177026350, 2456956037,
     2730485921, 2820302411, 3259730800, 3345764771, 3516065817, 3600352804, 4094571909, 275423344,
     430227734, 506948616, 659060556, 883997877, 958139571, 1322822218, 1537002063, 1747873779,
     1955562222, 2024104815, 2227730452, 2361852424, 2428436474, 2756734187, 3204031479, 3329325298]"

definition sha256_Transform :: "u32 list \<Rightarrow> u8 list \<Rightarrow> u32 list" where
  "sha256_Transform s chunk = add_registers s
    (schedule_rounds (\<lambda>w. w ! 0 + (sha256_sigma1 (w ! 14) + w ! 9 + sha256_sigma0 (w ! 1)))
       (sha2_Round sha256_Sigma0 sha256_Sigma1) sha256_k (chunk_words 4 ReadBE chunk) (registers_of s))"

type_synonym CSHA256 = "u32 hasher"

definition CSHA256_new :: CSHA256 where "CSHA256_new = hash_start sha256_init"
definition CSHA256_Write :: "u8 list \<Rightarrow> CSHA256 \<Rightarrow> CSHA256" where "CSHA256_Write = hash_Write sha256_Transform 64"

definition CSHA256_Finalize :: "CSHA256 \<Rightarrow> u8 list" where
  "CSHA256_Finalize h = concat (map (WriteBE 4) (h_s (hash_pad sha256_Transform 64 (WriteBE 8) h)))"

definition CSHA256_Reset :: "CSHA256 \<Rightarrow> CSHA256" where
  "CSHA256_Reset h = h\<lparr>h_bytes := 0, h_s := sha256_init, h_buf := []\<rparr>"

section \<open>SHA-512\<close>

definition sha512_init :: "u64 list" where
  "sha512_init = [0x6a09e667f3bcc908, 0xbb67ae8584caa73b, 0x3c6ef372fe94f82b, 0xa54ff53a5f1d36f1,
     0x510e527fade682d1, 0x9b05688c2b3e6c1f, 0x1f83d9abfb41bd6b, 0x5be0cd19137e2179]"

definition sha512_k :: "u64 list" where
  "sha512_k =
    [4794697086780616226, 8158064640168781261, 13096744586834688815, 16840607885511220156,
     4131703408338449720, 6480981068601479193, 10538285296894168987, 12329834152419229976,
     15566598209576043074, 1334009975649890238, 2608012711638119052, 6128411473006802146,
     8268148722764581231, 9286055187155687089, 11230858885718282805, 13951009754708518548,
     16472876342353939154, 17275323862435702243, 1135362057144423861, 2597628984639134821,
     3308224258029322869, 5365058923640841347, 6679025012923562964, 8573033837759648693,
     10970295158949994411, 12119686244451234320, 12683024718118986047, 13788192230050041572,
     14330467153632333762, 15395433587784984357, 489312712824947311, 1452737877330783856,
     2861767655752347644, 3322285676063803686, 5560940570517711597, 5996557281743188959,
     7280758554555802590, 8532644243296465576, 9350256976987008742, 10552545826968843579,
     11727347734174303076, 12113106623233404929, 14000437183269869457, 14369950271660146224,
     15101387698204529176, 15463397548674623760, 17586052441742319658, 1182934255886127544,
     1847814050463011016, 2177327727835720531, 2830643537854262169, 3796741975233480872,
     4115178125766777443, 5681478168544905931, 6601373596472566643, 7507060721942968483,
     8399075790359081724, 8693463985226723168, 9568029438360202098, 10144078919501101548,
     10430055236837252648, 11840083180663258601, 13761210420658862357, 14299343276471374635,
     14566680578165727644, 15097957966210449927, 16922976911328602910, 17689382322260857208,
     500013540394364858, 748580250866718886, 1242879168328830382, 1977374033974150939,
     2944078676154940804, 3659926193048069267, 4368137639120453308, 4836135668995329356,
     5532061633213252278, 6448918945643986474, 6902733635092675308, 7801388544844847127]"

definition sha512_Transform :: "u64 list \<Rightarrow> u8 list \<Rightarrow> u64 list" where
  "sha512_Transform s chunk = add_registers s
    (schedule_rounds (\<lambda>w. w ! 0 + (sha512_sigma1 (w ! 14) + w ! 9 + sha512_sigma0 (w ! 1)))
       (sha2_Round sha512_Sigma0 sha512_Sigma1) sha512_k (chunk_words 8 ReadBE chunk) (registers_of s))"

type_synonym CSHA512 = "u64 hasher"

definition CSHA512_new :: CSHA512 where "CSHA512_new = hash_start sha512_init"
definition CSHA512_Write :: "u8 list \<Rightarrow> CSHA512 \<Rightarrow> CSHA512" where "CSHA512_Write = hash_Write sha512_Transform 128"

definition CSHA512_Finalize :: "CSHA512 \<Rightarrow> u8 list" where
  "CSHA512_Finalize h =
    concat (map (WriteBE 8) (h_s (hash_pad sha512_Transform 128 (\<lambda>bits. replicate 8 0 @ WriteBE 8 bits) h)))"

definition CSHA512_Reset :: "CSHA512 \<Rightarrow> CSHA512" where
  "CSHA512_Reset h = h\<lparr>h_bytes := 0, h_s := sha512_init, h_buf := []\<rparr>"

section \<open>Keyed hashes\<close>

record 'h hmac =
  hm_outer :: 'h
  hm_inner :: 'h

definition CHMAC_SHA256_new :: "u8 list \<Rightarrow> CSHA256 hmac" where
  "CHMAC_SHA256_new key =
    (let rkey = (if length key \<le> 64 then key @ replicate (64 - length key) 0
           else CSHA256_Finalize (CSHA256_Write key CSHA256_new) @ replicate 32 0);
         rkey = map (\<lambda>b. b XOR 0x5c) rkey; outer = CSHA256_Write rkey CSHA256_new;
         rkey = map (\<lambda>b. b XOR (0x5c XOR 0x36)) rkey; inner = CSHA256_Write rkey CSHA256_new
     in \<lparr>hm_outer = outer, hm_inner = inner\<rparr>)"

definition CHMAC_SHA256_Write :: "u8 list \<Rightarrow> CSHA256 hmac \<Rightarrow> CSHA256 hmac" where
  "CHMAC_SHA256_Write data m = m\<lparr>hm_inner := CSHA256_Write data (hm_inner m)\<rparr>"

definition CHMAC_SHA256_Finalize :: "CSHA256 hmac \<Rightarrow> u8 list" where
  "CHMAC_SHA256_Finalize m = CSHA256_Finalize (CSHA256_Write (CSHA256_Finalize (hm_inner m)) (hm_outer m))"

definition CHMAC_SHA512_new :: "u8 list \<Rightarrow> CSHA512 hmac" where
  "CHMAC_SHA512_new key =
    (let rkey = (if length key \<le> 128 then key @ replicate (128 - length key) 0
           else CSHA512_Finalize (CSHA512_Write key CSHA512_new) @ replicate 64 0);
         rkey = map (\<lambda>b. b XOR 0x5c) rkey; outer = CSHA512_Write rkey CSHA512_new;
         rkey = map (\<lambda>b. b XOR (0x5c XOR 0x36)) rkey; inner = CSHA512_Write rkey CSHA512_new
     in \<lparr>hm_outer = outer, hm_inner = inner\<rparr>)"

definition CHMAC_SHA512_Write :: "u8 list \<Rightarrow> CSHA512 hmac \<Rightarrow> CSHA512 hmac" where
  "CHMAC_SHA512_Write data m = m\<lparr>hm_inner := CSHA512_Write data (hm_inner m)\<rparr>"

definition CHMAC_SHA512_Finalize :: "CSHA512 hmac \<Rightarrow> u8 list" where
  "CHMAC_SHA512_Finalize m = CSHA512_Finalize (CSHA512_Write (CSHA512_Finalize (hm_inner m)) (hm_outer m))"

section \<open>The generator of RFC 6979\<close>

record rfc6979 =
  rfc_V :: "u8 list"
  rfc_K :: "u8 list"
  rfc_retry :: bool

definition hmac256 :: "u8 list \<Rightarrow> u8 list list \<Rightarrow> u8 list" where
  "hmac256 key pieces = CHMAC_SHA256_Finalize (fold CHMAC_SHA256_Write pieces (CHMAC_SHA256_new key))"

definition RFC6979_new :: "u8 list \<Rightarrow> u8 list \<Rightarrow> rfc6979" where
  "RFC6979_new key msg =
    (let V = replicate 32 0x01; K = replicate 32 0x00;
         K = hmac256 K [V, [0x00], key, msg]; V = hmac256 K [V];
         K = hmac256 K [V, [0x01], key, msg]; V = hmac256 K [V]
     in \<lparr>rfc_V = V, rfc_K = K, rfc_retry = False\<rparr>)"

text \<open>The values of \<open>V\<close> one after the other, until there are enough bytes. Each has 32.\<close>

function generate_loop :: "u8 list \<Rightarrow> u8 list \<Rightarrow> nat \<Rightarrow> u8 list \<Rightarrow> u8 list \<times> u8 list" where
  "generate_loop K V outputlen output =
    (if outputlen > 0
     then let V = hmac256 K [V]; len = min outputlen 32 in generate_loop K V (outputlen - len) (output @ take len V)
     else (V, output))"
  by pat_completeness auto
termination
  by (relation "measure (\<lambda>(K, V, outputlen, output). outputlen)") auto

declare generate_loop.simps [simp del]

definition RFC6979_Generate :: "rfc6979 \<Rightarrow> nat \<Rightarrow> u8 list \<times> rfc6979" where
  "RFC6979_Generate r outputlen =
    (let r = (if rfc_retry r then
           let K = hmac256 (rfc_K r) [rfc_V r, [0x00]] in r\<lparr>rfc_K := K, rfc_V := hmac256 K [rfc_V r]\<rparr>
         else r);
         (V, output) = generate_loop (rfc_K r) (rfc_V r) outputlen []
     in (output, r\<lparr>rfc_V := V, rfc_retry := True\<rparr>))"

section \<open>The contract\<close>

definition sha256 :: "u8 list \<Rightarrow> u8 list" where
  "sha256 d = concat (map (WriteBE 4) (hash_words sha256_Transform 64 (WriteBE 8) sha256_init d))"

definition sha512 :: "u8 list \<Rightarrow> u8 list" where
  "sha512 d = concat (map (WriteBE 8) (hash_words sha512_Transform 128 (\<lambda>bits. replicate 8 0 @ WriteBE 8 bits) sha512_init d))"

interpretation sha256: streaming_hash CSHA256_new CSHA256_Write CSHA256_Finalize
  "\<lambda>h d. h = written sha256_Transform 64 sha256_init d" sha256
  by unfold_locales
    (simp_all add: CSHA256_new_def written_start CSHA256_Write_def hash_Write_written CSHA256_Finalize_def hash_pad_words sha256_def)

interpretation sha512: streaming_hash CSHA512_new CSHA512_Write CSHA512_Finalize
  "\<lambda>h d. h = written sha512_Transform 128 sha512_init d" sha512
  by unfold_locales
    (simp_all add: CSHA512_new_def written_start CSHA512_Write_def hash_Write_written CSHA512_Finalize_def hash_pad_words sha512_def)

text \<open>The key as a block, and the keyed hash of bytes.\<close>

definition hmac_block :: "nat \<Rightarrow> (u8 list \<Rightarrow> u8 list) \<Rightarrow> u8 list \<Rightarrow> u8 list" where
  "hmac_block n hash key = (if length key \<le> n then key @ replicate (n - length key) 0 else hash key @ replicate (n div 2) 0)"

definition hmac :: "nat \<Rightarrow> (u8 list \<Rightarrow> u8 list) \<Rightarrow> u8 list \<Rightarrow> u8 list \<Rightarrow> u8 list" where
  "hmac n hash key d = (let b = hmac_block n hash key in hash (map (\<lambda>x. x XOR 0x5c) b @ hash (map (\<lambda>x. x XOR 0x36) b @ d)))"

lemma xor_pads: "(b XOR 0x5c) XOR 0x6A = b XOR (0x36 :: u8)"
  by (simp add: xor.assoc)

interpretation hmac_sha256: streaming_hash "CHMAC_SHA256_new key" CHMAC_SHA256_Write CHMAC_SHA256_Finalize
  "\<lambda>m d. hm_outer m = written sha256_Transform 64 sha256_init (map (\<lambda>x. x XOR 0x5c) (hmac_block 64 sha256 key)) \<and>
     hm_inner m = written sha256_Transform 64 sha256_init (map (\<lambda>x. x XOR 0x36) (hmac_block 64 sha256 key) @ d)"
  "hmac 64 sha256 key" for key
proof (unfold_locales, goal_cases)
  case 1
  have w: "CSHA256_Write x CSHA256_new = written sha256_Transform 64 sha256_init x" for x
    using sha256.rep_write[OF sha256.rep_fresh, of x] by simp
  show ?case by (simp add: CHMAC_SHA256_new_def Let_def hmac_block_def sha256.digest_one sha256.rep_digest[OF refl] w comp_def xor_pads)
next
  case (2 m d e)
  thus ?case by (simp add: CHMAC_SHA256_Write_def sha256.rep_write)
next
  case (3 m d)
  thus ?case by (simp add: CHMAC_SHA256_Finalize_def hmac_def Let_def sha256.rep_write sha256.rep_digest)
qed

interpretation hmac_sha512: streaming_hash "CHMAC_SHA512_new key" CHMAC_SHA512_Write CHMAC_SHA512_Finalize
  "\<lambda>m d. hm_outer m = written sha512_Transform 128 sha512_init (map (\<lambda>x. x XOR 0x5c) (hmac_block 128 sha512 key)) \<and>
     hm_inner m = written sha512_Transform 128 sha512_init (map (\<lambda>x. x XOR 0x36) (hmac_block 128 sha512 key) @ d)"
  "hmac 128 sha512 key" for key
proof (unfold_locales, goal_cases)
  case 1
  have w: "CSHA512_Write x CSHA512_new = written sha512_Transform 128 sha512_init x" for x
    using sha512.rep_write[OF sha512.rep_fresh, of x] by simp
  show ?case by (simp add: CHMAC_SHA512_new_def Let_def hmac_block_def sha512.digest_one sha512.rep_digest[OF refl] w comp_def xor_pads)
next
  case (2 m d e)
  thus ?case by (simp add: CHMAC_SHA512_Write_def sha512.rep_write)
next
  case (3 m d)
  thus ?case by (simp add: CHMAC_SHA512_Finalize_def hmac_def Let_def sha512.rep_write sha512.rep_digest)
qed

end
