(* ===== verification/Hash_Functions.thy ===== *)
theory Hash_Functions
  imports Sha2
begin

text \<open>
  RIPEMD-160 and SHA-1, \<^verbatim>\<open>src/src/crypto/ripemd160.cpp\<close> and \<^verbatim>\<open>sha1.cpp\<close>, and the hashes of \<^verbatim>\<open>src/src/structs/hash.h\<close>
  and \<^verbatim>\<open>hash.cpp\<close>: \<open>CHash256\<close>, \<open>CHash160\<close>, the hashes of one or more ranges of bytes, the hash of serialised objects,
  \<open>MurmurHash3\<close> and \<open>BIP32Hash\<close>. As in the theory \<open>Sha2\<close> the registers move from round to round.
\<close>

section \<open>SHA-1\<close>

type_synonym regs5 = "u32 \<times> u32 \<times> u32 \<times> u32 \<times> u32"

definition sha1_f :: "nat \<Rightarrow> u32 \<Rightarrow> u32 \<Rightarrow> u32 \<Rightarrow> u32" where
  "sha1_f i b c d =
    (if i = 1 then d XOR (b AND (c XOR d))
     else if i = 2 then b XOR c XOR d
     else (b AND c) OR (d AND (b OR c)))"

fun sha1_Round :: "regs5 \<Rightarrow> nat \<times> u32 \<Rightarrow> u32 \<Rightarrow> regs5" where
  "sha1_Round (a, b, c, d, e) (f, k) w = (e + (rotl 5 a + sha1_f f b c d + k + w), a, rotl 30 b, c, d)"

definition sha1_left :: "u32 \<Rightarrow> u32" where
  "sha1_left x = rotl 1 x"

definition sha1_init :: "u32 list" where
  "sha1_init = [0x67452301, 0xEFCDAB89, 0x98BADCFE, 0x10325476, 0xC3D2E1F0]"

definition sha1_k :: "(nat \<times> u32) list" where
  "sha1_k = replicate 20 (1, 0x5A827999) @ replicate 20 (2, 0x6ED9EBA1) @ replicate 20 (3, 0x8F1BBCDC) @ replicate 20 (2, 0xCA62C1D6)"

definition sha1_Transform :: "u32 list \<Rightarrow> u8 list \<Rightarrow> u32 list" where
  "sha1_Transform s chunk =
    (case schedule_rounds (\<lambda>w. sha1_left (w ! 0 XOR w ! 13 XOR w ! 8 XOR w ! 2)) sha1_Round sha1_k
       (chunk_words 4 ReadBE chunk) (s ! 0, s ! 1, s ! 2, s ! 3, s ! 4) of
     (a, b, c, d, e) \<Rightarrow> [s ! 0 + a, s ! 1 + b, s ! 2 + c, s ! 3 + d, s ! 4 + e])"

type_synonym CSHA1 = "u32 hasher"

definition CSHA1_new :: CSHA1 where "CSHA1_new = hash_start sha1_init"
definition CSHA1_Write :: "u8 list \<Rightarrow> CSHA1 \<Rightarrow> CSHA1" where "CSHA1_Write = hash_Write sha1_Transform 64"

definition CSHA1_Finalize :: "CSHA1 \<Rightarrow> u8 list" where
  "CSHA1_Finalize h = concat (map (WriteBE 4) (h_s (hash_pad sha1_Transform 64 (WriteBE 8) h)))"

definition CSHA1_Reset :: "CSHA1 \<Rightarrow> CSHA1" where
  "CSHA1_Reset h = h\<lparr>h_bytes := 0, h_s := sha1_init, h_buf := []\<rparr>"

section \<open>RIPEMD-160\<close>

definition ripemd_f :: "nat \<Rightarrow> u32 \<Rightarrow> u32 \<Rightarrow> u32 \<Rightarrow> u32" where
  "ripemd_f i x y z =
    (if i = 1 then x XOR y XOR z
     else if i = 2 then (x AND y) OR (NOT x AND z)
     else if i = 3 then (x OR NOT y) XOR z
     else if i = 4 then (x AND z) OR (y AND NOT z)
     else x XOR (y OR NOT z))"

definition ripemd_init :: "u32 list" where
  "ripemd_init = [0x67452301, 0xEFCDAB89, 0x98BADCFE, 0x10325476, 0xC3D2E1F0]"

fun ripemd_Round :: "u32 list \<Rightarrow> regs5 \<Rightarrow> (nat \<times> u32) \<times> nat \<times> nat \<Rightarrow> regs5" where
  "ripemd_Round w (a, b, c, d, e) ((f, k), i, r) = (e, rotl r (a + ripemd_f f b c d + w ! i + k) + e, b, rotl 10 c, d)"

text \<open>The function and the constant of a round, for each of the two lines: \<open>R11\<close> to \<open>R51\<close> and \<open>R12\<close> to \<open>R52\<close>.\<close>

definition ripemd_left :: "(nat \<times> u32) list" where
  "ripemd_left = [(1, 0), (2, 0x5A827999), (3, 0x6ED9EBA1), (4, 0x8F1BBCDC), (5, 0xA953FD4E)]"

definition ripemd_right :: "(nat \<times> u32) list" where
  "ripemd_right = [(5, 0x50A28BE6), (4, 0x5C4DD124), (3, 0x6D703EF3), (2, 0x7A6D76E9), (1, 0)]"

text \<open>The word and the rotation of each round.\<close>

definition ripemd_left_rounds :: "(nat \<times> nat) list" where
  "ripemd_left_rounds =
    [(0, 11), (1, 14), (2, 15), (3, 12), (4, 5), (5, 8), (6, 7), (7, 9), (8, 11), (9, 13),
     (10, 14), (11, 15), (12, 6), (13, 7), (14, 9), (15, 8), (7, 7), (4, 6), (13, 8), (1, 13),
     (10, 11), (6, 9), (15, 7), (3, 15), (12, 7), (0, 12), (9, 15), (5, 9), (2, 11), (14, 7),
     (11, 13), (8, 12), (3, 11), (10, 13), (14, 6), (4, 7), (9, 14), (15, 9), (8, 13), (1, 15),
     (2, 14), (7, 8), (0, 13), (6, 6), (13, 5), (11, 12), (5, 7), (12, 5), (1, 11), (9, 12),
     (11, 14), (10, 15), (0, 14), (8, 15), (12, 9), (4, 8), (13, 9), (3, 14), (7, 5), (15, 6),
     (14, 8), (5, 6), (6, 5), (2, 12), (4, 9), (0, 15), (5, 5), (9, 11), (7, 6), (12, 8),
     (2, 13), (10, 12), (14, 5), (1, 12), (3, 13), (8, 14), (11, 11), (6, 8), (15, 5), (13, 6)]"

definition ripemd_right_rounds :: "(nat \<times> nat) list" where
  "ripemd_right_rounds =
    [(5, 8), (14, 9), (7, 9), (0, 11), (9, 13), (2, 15), (11, 15), (4, 5), (13, 7), (6, 7),
     (15, 8), (8, 11), (1, 14), (10, 14), (3, 12), (12, 6), (6, 9), (11, 13), (3, 15), (7, 7),
     (0, 12), (13, 8), (5, 9), (10, 11), (14, 7), (15, 7), (8, 12), (12, 7), (4, 6), (9, 15),
     (1, 13), (2, 11), (15, 9), (5, 7), (1, 15), (3, 11), (7, 8), (14, 6), (6, 6), (9, 14),
     (11, 12), (8, 13), (12, 5), (2, 14), (10, 13), (0, 13), (4, 7), (13, 5), (8, 15), (6, 5),
     (4, 8), (1, 11), (3, 14), (11, 14), (15, 6), (0, 14), (5, 6), (12, 9), (2, 12), (13, 9),
     (9, 12), (7, 5), (10, 15), (14, 8), (12, 8), (15, 5), (10, 12), (4, 9), (1, 12), (5, 5),
     (8, 14), (7, 6), (6, 8), (2, 13), (13, 6), (14, 5), (0, 15), (3, 13), (9, 11), (11, 11)]"

definition ripemd_line :: "u32 list \<Rightarrow> (nat \<times> u32) list \<Rightarrow> (nat \<times> nat) list \<Rightarrow> regs5 \<Rightarrow> regs5" where
  "ripemd_line w fks rounds regs = foldl (ripemd_Round w) regs (zip (concat (map (replicate 16) fks)) rounds)"

definition ripemd_Transform :: "u32 list \<Rightarrow> u8 list \<Rightarrow> u32 list" where
  "ripemd_Transform s chunk =
    (let w = chunk_words 4 ReadLE32 chunk; regs = (s ! 0, s ! 1, s ! 2, s ! 3, s ! 4)
     in case ripemd_line w ripemd_left ripemd_left_rounds regs of (a1, b1, c1, d1, e1) \<Rightarrow>
        case ripemd_line w ripemd_right ripemd_right_rounds regs of (a2, b2, c2, d2, e2) \<Rightarrow>
          [s ! 1 + c1 + d2, s ! 2 + d1 + e2, s ! 3 + e1 + a2, s ! 4 + a1 + b2, s ! 0 + b1 + c2])"

type_synonym CRIPEMD160 = "u32 hasher"

definition CRIPEMD160_new :: CRIPEMD160 where "CRIPEMD160_new = hash_start ripemd_init"
definition CRIPEMD160_Write :: "u8 list \<Rightarrow> CRIPEMD160 \<Rightarrow> CRIPEMD160" where "CRIPEMD160_Write = hash_Write ripemd_Transform 64"

definition CRIPEMD160_Finalize :: "CRIPEMD160 \<Rightarrow> u8 list" where
  "CRIPEMD160_Finalize h = concat (map WriteLE32 (h_s (hash_pad ripemd_Transform 64 WriteLE64 h)))"

definition CRIPEMD160_Reset :: "CRIPEMD160 \<Rightarrow> CRIPEMD160" where
  "CRIPEMD160_Reset h = h\<lparr>h_bytes := 0, h_s := ripemd_init, h_buf := []\<rparr>"

section \<open>Combined hashes\<close>

definition CHash256_Finalize :: "CSHA256 \<Rightarrow> u8 list" where
  "CHash256_Finalize sha = CSHA256_Finalize (CSHA256_Write (CSHA256_Finalize sha) (CSHA256_Reset sha))"

definition CHash160_Finalize :: "CSHA256 \<Rightarrow> u8 list" where
  "CHash160_Finalize sha = CRIPEMD160_Finalize (CRIPEMD160_Write (CSHA256_Finalize sha) CRIPEMD160_new)"

definition Hash_of :: "u8 list list \<Rightarrow> u8 list" where
  "Hash_of ranges = CHash256_Finalize (fold CSHA256_Write ranges CSHA256_new)"

definition Hash160 :: "u8 list \<Rightarrow> u8 list" where
  "Hash160 vch = CHash160_Finalize (CSHA256_Write vch CSHA256_new)"

text \<open>The hash of the pieces that the serialisation of an object writes.\<close>

definition SerializeHash :: "u8 list list \<Rightarrow> u8 list" where
  "SerializeHash pieces = CHash256_Finalize (fold CSHA256_Write pieces CSHA256_new)"

definition BIP32Hash :: "u8 list \<Rightarrow> u32 \<Rightarrow> u8 \<Rightarrow> u8 list \<Rightarrow> u8 list" where
  "BIP32Hash chainCode nChild header data =
    CHMAC_SHA512_Finalize (CHMAC_SHA512_Write (WriteBE 4 nChild) (CHMAC_SHA512_Write data (CHMAC_SHA512_Write [header]
      (CHMAC_SHA512_new chainCode))))"

section \<open>MurmurHash3\<close>

fun murmur_body :: "u32 \<Rightarrow> u32 list \<Rightarrow> u32" where
  "murmur_body h1 [] = h1"
| "murmur_body h1 (k1 # blocks) =
    (let k1 = rotl 15 (k1 * 0xcc9e2d51) * 0x1b873593; h1 = rotl 13 (h1 XOR k1) in murmur_body (h1 * 5 + 0xe6546b64) blocks)"

definition murmur_tail :: "u32 \<Rightarrow> u8 list \<Rightarrow> u32" where
  "murmur_tail h1 tail =
    (let k1 = (if length tail \<ge> 3 then push_bit 16 (ucast (tail ! 2)) else 0);
         k1 = (if length tail \<ge> 2 then k1 XOR push_bit 8 (ucast (tail ! 1)) else k1)
     in if length tail \<ge> 1 then h1 XOR rotl 15 ((k1 XOR ucast (tail ! 0)) * 0xcc9e2d51) * 0x1b873593 else h1)"

definition MurmurHash3 :: "u32 \<Rightarrow> u8 list \<Rightarrow> u32" where
  "MurmurHash3 nHashSeed vDataToHash =
    (let nblocks = length vDataToHash div 4;
         h1 = (if vDataToHash \<noteq> []
           then murmur_tail (murmur_body nHashSeed (map (\<lambda>i. ReadLE32 (take 4 (drop (4 * i) vDataToHash))) [0..<nblocks])) (drop (4 * nblocks) vDataToHash)
           else nHashSeed);
         h1 = h1 XOR of_nat (length vDataToHash);
         h1 = (h1 XOR drop_bit 16 h1) * 0x85ebca6b;
         h1 = (h1 XOR drop_bit 13 h1) * 0xc2b2ae35
     in h1 XOR drop_bit 16 h1)"

section \<open>The contract\<close>

definition sha1 :: "u8 list \<Rightarrow> u8 list" where
  "sha1 d = concat (map (WriteBE 4) (hash_words sha1_Transform 64 (WriteBE 8) sha1_init d))"

definition ripemd160 :: "u8 list \<Rightarrow> u8 list" where
  "ripemd160 d = concat (map WriteLE32 (hash_words ripemd_Transform 64 WriteLE64 ripemd_init d))"

interpretation sha1: streaming_hash CSHA1_new CSHA1_Write CSHA1_Finalize
  "\<lambda>h d. h = written sha1_Transform 64 sha1_init d" sha1
  by unfold_locales
    (simp_all add: CSHA1_new_def written_start CSHA1_Write_def hash_Write_written CSHA1_Finalize_def hash_pad_words sha1_def)

interpretation ripemd160: streaming_hash CRIPEMD160_new CRIPEMD160_Write CRIPEMD160_Finalize
  "\<lambda>h d. h = written ripemd_Transform 64 ripemd_init d" ripemd160
  by unfold_locales
    (simp_all add: CRIPEMD160_new_def written_start CRIPEMD160_Write_def hash_Write_written CRIPEMD160_Finalize_def hash_pad_words ripemd160_def)

lemma CSHA256_Reset_fresh: "CSHA256_Reset h = CSHA256_new"
  by (simp add: CSHA256_Reset_def CSHA256_new_def hash_start_def)

interpretation hash256: streaming_hash CSHA256_new CSHA256_Write CHash256_Finalize
  "\<lambda>h d. h = written sha256_Transform 64 sha256_init d" "\<lambda>d. sha256 (sha256 d)"
  by unfold_locales (simp_all add: sha256.rep_fresh sha256.rep_write CHash256_Finalize_def CSHA256_Reset_fresh sha256.digest_one sha256.rep_digest)

interpretation hash160: streaming_hash CSHA256_new CSHA256_Write CHash160_Finalize
  "\<lambda>h d. h = written sha256_Transform 64 sha256_init d" "\<lambda>d. ripemd160 (sha256 d)"
  by unfold_locales (simp_all add: sha256.rep_fresh sha256.rep_write CHash160_Finalize_def ripemd160.digest_one sha256.rep_digest)

lemmas hash_functions = hash256.digest_pieces hash160.digest_pieces hash256.digest_one hash160.digest_one

lemma Hash_of_concat: "Hash_of ranges = sha256 (sha256 (concat ranges))"
  by (simp add: Hash_of_def hash_functions)

lemma Hash160_eq: "Hash160 d = ripemd160 (sha256 d)"
  by (simp add: Hash160_def hash_functions)

section \<open>Properties\<close>

text \<open>
  C23 A hash does not depend on the pieces in which the bytes are written: the hashers, whose \<open>Write\<close> fills a buffer, takes full
  blocks directly from the source and keeps the rest, give for any pieces, empty ones and those across blocks included, the
  digest of the concatenation, defined over its padded blocks. So the double hash of several ranges is the double
  SHA-256 of their concatenation, \<open>Hash160\<close> is RIPEMD-160 of SHA-256, and the keyed hash is \<open>H((k + opad) || H((k + ipad) || d))\<close>.
\<close>

theorem hash_of_pieces:
  "CSHA256_Finalize (fold CSHA256_Write pieces CSHA256_new) = sha256 (concat pieces) \<and>
   CSHA512_Finalize (fold CSHA512_Write pieces CSHA512_new) = sha512 (concat pieces) \<and>
   CSHA1_Finalize (fold CSHA1_Write pieces CSHA1_new) = sha1 (concat pieces) \<and>
   CRIPEMD160_Finalize (fold CRIPEMD160_Write pieces CRIPEMD160_new) = ripemd160 (concat pieces) \<and>
   CHMAC_SHA256_Finalize (fold CHMAC_SHA256_Write pieces (CHMAC_SHA256_new key)) = hmac 64 sha256 key (concat pieces) \<and>
   CHMAC_SHA512_Finalize (fold CHMAC_SHA512_Write pieces (CHMAC_SHA512_new key)) = hmac 128 sha512 key (concat pieces) \<and>
   Hash_of pieces = sha256 (sha256 (concat pieces)) \<and>
   Hash160 (concat pieces) = ripemd160 (sha256 (concat pieces))"
  by (simp add: sha256.digest_pieces sha512.digest_pieces sha1.digest_pieces ripemd160.digest_pieces
      hmac_sha256.digest_pieces hmac_sha512.digest_pieces Hash_of_concat Hash160_eq)

end
