(* ===== verification/Spec2Isabelle.thy ===== *)
theory Spec2Isabelle
  imports Amber_Prelude Buffer Kv_Store Database Features Perm_State Perm_Log Perm_Check Perm_Consensus Perm_Set
    Perm_Counts Perm_Rollback Perm_Commit Perm_Blocks Perm_Init Perm_Mining Perm_Query Perm_Examples Perm_Facts Perm_History Perm_Invariant
    Perm_Restart Perm_Reach Perm_Fairness
    Byte_Codec Text_Tools Script_State Script_Details Script_Elements Script_Codec Script_Parse
    Cscript Cscript_Facts Script_Wire Script_Sig Script_Assets Asset_Facts Script_Theorems
    Entity_State Entity_Details Entity_Insert Entity_Commit Entity_Query Entity_Ledger Entity_Pool Entity_Chain Entity_Theorems Hash_Functions
begin

text \<open>
  Verification development for Amberchain, a C++ fork of MultiChain (itself a fork of Bitcoin Core).
  What a MultiChain node adds to a Bitcoin node is that the chain itself records who may connect,
  send, receive, issue, create, mine, activate and administer, and that blocks and transactions are
  valid only if those permissions say so. That record, \<^verbatim>\<open>mc_Permissions\<close>, is the core of this
  development; the codec that carries permissions, assets and streams inside transaction scripts,
  \<^verbatim>\<open>mc_Script\<close>, and the buffers, the database wrapper and the number encodings below both, are modelled
  with it.

  \<^bold>\<open>Layers and theories.\<close>

  \<^item> \<open>Amber_Prelude\<close>: machine widths, error codes (\<^verbatim>\<open>src/src/utils/define.h\<close>), theorem collections
    and generic facts on lists, words and options.
  \<^item> \<open>Buffer\<close>: \<^verbatim>\<open>mc_Buffer\<close> (\<^verbatim>\<open>src/src/utils/utility.cpp\<close>) with its index
    (\<^verbatim>\<open>src/src/utils/tools.cpp\<close>); locale \<open>keyed_rows\<close>, interpreted as \<open>mcb\<close>.
  \<^item> \<open>Kv_Store\<close>, \<open>Database\<close>: the database wrapper \<^verbatim>\<open>src/src/utils/dbwrapper.cpp\<close> and the keys and
    values of the permission database; locale \<open>kv_store\<close>, interpreted as \<open>kv\<close>. leveldb is vendored and
    stands behind the locale.
  \<^item> \<open>Features\<close>: the network parameters that are read and \<^verbatim>\<open>mc_Features\<close>
    (\<^verbatim>\<open>src/src/chainparams/params.cpp\<close>).
  \<^item> \<open>Perm_State\<close> ... \<open>Perm_Query\<close>: \<^verbatim>\<open>src/src/permissions/permission.cpp\<close>, function by function under the
    code's names: the rows, the ledger file and \<open>GetPermission\<close> (\<open>Perm_State\<close>); the checks
    \<open>CanConnect\<close> ... \<open>CanActivate\<close>, the names of permissions and mining diversity (\<open>Perm_Check\<close>);
    \<open>CanMineBlock\<close> and \<open>CanMineBlockOnFork\<close> (\<open>Perm_Mining\<close>); admin consensus (\<open>Perm_Consensus\<close>);
    \<open>SetPermission\<close>, \<open>SetApproval\<close> and the checkpoint (\<open>Perm_Set\<close>); the recount of admins and
    miners and the memory pool (\<open>Perm_Counts\<close>); \<open>Commit\<close>, \<open>StoreBlockInfo\<close> and the block queries
    (\<open>Perm_Commit\<close>); \<open>RollBack\<close> (\<open>Perm_Rollback\<close>); \<open>Initialize\<close> (\<open>Perm_Init\<close>); the lists behind the RPC
    calls (\<open>Perm_Query\<close>).
  \<^item> \<open>Perm_Log\<close>: the abstract view of the same component, one append-only log of rows, and the
    invariant under which \<open>GetPermission\<close> is a look-up in it. \<open>Perm_Blocks\<close>, \<open>Perm_Facts\<close>: what the calls do to
    the log. \<open>Perm_History\<close>, \<open>Perm_Invariant\<close>, \<open>Perm_Restart\<close>, \<open>Perm_Reach\<close>, \<open>Perm_Fairness\<close>: the log as a
    history of blocks, the invariant between calls, what survives a stop, the reachable states, and mining
    diversity over a history. \<open>Perm_Examples\<close>: the concrete states of the witnesses.
  \<^item> \<open>Byte_Codec\<close>, \<open>Text_Tools\<close>: the other codecs of \<^verbatim>\<open>src/src/utils/utility.cpp\<close>: little-endian numbers,
    variable-length integers, hexadecimal, comparison up to case, quoting and splitting of arguments.
  \<^item> \<open>Script_State\<close>, \<open>Script_Details\<close>, \<open>Script_Elements\<close>, \<open>Script_Assets\<close>, \<open>Script_Parse\<close>: \<^verbatim>\<open>mc_Script\<close>
    (\<^verbatim>\<open>src/src/protocol/multichainscript.cpp\<close>), the codec of metadata: its memory and the elements in it; details with their
    parameters; a writer and a reader for each kind of element; quantities of assets with the rows they are added to
    (\<^verbatim>\<open>src/src/entities/asset.cpp\<close>) and cached scripts; the parsers of the scripts of inputs and outputs. \<open>Script_Codec\<close> has the
    contract of a kind, the locale \<open>element_codec\<close>, interpreted for each (\<open>permission_codec\<close> ... \<open>entity_codec\<close>).
  \<^item> \<open>Cscript\<close>: \<^verbatim>\<open>CScript\<close> and \<^verbatim>\<open>CScriptNum\<close> (\<^verbatim>\<open>src/src/script/script.h\<close>, \<^verbatim>\<open>script.cpp\<close>), below the codec: operations, numbers,
    scans, and the removal of metadata. \<open>Cscript_Facts\<close>, \<open>Script_Wire\<close>, \<open>Script_Sig\<close>, \<open>Asset_Facts\<close>: what the codec and
    the scripts promise each other; \<open>Script_Theorems\<close>: the properties of this half of the development.
  \<^item> \<open>Entity_State\<close>, \<open>Entity_Details\<close>, \<open>Entity_Insert\<close>, \<open>Entity_Commit\<close>, \<open>Entity_Query\<close>: \<^verbatim>\<open>mc_AssetDB\<close>
    (\<^verbatim>\<open>src/src/entities/asset.cpp\<close>), the database of assets, streams and upgrades: the rows, their bytes in the ledger file,
    and \<open>GetEntity\<close>; the details that callers read (\<open>mc_EntityDetails\<close>); \<open>InsertEntity\<close>, \<open>InsertAsset\<close> and
    \<open>InsertAssetFollowOn\<close>; \<open>Commit\<close> and \<open>RollBack\<close>; the look-ups, lists and \<open>Initialize\<close>. \<open>Entity_Ledger\<close>,
    \<open>Entity_Pool\<close>, \<open>Entity_Chain\<close>: what a row in the file, an entity in the memory pool and a commit promise;
    \<open>Entity_Theorems\<close>: the properties of this component.
  \<^item> \<open>Hash_Core\<close>, \<open>Sha2\<close>, \<open>Hash_Functions\<close>: the hash functions (\<^verbatim>\<open>src/src/crypto\<close>, \<^verbatim>\<open>src/src/structs/hash.cpp\<close>, \<^verbatim>\<open>hash.h\<close>);
    locale \<open>streaming_hash\<close>, interpreted for each hasher.

  \<^bold>\<open>State and its correspondence.\<close> \<open>mc_Permissions\<close> has a field per member of the C++ class that
  carries state: the database, the ledger (a list of rows for the file of 128-byte records), the memory
  pool (an \<open>mc_Buffer\<close>), the copy and checkpoint pools, the block and row pointers, the counters of admins and
  miners and their cleared and checkpointed copies. Every operation takes the state and returns the C
  error code with the new state. Row numbers are natural numbers, heights and counts integers, the 32-bit
  fields of rows words that wrap. The lists are executable and the witnesses compute with them.

  \<^bold>\<open>What the theorems show.\<close>

  \<^item> Who decides (C1, C2, C3): a change of a permission that needs several admins takes effect only
    if that many different admins asked for exactly it, and does when they did; a refused call changes
    nothing. C4, C5: a call leaves the other permissions alone and keeps the counters equal to the number of
    allowed addresses. C20 to C22: the arithmetic and the termination of the consensus.
  \<^item> Blocks (C6 to C9): a commit turns the memory pool into rows of the chain, mirrors them in the
    database and the queries about the block answer from it; a roll back cuts the log, and undoes commits.
  \<^item> Over time (C10 to C14): in every state that the node's calls reach, the invariant holds, the queries
    answer from the history of blocks, the rule of mining diversity is the one the history gives, and
    never locks every miner out.
  \<^item> Stop and restart (C15, C16): a stop in the middle of a commit or roll back is repaired by
    \<open>Initialize\<close>, unless an older row lies behind the chain part of the file; C16 shows that it is then read.
  \<^item> Round trips (C17 to C19): the checkpoint, the copy of the memory pool, and the moves of the
    pointers for verification on a fork give the state back. C24: the buffer's look-up finds what a scan of its rows finds.
  \<^item> Metadata (C25, C29, C35): what is written into an output is read back from it, does not change who can spend the output, and
    cannot be read as another kind of element. C30, C31: details and the searches in them. C36: quantities add up without wrap-around.
  \<^item> Parsing of scripts (C26 to C28, C33, C34): the parsers are safe and stop as long as no size is negative, and agree with the
    script machine's; a negative size keeps \<open>SetScript\<close> running, an operation that is no push keeps
    \<open>mc_CheckSigScriptForMutableTx\<close> running. C32: numbers of the script machine have one encoding.
  \<^item> Entities (C37 to C40): a row of the ledger file is read back; an asset enters once and is then found under each of its
    keys; a commit changes no look-up; what a restart finds after a commit, and in the middle of one.
  \<^item> Hashes (C23): the digest does not depend on the pieces in which bytes are written.

  \<^bold>\<open>Loops and bounds.\<close> The recursions are structural or have termination proofs, apart from the walks
  along the links of a ledger, which would not stop on a cyclic file: they take fuel and return \<open>None\<close>
  when it runs out. The fuel is the row number at which the walk starts plus one; under the invariant a link
  goes to a smaller row, so that it is enough, and the theorems say that a result is returned
  (\<open>= Some ...\<close>), not only what it is if there is one. The parsers of scripts can run for ever: their results
  are \<open>Returns\<close>, \<open>Outside\<close> (a read before the script) or \<open>Runs\<close> (the fuel is used up), and one step per byte
  is enough where they stop. The walks over the entity ledger take the length of the file plus two.

  \<^bold>\<open>Modelling decisions.\<close> Keys of the database are those of protocols above 10003. Locks, log messages and
  file names are left out. Opening the ledger succeeds or fails as \<open>lg_CanOpen\<close> says and the handle
  is not tracked; the database fails as the flags of its state say. Allocation succeeds. A read of a row
  out of range in the memory pool returns what the buffer's memory holds. A \<^verbatim>\<open>memcpy\<close> from a NULL
  entity or miner is the crash \<open>None\<close>. A temporary pool that the code clears before each use is a local buffer.
  Bytes of a local row that are read without having been set are a parameter. The script of an entity is the list of its first
  bytes, the rest of the array is zero; a name or script that does not fit its array is a write outside it, \<open>None\<close>.

  \<^bold>\<open>Not modelled.\<close> Destroy, Dump, LogString and the other operations without a result on which the rest
  depends. The remaining parts of the node (validation, wallet, RPC, networking, mining loop) are not modelled so
  far; next in the plan are the entity database (\<^verbatim>\<open>src/src/entities/asset.cpp\<close>), the transaction rules
  that rest on it and on the codec (\<^verbatim>\<open>src/src/protocol/multichaintx.cpp\<close>), and the script
  machine (\<^verbatim>\<open>src/src/script/interpreter.cpp\<close>).
\<close>

section \<open>Who decides a permission\<close>

text \<open>
  C1 Consensus is safe. Writing one permission type through the memory pool either leaves the block
  range of the permission as it was, or gives it the range asked for; and if the network asks for
  \<open>c > 1\<close> admins, then at least \<open>c\<close> different admins, the writer included, have a row for exactly this
  range among the rows written since the last change that took effect.
\<close>

theorem SetPermission_consensus_safety:
  assumes "perm_good s" and "t \<in> set (set_types np)" and "lp_deref lp \<noteq> adminminerlist_entity"
    and "k = DbKey (lp_deref lp) a t" and "c = AdminConsensus np s (Some (lp_deref lp)) t"
  shows "\<exists>s'. SetPermissionInternal np s lp a t admin bfrom bto ts flags True offset = Some (MC_ERR_NOERROR, s') \<and>
    (perm_range s' k = perm_range s k \<or>
     perm_range s' k = (bfrom, bto) \<and>
     (c \<le> 1 \<or> c \<le> int (card (insert (if p_AdminCount s \<noteq> 0 then admin else a)
        (grant_admins (pending_rows (p_log s) k (p_Row s)) bfrom bto)))))"
  using SetPermission_one_range [OF assms(1-3) assms(4) refl, of admin bfrom bto ts flags offset]
    granted_admins [of np s "new_row s lp a t admin bfrom bto ts flags offset (klast k (p_log s) (p_Row s))", OF _ refl]
    assms(4,5)
  by (auto split: if_splits)

theorem SetPermission_consensus_safety_witness:
  "\<exists>s'. SetPermissionInternal ex_np two_admins None 33 MC_PTP_MINE 22 0 1000 4 0 True 0 = Some (MC_ERR_NOERROR, s') \<and>
    (perm_range s' (DbKey 0 33 MC_PTP_MINE) = perm_range two_admins (DbKey 0 33 MC_PTP_MINE) \<or>
     perm_range s' (DbKey 0 33 MC_PTP_MINE) = (0, 1000) \<and>
     2 \<le> int (card (insert 22 (grant_admins [ex_row 3 33 MC_PTP_MINE 11 0 0] 0 1000))))"
  using SetPermission_consensus_safety [OF two_admins_good, where np = ex_np and lp = None and t = MC_PTP_MINE and a = 33
      and admin = 22 and bto = 1000 and ts = 4 and bfrom = 0 and flags = 0 and offset = 0]
    two_admins_consensus two_admins_pending special_entities_distinct
  by (simp add: lp_deref_def null_entity_def set_types_def)

text \<open>
  C2 Consensus is complete. When time stamps do not go back, a change that needs \<open>c > 1\<close> admins takes
  effect exactly if \<open>c\<close> admins have it as their newest pending row.
\<close>

theorem SetPermission_consensus_complete:
  assumes "perm_good s" and "t \<in> set (set_types np)" and "lp_deref lp \<noteq> adminminerlist_entity"
    and "k = DbKey (lp_deref lp) a t" and "c = AdminConsensus np s (Some (lp_deref lp)) t" and "1 < c"
    and "new = new_row s lp a t admin bfrom bto ts flags offset (klast k (p_log s) (p_Row s))"
    and "newest_first (new # pending_rows (p_log s) k (p_Row s))"
  shows "\<exists>s'. SetPermissionInternal np s lp a t admin bfrom bto ts flags True offset = Some (MC_ERR_NOERROR, s') \<and>
    perm_range s' k =
      (if c \<le> int (card (newest_admins (new # pending_rows (p_log s) k (p_Row s)) bfrom bto))
       then (bfrom, bto) else perm_range s k)"
  using SetPermission_one_range [OF assms(1-4) assms(7)] granted_newest [of c np s new] assms(4-8)
  by (auto split: if_splits)

theorem SetPermission_consensus_complete_witness:
  "\<exists>s'. SetPermissionInternal ex_np two_admins None 33 MC_PTP_MINE 22 0 1000 4 0 True 0 = Some (MC_ERR_NOERROR, s') \<and>
    perm_range s' (DbKey 0 33 MC_PTP_MINE) = (0, 1000)"
proof -
  let ?new = "new_row two_admins None 33 MC_PTP_MINE 22 0 1000 4 0 0 3"
  have "newest_admins (?new # [ex_row 3 33 MC_PTP_MINE 11 0 0]) 0 1000 = {11, 22}"
    by (auto simp: newest_admins_def split: if_splits)
  then show ?thesis
    using SetPermission_consensus_complete [OF two_admins_good, where np = ex_np and lp = None and t = MC_PTP_MINE and a = 33
        and admin = 22 and bto = 1000 and ts = 4 and bfrom = 0 and flags = 0 and offset = 0]
      two_admins_consensus two_admins_pending special_entities_distinct
    by (simp add: lp_deref_def null_entity_def set_types_def newest_first_def)
qed

text \<open>
  C3 Nobody but an admin changes who connects the network together: on a running network with admins,
  an address that is not an admin in force cannot write a global permission that \<open>activate\<close> does not
  cover. The call is refused and the state is unchanged.
\<close>

theorem SetPermission_refused:
  assumes "perm_good s" and "mc_IsNullEntity lp" and "admin \<notin> allowed_set s MC_PTP_ADMIN"
    and "Streams np" and "p_Block s \<noteq> -1" and "\<not> np_ANYONE_CAN_ADMIN np"
    and "t \<in> {MC_PTP_ADMIN, MC_PTP_MINE, MC_PTP_ISSUE, MC_PTP_CREATE, MC_PTP_ACTIVATE}" and "t AND type \<noteq> 0"
  shows "SetPermission np s lp a type admin bfrom bto ts flags update_mempool offset = Some (MC_ERR_NOT_ALLOWED, s)"
proof -
  have lp: "lp_deref lp = null_entity"
    using assms(2) by (auto simp: mc_IsNullEntity_def lp_deref_def split: option.splits)
  have "GetPermission s lp admin MC_PTP_ADMIN = 0"
    using GetPermission_log [OF assms(1), of lp admin MC_PTP_ADMIN] admin_log_key [of MC_PTP_ADMIN admin] assms(3)
    by (simp add: lp allowed_set_def)
  then have "CanAdmin np s lp admin = 0" using assms(4-6) by (simp add: CanAdmin_def)
  moreover have "type AND (MC_PTP_ADMIN OR MC_PTP_ISSUE OR MC_PTP_MINE OR MC_PTP_ACTIVATE OR MC_PTP_CREATE) \<noteq> 0"
    by (rule and_mask_part [OF assms(8)]) (use assms(7) in auto)
  then have "\<not> IsActivateEnough type" by (simp add: IsActivateEnough_def)
  ultimately show ?thesis using assms(2) by (simp add: SetPermission_def)
qed

theorem SetPermission_refused_witness:
  "SetPermission ex_np (two_admins\<lparr>p_Block := 0\<rparr>) None 44 (MC_PTP_MINE OR MC_PTP_SEND) 33 0 1000 5 0 True 0 =
     Some (MC_ERR_NOT_ALLOWED, two_admins\<lparr>p_Block := 0\<rparr>)"
proof -
  have log: "p_log (two_admins\<lparr>p_Block := 0\<rparr>) = p_log two_admins" by (simp add: p_log_def ledger_used_def)
  have g: "perm_good (two_admins\<lparr>p_Block := 0\<rparr>)"
    using two_admins_good by (rule iffD2 [OF perm_good_block])
  have n: "33 \<notin> allowed_set (two_admins\<lparr>p_Block := 0\<rparr>) MC_PTP_ADMIN"
    unfolding allowed_set_def log_allowed_def log
    by (simp add: two_admins_log log_row_defs null_entity_def klast_Suc)
  show ?thesis
    by (rule SetPermission_refused [OF g _ n, where t = MC_PTP_MINE])
      (simp_all add: mc_IsNullEntity_def Streams_def ex_np_def)
qed

text \<open>
  C4 Writing permissions touches nothing else: whatever mixture of types is asked for, the call
  succeeds, keeps the invariant and the current block, and every other permission reads as before.
\<close>

theorem SetPermissionInternal_frame:
  assumes "perm_good s" and "lp_deref lp \<noteq> adminminerlist_entity"
  shows "\<exists>s'. SetPermissionInternal np s lp a type admin bfrom bto ts flags update_mempool offset =
      Some (MC_ERR_NOERROR, s') \<and> perm_good s' \<and> p_Block s' = p_Block s \<and>
    (\<forall>lp' b t. log_key (DbKey (lp_deref lp') b t) \<longrightarrow>
      (lp_deref lp', b) \<noteq> (lp_deref lp, a) \<or> t AND type = 0 \<longrightarrow> GetPermission s' lp' b t = GetPermission s lp' b t)"
proof -
  obtain s' where s': "SetPermissionInternal np s lp a type admin bfrom bto ts flags update_mempool offset =
      Some (MC_ERR_NOERROR, s')" and g: "grants (set_keys np lp a type) s s'"
    using SetPermissionInternal_grants [OF assms] by blast
  have good': "perm_good s'" using g by (simp add: grants_def)
  have "GetPermission s' lp' b t = GetPermission s lp' b t"
    if "log_key (DbKey (lp_deref lp') b t)" "(lp_deref lp', b) \<noteq> (lp_deref lp, a) \<or> t AND type = 0" for lp' b t
    using GetPermission_log [OF assms(1) that(1)] GetPermission_log [OF good' that(1)]
      grants_frame [OF assms(1) g, of "DbKey (lp_deref lp') b t"] that(2) by (auto simp: set_keys_def)
  then show ?thesis using s' g by (auto simp: grants_def)
qed

theorem SetPermissionInternal_frame_witness:
  "\<exists>s'. SetPermissionInternal ex_np two_admins None 33 (MC_PTP_MINE OR MC_PTP_SEND) 22 0 1000 4 0 True 0 =
      Some (MC_ERR_NOERROR, s') \<and> perm_good s' \<and> p_Block s' = -1 \<and>
     GetPermission s' None 22 MC_PTP_ADMIN = GetPermission two_admins None 22 MC_PTP_ADMIN"
proof -
  have e: "lp_deref None \<noteq> adminminerlist_entity" using special_entities_distinct by (auto simp: lp_deref_def)
  obtain s' where "SetPermissionInternal ex_np two_admins None 33 (MC_PTP_MINE OR MC_PTP_SEND) 22 0 1000 4 0 True 0 =
      Some (MC_ERR_NOERROR, s')" "perm_good s'" "p_Block s' = p_Block two_admins"
    and f: "\<And>lp' b t. log_key (DbKey (lp_deref lp') b t) \<Longrightarrow> (lp_deref lp', b) \<noteq> (lp_deref None, 33) \<or>
      t AND (MC_PTP_MINE OR MC_PTP_SEND) = 0 \<Longrightarrow> GetPermission s' lp' b t = GetPermission two_admins lp' b t"
    using SetPermissionInternal_frame [OF two_admins_good e, of ex_np 33 "MC_PTP_MINE OR MC_PTP_SEND" 22 0 1000 4 0 True 0]
    by blast
  then show ?thesis using f [of None 22 MC_PTP_ADMIN] by (simp add: lp_deref_def null_entity_def)
qed

text \<open>
  C5 The counters follow. If before the call \<open>m_AdminCount\<close> and \<open>m_MinerCount\<close> are the numbers of
  addresses allowed to administer and to mine, they are so after it, for every mixture of types.
\<close>

theorem SetPermissionInternal_counts:
  assumes "perm_good s" and "lp_deref lp \<noteq> adminminerlist_entity" and "counts_ok s"
  shows "\<exists>s'. SetPermissionInternal np s lp a type admin bfrom bto ts flags update_mempool offset =
      Some (MC_ERR_NOERROR, s') \<and> p_AdminCount s' = int (card (allowed_set s' MC_PTP_ADMIN)) \<and>
      p_MinerCount s' = int (card (allowed_set s' MC_PTP_MINE))"
  using SetPermissionInternal_grants [OF assms(1,2)] assms(3) unfolding grants_def counts_ok_def by blast

theorem SetPermissionInternal_counts_witness:
  "\<exists>s'. SetPermissionInternal ex_np fresh None 11 (MC_PTP_ADMIN OR MC_PTP_MINE) 11 0 1000 1 0 True 0 =
      Some (MC_ERR_NOERROR, s') \<and> p_AdminCount s' = int (card (allowed_set s' MC_PTP_ADMIN)) \<and>
      p_MinerCount s' = int (card (allowed_set s' MC_PTP_MINE))"
  by (rule SetPermissionInternal_counts)
    (use fresh_chain fresh_counts special_entities_distinct in \<open>auto simp: perm_chain_def lp_deref_def\<close>)

section \<open>Blocks\<close>

text \<open>
  C6 A commit turns the memory pool into chain. From a state in the invariant it succeeds, keeps the
  invariant, empties the pool, raises the height by one and adds two rows, the miner's and the
  height's, which carry the new counters and the block's hash. The recounted counters are right for
  the new height, and no permission changes its range.
\<close>

theorem Commit_block:
  assumes "perm_chain s" and "hash \<noteq> 0" and "\<And>r. r \<in> set (buf_rows (p_MemPool s)) \<Longrightarrow> \<not> zero_admin r"
  shows "\<exists>s' h b1 b2. Commit np s (Some miner) hash = Some (MC_ERR_NOERROR, s') \<and> perm_chain s' \<and> counts_ok s' \<and>
    p_Block s' = p_Block s + 1 \<and> m_Count (p_MemPool s') = 0 \<and> p_Row s' = p_Row s + 2 \<and>
    p_log s' = (p_log s)[0 := h] @ [with_counts s' b1, with_counts s' b2] \<and> block_rows s miner hash b1 b2 \<and>
    (\<forall>k. log_key k \<longrightarrow> dk_Type k \<noteq> MC_PTP_BLOCK_MINER \<longrightarrow> perm_range s' k = perm_range s k)"
proof -
  obtain s' h b1 b2 where c: "Commit np s (Some miner) hash = Some (MC_ERR_NOERROR, s')" "perm_chain s'" "counts_ok s'"
    "p_Block s' = p_Block s + 1" "m_Count (p_MemPool s') = 0" "p_Row s' = p_Row s + 2"
    "block_rows s miner hash b1 b2" "p_log s' = (p_log s)[0 := h] @ [with_counts s' b1, with_counts s' b2]"
    using Commit_parts [OF assms] by blast
  have "perm_range s' k = perm_range s k" if "log_key k" "dk_Type k \<noteq> MC_PTP_BLOCK_MINER" for k
  proof -
    have "k \<notin> row_key ` set [with_counts s' b1, with_counts s' b2]"
      using c(7) that by (cases k) (auto simp: block_rows_def log_key_def)
    then show ?thesis
      using perm_range_frame [OF _ _ c(8), of k] assms(1) c(2) by (simp add: perm_chain_def perm_good_def)
  qed
  then show ?thesis using c by blast
qed

theorem Commit_block_witness:
  "\<exists>s' h b1 b2. Commit ex_np two_admins (Some 11) 77 = Some (MC_ERR_NOERROR, s') \<and> perm_chain s' \<and> counts_ok s' \<and>
    p_Block s' = 0 \<and> m_Count (p_MemPool s') = 0 \<and> p_Row s' = 6 \<and>
    p_log s' = (p_log two_admins)[0 := h] @ [with_counts s' b1, with_counts s' b2] \<and>
    block_rows two_admins 11 77 b1 b2"
  using Commit_block [OF two_admins_chain _ two_admins_no_zero, of 77 ex_np 11] by auto

text \<open>
  C7 A committed block is found again. After a commit the miner of the block's height is the address
  the commit was given, and the height's hash is the commit's hash and no other.
\<close>

theorem Commit_queries:
  assumes "perm_chain s" and "hash \<noteq> 0" and "\<And>r. r \<in> set (buf_rows (p_MemPool s)) \<Longrightarrow> \<not> zero_admin r"
  shows "\<exists>s'. Commit np s (Some miner) hash = Some (MC_ERR_NOERROR, s') \<and>
    GetBlockMiner_height s' (next_block s) = (MC_ERR_NOERROR, Some miner) \<and>
    (\<forall>hash'. VerifyBlockHash s' (p_Block s') hash' \<longleftrightarrow> hash' = hash)"
proof -
  obtain s' h b1 b2 where c: "Commit np s (Some miner) hash = Some (MC_ERR_NOERROR, s')" "perm_chain s'"
    "p_Block s' = p_Block s + 1" "m_Count (p_MemPool s') = 0" "p_Row s' = p_Row s + 2"
    "block_rows s miner hash b1 b2" "p_log s' = (p_log s)[0 := h] @ [with_counts s' b1, with_counts s' b2]"
    "db_get (p_Database s') (row_key b2) = Some (PermVal (row_val b2))"
    using Commit_parts [OF assms] by blast
  from block_queries [OF assms(1) c(2,4,7,5,6,8)] c(1,3) show ?thesis by auto
qed

theorem Commit_queries_witness:
  "\<exists>s'. Commit ex_np two_admins (Some 11) 77 = Some (MC_ERR_NOERROR, s') \<and>
    GetBlockMiner_height s' 0 = (MC_ERR_NOERROR, Some 11) \<and> VerifyBlockHash s' (p_Block s') 77"
  using Commit_queries [OF two_admins_chain _ two_admins_no_zero, of 77 ex_np 11] by (auto simp: next_block_def)



text \<open>
  C9 A block that is committed and rolled back leaves the permissions of the chain as they were: the
  height, the number of rows, the rows themselves (but the header) and every permission's range.
\<close>

theorem Commit_RollBack:
  assumes "perm_chain s" and "received_ok s" and "hash \<noteq> 0"
    and "\<And>r. r \<in> set (buf_rows (p_MemPool s)) \<Longrightarrow> \<not> zero_admin r"
  shows "\<exists>s' s'' h. Commit np s (Some miner) hash = Some (MC_ERR_NOERROR, s') \<and>
    RollBack s' (p_Block s) = Some (MC_ERR_NOERROR, s'') \<and> perm_chain s'' \<and> counts_ok s'' \<and>
    p_Block s'' = p_Block s \<and> p_Row s'' = ledger_used s \<and>
    p_log s'' = (take (ledger_used s) (p_log s))[0 := h] \<and>
    (\<forall>k. perm_range s'' k = perm_range (chain_part s) k)"
proof -
  obtain s' h b1 b2 where c: "Commit np s (Some miner) hash = Some (MC_ERR_NOERROR, s')" "perm_chain s'"
    "m_Count (p_MemPool s') = 0" "p_Row s' = p_Row s + 2"
    "block_rows s miner hash b1 b2" "p_log s' = (p_log s)[0 := h] @ [with_counts s' b1, with_counts s' b2]"
    using Commit_parts [OF assms(1,3,4)] by blast
  obtain s'' h' where r: "RollBack s' (p_Block s) = Some (MC_ERR_NOERROR, s'')" "perm_chain s''" "counts_ok s''"
    "p_Block s'' = p_Block s" "p_Row s'' = ledger_used s" "p_log s'' = (take (ledger_used s) (p_log s))[0 := h']"
    using RollBack_after_Commit [OF assms(1,2) c(2,3,4,6)] c(5) by (auto simp: block_rows_def)
  have "perm_range s'' k = perm_range (chain_part s) k" for k
    using perm_range_chain [OF _ _ r(6)] assms(1) r(2) by (simp add: perm_chain_def perm_good_def)
  then show ?thesis using c(1) r by blast
qed

theorem Commit_RollBack_witness:
  "\<exists>s' s'' h. Commit ex_np two_admins (Some 11) 77 = Some (MC_ERR_NOERROR, s') \<and>
    RollBack s' (-1) = Some (MC_ERR_NOERROR, s'') \<and> p_Row s'' = 1 \<and> p_log s'' = (take 1 (p_log two_admins))[0 := h]"
proof -
  have "ledger_used two_admins = 1" by (simp add: two_admins_def ledger_used_def)
  with Commit_RollBack [OF two_admins_chain two_admins_received _ two_admins_no_zero, of 77 ex_np 11]
  show ?thesis by fastforce
qed

section \<open>The chain over time\<close>



text \<open>
  C11 The permissions are a record of the chain. In every reachable state the queries for the miner
  and the hash of a block answer from the history of commits and roll backs, at every height of it.
\<close>

theorem reachable_blocks:
  assumes "reach np s bs" and "h < length bs"
  shows "GetBlockMiner_height s (of_nat h) = (MC_ERR_NOERROR, Some (b_Miner (block_at bs h))) \<and>
    (VerifyBlockHash s (int h) hash \<longleftrightarrow> hash = b_Hash (block_at bs h))"
  using history_queries [OF reach_inv [OF assms(1)] assms(2)] by blast

theorem reachable_blocks_witness:
  "\<exists>s. GetBlockMiner_height s 0 = (MC_ERR_NOERROR, Some 11) \<and> VerifyBlockHash s 0 77 \<and> \<not> VerifyBlockHash s 0 78"
proof -
  obtain s g where r: "reach ex_np s [\<lparr>b_Miner = 11, b_Hash = 77, b_Governance = g\<rparr>]" using ex_chain_exists by blast
  from reachable_blocks [OF r, of 0 77] reachable_blocks [OF r, of 0 78] show ?thesis by (auto simp: block_at_def)
qed



text \<open>
  C13 Mining goes on. In every reachable state with a miner in force in the chain part, the diversity
  rule leaves at least one of the miners able to mine the next block.
\<close>

theorem reachable_some_miner:
  assumes "reach np s bs" and "np_IsProtocolMultichain np" and "chain_allowed s MC_PTP_MINE \<noteq> {}"
  shows "\<exists>a\<in>chain_allowed s MC_PTP_MINE. CanMine np s None a = MC_PTP_MINE"
proof (cases "np_ANYONE_CAN_MINE np")
  case True
  then show ?thesis using assms(2,3) by (auto simp: CanMine_def mc_IsNullEntity_def)
next
  case False
  have inv: "perm_inv s bs" using assms(1) by (rule reach_inv)
  obtain a where "a \<in> chain_allowed s MC_PTP_MINE" "\<not> barred np (int (card (chain_allowed s MC_PTP_MINE))) bs a"
    using some_miner_free [OF finite_chain_allowed [OF perm_inv_good(2) [OF inv]] assms(3)] by blast
  then show ?thesis using CanMine_history [OF inv assms(2) False, of a] by auto
qed

theorem reachable_some_miner_witness: "\<exists>s a. CanMine ex_np s None a = MC_PTP_MINE"
proof -
  obtain s g where r: "reach ex_np s [\<lparr>b_Miner = 11, b_Hash = 77, b_Governance = g\<rparr>]" "11 \<in> chain_allowed s MC_PTP_MINE"
    using ex_chain_exists by blast
  have "np_IsProtocolMultichain ex_np" by (simp add: ex_np_def)
  from reachable_some_miner [OF r(1) this] r(2) show ?thesis by blast
qed

text \<open>
  C14 A miner is told to wait exactly by the diversity rule: after setup, an allowed miner cannot mine
  the next block if and only if its newest block (other than the first) is in the last blocks of the
  window computed from the number of miners of the chain.
\<close>

theorem reachable_CanMine:
  assumes "reach np s bs" and "np_IsProtocolMultichain np" and "\<not> np_ANYONE_CAN_MINE np"
    and "n = int (card (chain_allowed s MC_PTP_MINE))"
  shows "CanMine np s None a \<noteq> 0 \<longleftrightarrow> a \<in> chain_allowed s MC_PTP_MINE \<and>
    (last_block_of bs a = 0 \<or> int (length bs) < np_Int64 np ''setupfirstblocks'' \<or>
     diversity_window np n \<le> int (length bs) - int (last_block_of bs a))"
proof -
  have inv: "perm_inv s bs" using assms(1) by (rule reach_inv)
  have "n \<noteq> 0" if "a \<in> chain_allowed s MC_PTP_MINE"
    using that finite_chain_allowed [OF perm_inv_good(2) [OF inv]] by (auto simp: assms(4) card_eq_0_iff)
  then show ?thesis
    using CanMine_history [OF inv assms(2,3), of a] by (auto simp: barred_def assms(4))
qed

theorem reachable_CanMine_witness: "\<exists>s. CanMine ex_np s None 11 \<noteq> 0"
proof -
  obtain s g where r: "reach ex_np s [\<lparr>b_Miner = 11, b_Hash = 77, b_Governance = g\<rparr>]" "11 \<in> chain_allowed s MC_PTP_MINE"
    using ex_chain_exists by blast
  have "np_IsProtocolMultichain ex_np" "\<not> np_ANYONE_CAN_MINE ex_np" by (simp_all add: ex_np_def)
  from reachable_CanMine [OF r(1) this refl, of 11] r(2) show ?thesis by auto
qed

section \<open>Start-up\<close>



text \<open>
  C16 The repair gives up too early. An older row at the end of the ledger file, left behind the chain
  part by an earlier roll back, makes it take the whole file; the row count then differs from the
  database's and \<open>Initialize\<close> fails with \<open>MC_ERR_CORRUPTED\<close>, although the chain part is intact.
\<close>

theorem Initialize_stale_rows:
  assumes "reach np s bs" and "disk_rows s lg" and "ledger_used s < length (lg_Rows lg)"
    and "sint (l_BlockReceived (lg_Rows lg ! (length (lg_Rows lg) - 1))) \<le> p_Block s"
    and "p_Block s < sint (l_BlockTo (lg_Rows lg ! 0))"
  shows "\<exists>s'. Initialize (p_Database s) lg MC_ERR_NOERROR mem mem' True = Some (MC_ERR_CORRUPTED, s')"
  using Initialize_stale [OF reach_inv [OF assms(1)] _ assms(3-5)] assms(2) by (simp add: disk_rows_def)

theorem Initialize_stale_rows_witness:
  "\<exists>(s :: mc_Permissions) lg s'. Initialize (p_Database s) lg MC_ERR_NOERROR (\<lambda>_. zero_row) (\<lambda>_. no_permission) True =
     Some (MC_ERR_CORRUPTED, s')"
proof -
  obtain s g where r: "reach ex_np s [\<lparr>b_Miner = 11, b_Hash = 77, b_Governance = g\<rparr>]" using ex_chain_exists by blast
  note inv = reach_inv [OF r]
  define lg where "lg = \<lparr>lg_CanOpen = True,
      lg_Rows = (take (ledger_used s) (p_log s))[0 := zero_row\<lparr>l_BlockTo := 5\<rparr>] @ [zero_row], lg_Pos = 0\<rparr>"
  note rows = perm_wf_length [OF perm_inv_good(2) [OF inv]]
  have "disk_rows s lg" using rows by (simp add: disk_rows_def lg_def nth_append)
  moreover have "p_Block s = 0" using inv by (simp add: perm_inv_def)
  moreover have "ledger_used s < length (lg_Rows lg)" using rows by (simp add: lg_def)
  moreover have "lg_Rows lg ! (length (lg_Rows lg) - 1) = zero_row" "l_BlockTo (lg_Rows lg ! 0) = 5"
    using rows by (simp_all add: lg_def nth_append)
  moreover have "l_BlockReceived zero_row = 0" by (simp add: zero_row_def)
  ultimately show ?thesis
    using Initialize_stale_rows [OF r, of lg "\<lambda>_. zero_row" "\<lambda>_. no_permission"] by auto
qed

section \<open>Putting the state aside and taking it back\<close>

text \<open>
  C17 A trial leaves no trace. Whatever is written after \<open>SetCheckPoint\<close>, \<open>RollBackToCheckPoint\<close>
  gives back the log, the counters and so every permission.
\<close>

theorem CheckPoint_roundtrip:
  assumes "perm_good s" and "writes np (SetCheckPoint s) s'"
  shows "p_log (RollBackToCheckPoint s') = p_log s \<and> p_AdminCount (RollBackToCheckPoint s') = p_AdminCount s \<and>
    p_MinerCount (RollBackToCheckPoint s') = p_MinerCount s \<and> perm_good (RollBackToCheckPoint s') \<and>
    perm_range (RollBackToCheckPoint s') k = perm_range s k"
proof -
  have "perm_good (SetCheckPoint s)"
    using assms(1) by (rule iffD2 [OF state_eq_log(2), rotated -1]) (simp_all add: SetCheckPoint_def)
  from RollBackToCheckPoint_grants [OF assms(1) writes_grants [OF assms(2) this]]
  show ?thesis by (simp add: perm_range_def)
qed

theorem CheckPoint_roundtrip_witness:
  "\<exists>s'. SetPermission ex_np (SetCheckPoint fresh) None 11 MC_PTP_MINE 11 0 1000 1 0 True 0 = Some (MC_ERR_NOERROR, s') \<and>
    p_log (RollBackToCheckPoint s') = p_log fresh"
proof -
  have good: "perm_good fresh" using fresh_chain by (simp add: perm_chain_def)
  have g: "perm_good (SetCheckPoint fresh)"
    using good by (rule iffD2 [OF state_eq_log(2), rotated -1]) (simp_all add: SetCheckPoint_def)
  have w: "writable None 11 MC_PTP_MINE"
    using special_entities_distinct by (simp add: writable_def lp_deref_def null_entity_def)
  then obtain s' where s': "SetPermission ex_np (SetCheckPoint fresh) None 11 MC_PTP_MINE 11 0 1000 1 0 True 0 = Some (MC_ERR_NOERROR, s')"
    using SetPermissionInternal_grants [OF g, of None ex_np 11 MC_PTP_MINE 11 0 1000 1 0 True 0]
    by (auto simp: SetPermission_def CanAdmin_def Streams_def ex_np_def writable_def SetCheckPoint_def)
  with CheckPoint_roundtrip [OF good writes_set [OF writes_refl w s']] show ?thesis by blast
qed

text \<open>
  C18 The memory pool survives its copy: \<open>CopyMemPool\<close>, \<open>ClearMemPool\<close>, \<open>RestoreMemPool\<close> give back
  the log, the counters and the current block.
\<close>

theorem MemPool_roundtrip:
  assumes "perm_chain s"
  shows "\<exists>s1 s2 s3. CopyMemPool s = (MC_ERR_NOERROR, s1) \<and> ClearMemPool s1 = Some (MC_ERR_NOERROR, s2) \<and>
    RestoreMemPool s2 = Some (MC_ERR_NOERROR, s3) \<and> m_Count (p_MemPool s2) = 0 \<and> perm_chain s3 \<and> p_log s3 = p_log s \<and>
    p_AdminCount s3 = p_AdminCount s \<and> p_MinerCount s3 = p_MinerCount s \<and> p_Block s3 = p_Block s"
proof -
  define s1 where "s1 = snd (CopyMemPool s)"
  have copied: "buf_rows (p_CopiedMemPool s1) = buf_rows (p_MemPool s)" "p_CopiedAdminCount s1 = p_AdminCount s"
    "p_CopiedMinerCount s1 = p_MinerCount s"
    by (simp_all add: s1_def CopyMemPool_def buf_CopyFrom_rows)
  have eq: "p_log s1 = p_log s" "perm_good s1 = perm_good s" "ledger_used s1 = ledger_used s"
    by (rule state_eq_log; simp add: s1_def CopyMemPool_def)+
  have s1: "p_Database s1 = p_Database s" "p_Ledger s1 = p_Ledger s" "p_Block s1 = p_Block s"
    by (simp_all add: s1_def CopyMemPool_def)
  have good: "perm_good s" and ix: "index_ok (db_get (p_Database s)) (p_log s) (ledger_used s)" and nb: "db_Batch (p_Database s) = []"
    using assms by (simp_all add: perm_chain_def)
  have wf: "perm_wf s" using good by (simp add: perm_good_def)
  obtain s2 where s2: "ClearMemPoolInternal s1 = Some (MC_ERR_NOERROR, s2)" "perm_good s2" "p_log s2 = p_log (chain_part s1)"
    "p_Row s2 = ledger_used s" "p_Database s2 = p_Database s" "p_Ledger s2 = p_Ledger s" "p_Block s2 = p_Block s"
    "m_Count (p_MemPool s2) = 0" "copied s2 = copied s1"
    using ClearMemPoolInternal_good [of s1] good ix by (auto simp: eq s1)
  have wf1: "perm_wf s1" using good eq(2) by (simp add: perm_good_def)
  have log2: "p_log s2 = take (ledger_used s) (p_log s)" using s2(3) chain_part_take [OF wf1] by (simp add: eq)
  have used2: "ledger_used s2 = ledger_used s" using s2(4,8) by (simp add: ledger_used_def)
  have "index_ok (db_get (p_Database s2)) (p_log s2) (ledger_used s2)"
    using ix by (simp add: s2(5) log2 used2 klast_take_index)
  from ClearMemPoolInternal_good [OF s2(2) this] obtain s2' where s2': "ClearMemPoolInternal s2 = Some (MC_ERR_NOERROR, s2')"
    "perm_good s2'" "p_Row s2' = ledger_used s" "p_Database s2' = p_Database s" "p_Ledger s2' = p_Ledger s"
    "p_Block s2' = p_Block s" "m_Count (p_MemPool s2') = 0" "copied s2' = copied s1"
    by (auto simp: used2 s2)
  define s3 where "s3 = add_copied s2'"
  have ok: "buf_ok mem_key (p_MemPool s2')" using s2'(2) by (simp add: perm_good_def perm_wf_def)
  note add = add_copied_log [OF s2'(7) ok]
  have rows3: "buf_rows (p_MemPool s3) = buf_rows (p_MemPool s)"
    using add(1) s2'(8) copied by (simp add: s3_def copied_def)
  have cnt: "m_Count (p_CopiedMemPool s2') = m_Count (p_MemPool s)"
    using arg_cong [OF copied(1), of length] s2'(8) by (simp add: copied_def)
  have f3: "p_Database s3 = p_Database s" "p_Ledger s3 = p_Ledger s" "p_Block s3 = p_Block s" "p_AdminCount s3 = p_AdminCount s"
    "p_MinerCount s3 = p_MinerCount s" "p_CopiedRow s3 = 0"
    using s2' copied by (simp_all add: s3_def add_copied_def copied_def perm_good_def)
  have r3: "p_Row s3 = p_Row s" "ledger_used s3 = ledger_used s"
    using add(3,4) s2'(3) cnt perm_wf_length(2) [OF wf] by (simp_all add: s3_def)
  have g3: "p_log s3 = p_log s" "perm_good s3"
    by (rule perm_good_eq [OF good rows3 _ r3(2,1) f3(2,1,6)]; use add(2) in \<open>simp add: s3_def\<close>)+
  then have "perm_chain s3" using ix nb by (simp add: perm_chain_def f3(1) r3(2))
  moreover have "CopyMemPool s = (MC_ERR_NOERROR, s1)" by (simp add: s1_def CopyMemPool_def)
  moreover have "ClearMemPool s1 = Some (MC_ERR_NOERROR, s2)" using s2(1) by (simp add: ClearMemPool_def)
  moreover have "RestoreMemPool s2 = Some (MC_ERR_NOERROR, s3)" using s2'(1) by (simp add: RestoreMemPool_def s3_def)
  ultimately show ?thesis using s2(8) g3(1) f3 by blast
qed

theorem MemPool_roundtrip_witness:
  "\<exists>s1 s2 s3. CopyMemPool two_admins = (MC_ERR_NOERROR, s1) \<and> ClearMemPool s1 = Some (MC_ERR_NOERROR, s2) \<and>
    RestoreMemPool s2 = Some (MC_ERR_NOERROR, s3) \<and> p_log s3 = p_log two_admins"
  using MemPool_roundtrip [OF two_admins_chain] by blast



section \<open>Bounds\<close>

text \<open>
  C20 How many admins are needed. With fewer than 4294 admins and a share of at most one (in units of a
  millionth), the consensus asked for is the share of the admins rounded up: at least one, and never
  more than there are.
\<close>

theorem AdminConsensus_bounds:
  assumes "0 < n" and "n < 4294" and "GetAdminCount np s = n" and "mc_IsNullEntity lp" and "\<not> IsSetupPeriod np s"
    and "type \<in> {MC_PTP_ADMIN, MC_PTP_MINE, MC_PTP_ACTIVATE, MC_PTP_ISSUE, MC_PTP_CREATE}"
    and "p = consensus_param np type" and "0 < p" and "p \<le> 1000000"
  shows "AdminConsensus np s lp type = (n * p - 1) div 1000000 + 1 \<and>
    1 \<le> AdminConsensus np s lp type \<and> AdminConsensus np s lp type \<le> n"
proof -
  have le: "n * p \<le> n * 1000000" using assms(1,9) by (intro mult_left_mono) auto
  then have small: "n * p < 2 ^ 32" using assms(2) by simp
  have pos: "0 < n * p" using assms(1,8) by simp
  have "AdminConsensus np s lp type = (n * p - 1) div 1000000 + 1"
    using admins_for_share_bounded [OF assms(1,8) small] assms(1,3-8) by (simp add: AdminConsensus_def Let_def)
  moreover have "(x - 1) div 1000000 + 1 \<le> n \<and> 1 \<le> (x - 1) div 1000000 + 1" if "x \<le> n * 1000000" "0 < x" for x
    using that div_mult_mod_eq [of "x - 1" 1000000] pos_mod_sign [of 1000000 "x - 1"] by linarith
  ultimately show ?thesis using le pos by simp
qed

theorem AdminConsensus_bounds_witness: "AdminConsensus ex_np two_admins None MC_PTP_MINE = 2"
  using AdminConsensus_bounds [of 2 ex_np two_admins None MC_PTP_MINE 1000000]
  by (simp add: GetAdminCount_def ex_np_def mc_IsNullEntity_def IsSetupPeriod_def consensus_param_def to_i32_id)

text \<open>
  C21 The product of admins and share overflows. On a network that wants all of its admins to agree,
  4295 admins give a consensus of one: a single admin decides.
\<close>

theorem AdminConsensus_overflow:
  assumes "GetAdminCount np s = 4295" and "mc_IsNullEntity lp" and "\<not> IsSetupPeriod np s"
    and "type \<in> {MC_PTP_ADMIN, MC_PTP_MINE, MC_PTP_ACTIVATE, MC_PTP_ISSUE, MC_PTP_CREATE}"
    and "consensus_param np type = 1000000"
  shows "AdminConsensus np s lp type = 1"
  using assms by (simp add: AdminConsensus_def admins_for_share_def Let_def)

theorem AdminConsensus_overflow_witness:
  "AdminConsensus ex_np (two_admins\<lparr>p_AdminCount := 4295\<rparr>) None MC_PTP_MINE = 1"
  by (rule AdminConsensus_overflow)
    (simp_all add: GetAdminCount_def ex_np_def mc_IsNullEntity_def IsSetupPeriod_def consensus_param_def to_i32_id)

text \<open>
  C22 The query for the missing votes returns: for every global permission and every state in the
  invariant the search through the pending rows ends.
\<close>

theorem RequiredForConsensus_returns:
  assumes "perm_good s" and "log_key (DbKey (lp_deref lp) a type)"
  shows "\<exists>n. RequiredForConsensus np s lp a type bfrom bto now = Some n"
proof -
  let ?k = "DbKey (lp_deref lp) a type" and ?last = "snd (GetPermission5 s lp a type True)"
  have wf: "perm_wf s" using assms(1) by (simp add: perm_good_def)
  have num: "l_ThisRow ?last = klast ?k (p_log s) (p_Row s)"
    using GetPermission5_log(2) [OF assms] by (simp add: shows_log_def)
  let ?q = "consensus_query_row s lp a type bfrom bto now (l_ThisRow ?last)"
  have "l_PrevRow ?q < p_Row s" using klast_less [of "p_Row s" ?k "p_log s"] perm_wf_length [OF wf] num
    by (simp add: consensus_query_row_def)
  then have "VerifyConsensus np s False ?q ?last \<noteq> None"
    using consensus_loop_total [OF wf] by (simp add: VerifyConsensus_def Let_def del: consensus_loop.simps)
  then obtain v where v: "VerifyConsensus np s False ?q ?last = Some v" by blast
  have branch: "\<exists>n. (if P then x else y) = Some n" if "\<exists>n. x = Some n" "\<exists>n. y = Some n" for P and x y :: "int option"
    using that by simp
  have "\<exists>n. (case VerifyConsensus np s False ?q ?last of None \<Rightarrow> None
      | Some (err, row, remaining) \<Rightarrow> if err \<noteq> MC_ERR_NOERROR then Some (-2) else Some remaining) = Some n"
    unfolding v by (cases v) simp
  then show ?thesis unfolding RequiredForConsensus_def Let_def by (intro branch) blast+
qed

theorem RequiredForConsensus_returns_witness: "\<exists>n. RequiredForConsensus ex_np two_admins None 33 MC_PTP_MINE 0 1000 9 = Some n"
  by (rule RequiredForConsensus_returns [OF two_admins_good]) (simp add: lp_deref_def null_entity_def)

text \<open>
  The counts that travel with a block arrive: what \<open>StoreBlockInfo\<close> packs into 32 bits,
  \<open>IncrementBlock\<close> unpacks, as long as both fit in 16 bits.
\<close>

theorem IncrementBlock_counts:
  assumes "0 \<le> p_AdminCount s" and "p_AdminCount s \<le> 0xffff" and "0 \<le> p_MinerCount s" and "p_MinerCount s \<le> 0xffff"
    and "admin_miner_count s \<noteq> 0"
  shows "\<exists>t'. IncrementBlock t (admin_miner_count s) = Some (MC_ERR_NOERROR, t') \<and> p_Block t' = p_Block t + 1 \<and>
    p_AdminCount t' = p_AdminCount s \<and> p_MinerCount t' = p_MinerCount s"
proof -
  define a m where "a = p_AdminCount s" and "m = p_MinerCount s"
  note b = assms(1-4) [folded a_def m_def]
  let ?w = "push_bit 16 (word_of_int a) + word_of_int m :: u32"
  have w: "?w = word_of_int (a * 65536 + m)" by (simp add: push_bit_eq_mult)
  have u: "uint ?w = a * 65536 + m"
    unfolding w using b by (simp only: uint_word_of_int) (simp add: take_bit_int_eq_self)
  have "uint (?w AND 0xffff) = m" and "uint (drop_bit 16 ?w AND 0xffff) = a"
  proof -
    have mask: "(0xffff :: int) = mask 16" by (simp add: mask_eq_exp_minus_1)
    have "uint (x AND 0xffff) = uint x mod 65536" for x :: u32
      by (simp add: unsigned_and_eq mask take_bit_eq_mod flip: take_bit_eq_mask)
    then show "uint (?w AND 0xffff) = m" and "uint (drop_bit 16 ?w AND 0xffff) = a"
      using b u by (simp_all add: unsigned_drop_bit_eq drop_bit_eq_div uint_div_distrib)
  qed
  moreover have "admin_miner_count s = ?w" using b by (simp add: admin_miner_count_def a_def m_def)
  ultimately show ?thesis using assms(5) by (simp add: IncrementBlock_def Let_def a_def m_def)
qed

theorem IncrementBlock_counts_witness:
  "\<exists>t'. IncrementBlock fresh (admin_miner_count (two_admins\<lparr>p_MinerCount := 3\<rparr>)) = Some (MC_ERR_NOERROR, t') \<and>
    p_AdminCount t' = 2 \<and> p_MinerCount t' = 3"
proof -
  have "admin_miner_count (two_admins\<lparr>p_MinerCount := 3\<rparr>) \<noteq> 0" by (simp add: admin_miner_count_def)
  with IncrementBlock_counts [of "two_admins\<lparr>p_MinerCount := 3\<rparr>" fresh] show ?thesis by auto
qed



end
